theory Spec2Isabelle
  imports Complex_Main "HOL-Library.Multiset"
begin

section \<open>Numbers, errors and tables\<close>

text \<open>
  The program computes with NumPy and pandas double-precision floats. They are modelled
  as ideal reals extended with the three IEEE special values. Rounding, overflow and
  the sign of zero are not modelled: a zero divisor is taken to be \<open>+0.0\<close>.
  An input cell is a \<open>real\<close>; a computed cell is an \<open>fl\<close>.
\<close>

datatype fl = Fin real | PInf | NInf | NaN

text \<open>The exceptions the modelled functions can raise.\<close>

datatype py_error =
  KeyError | IndexError | ValueError | ZeroDivisionError | UnboundLocalError
  | FileNotFoundError | AvocadoException

section \<open>Flat weights: \<open>evaluate_weights_flat\<close>\<close>

text \<open>
  \<open>object_classes.value_counts()\<close>: one entry per distinct class with the number of its
  objects. pandas orders the entries by falling count; the order only decides which
  missing key a \<open>KeyError\<close> names, and the error is modelled without its key.
  Class labels are taken to be present for every object.
\<close>

definition value_counts :: "'c list \<Rightarrow> ('c \<times> nat) list" where
  "value_counts object_classes =
     map (\<lambda>c. (c, count_list object_classes c)) (remdups object_classes)"

text \<open>\<open>class_weights[class_name]\<close> when a mapping is given, the constant 1 otherwise.\<close>

definition flat_class_weight :: "('c \<rightharpoonup> real) option \<Rightarrow> 'c \<Rightarrow> py_error + real" where
  "flat_class_weight class_weights class_name =
     (case class_weights of
        Some m \<Rightarrow> (case m class_name of None \<Rightarrow> Inl KeyError | Some w \<Rightarrow> Inr w)
      | None \<Rightarrow> Inr 1)"

text \<open>The loop over \<open>class_counts.items()\<close> that fills the dict \<open>norm_class_weights\<close>.\<close>

fun norm_class_weights_loop ::
  "('c \<rightharpoonup> real) option \<Rightarrow> nat \<Rightarrow> ('c \<times> nat) list \<Rightarrow> ('c \<rightharpoonup> real) \<Rightarrow> py_error + ('c \<rightharpoonup> real)" where
  "norm_class_weights_loop class_weights n [] norm_class_weights = Inr norm_class_weights"
| "norm_class_weights_loop class_weights n ((class_name, class_count) # rest) norm_class_weights =
     (case flat_class_weight class_weights class_name of
        Inl e \<Rightarrow> Inl e
      | Inr class_weight \<Rightarrow>
          norm_class_weights_loop class_weights n rest
            (norm_class_weights(class_name \<mapsto> class_weight * real n / real class_count)))"

text \<open>\<open>Series.map(dict)\<close>: a value with no key in the dict becomes NaN.\<close>

definition series_map :: "('c \<rightharpoonup> real) \<Rightarrow> 'c list \<Rightarrow> fl list" where
  "series_map d xs = map (\<lambda>c. case d c of Some w \<Rightarrow> Fin w | None \<Rightarrow> NaN) xs"

definition evaluate_weights_flat ::
  "'c list \<Rightarrow> ('c \<rightharpoonup> real) option \<Rightarrow> py_error + fl list" where
  "evaluate_weights_flat object_classes class_weights =
     (case norm_class_weights_loop class_weights (length object_classes)
             (value_counts object_classes) Map.empty of
        Inl e \<Rightarrow> Inl e
      | Inr norm_class_weights \<Rightarrow> Inr (series_map norm_class_weights object_classes))"

text \<open>
  The multiplier the specification attaches to a class: the mapping's entry, 1 when no
  mapping is supplied or the class is not listed.
\<close>

definition user_multiplier :: "('c \<rightharpoonup> real) option \<Rightarrow> 'c \<Rightarrow> real" where
  "user_multiplier class_weights c =
     (case class_weights of
        None \<Rightarrow> 1
      | Some m \<Rightarrow> (case m c of Some w \<Rightarrow> w | None \<Rightarrow> 1))"

text \<open>The sum of the weights of the objects of one class.\<close>

definition class_total :: "'c list \<Rightarrow> real list \<Rightarrow> 'c \<Rightarrow> real" where
  "class_total object_classes weights c =
     sum_list (map snd (filter (\<lambda>p. fst p = c) (zip object_classes weights)))"

section \<open>Redshift bins: the first lines of \<open>evaluate_weights_redshift\<close>\<close>

text \<open>
  \<open>np.linspace(start, stop, num)\<close> and \<open>np.logspace(start, stop, num)\<close> (base 10), in
  ideal arithmetic. \<open>np.log10\<close> is \<open>log 10\<close>, which is the logarithm only for a
  positive argument: NumPy gives \<open>-inf\<close> at 0 and NaN below it, so the properties of
  the bins are stated for positive redshift bounds.
\<close>

definition np_linspace :: "real \<Rightarrow> real \<Rightarrow> nat \<Rightarrow> real list" where
  "np_linspace start stop num =
     (if num = 1 then [start]
      else map (\<lambda>i. start + real i * ((stop - start) / real (num - 1))) [0..<num])"

definition np_logspace :: "real \<Rightarrow> real \<Rightarrow> nat \<Rightarrow> real list" where
  "np_logspace start stop num = map (\<lambda>y. 10 powr y) (np_linspace start stop num)"

text \<open>
  \<open>np.searchsorted(a, v)\<close> with the default \<open>side='left'\<close>: for a sorted array the
  first index \<open>i\<close> with \<open>v \<le> a[i]\<close>, the length when there is none. NumPy finds it by
  bisection; the scan below returns the same index on a sorted array.
\<close>

fun np_searchsorted :: "real list \<Rightarrow> real \<Rightarrow> nat" where
  "np_searchsorted [] v = 0"
| "np_searchsorted (a # as) v = (if v \<le> a then 0 else Suc (np_searchsorted as v))"

text \<open>The literals \<open>1e99\<close> and \<open>1e-99\<close>.\<close>

definition lit_1e99 :: real where
  "lit_1e99 = 10 ^ 99"

definition lit_1e_99 :: real where
  "lit_1e_99 = 1 / 10 ^ 99"

text \<open>
  The bin edges: the logarithmic range with its first and last edge replaced, and the
  edge \<open>-1e99\<close> put in front for the bin of galactic objects. The result has
  \<open>num_bins + 2\<close> edges, that is \<open>num_bins + 1\<close> bins; bin \<open>j\<close> lies between edge \<open>j\<close>
  and edge \<open>j + 1\<close>.
\<close>

definition redshift_bins :: "real \<Rightarrow> real \<Rightarrow> nat \<Rightarrow> real list" where
  "redshift_bins min_redshift max_redshift num_bins =
     (let bins0 = np_logspace (log 10 min_redshift) (log 10 max_redshift) (num_bins + 1);
          bins1 = bins0[0 := lit_1e_99];
          bins2 = bins1[length bins1 - 1 := lit_1e99]
      in (- lit_1e99) # bins2)"

text \<open>One entry of \<open>redshift_indices\<close>: \<open>np.searchsorted(redshift_bins, z) - 1\<close>.\<close>

definition redshift_index :: "real list \<Rightarrow> real \<Rightarrow> int" where
  "redshift_index bins z = int (np_searchsorted bins z) - 1"

text \<open>The inner bin edge at position \<open>p\<close> of the logarithmic range.\<close>

definition log_edge :: "real \<Rightarrow> real \<Rightarrow> nat \<Rightarrow> real \<Rightarrow> real" where
  "log_edge lo hi n p = 10 powr (log 10 lo + p * ((log 10 hi - log 10 lo) / real n))"

section \<open>Float arithmetic with the IEEE special values\<close>

text \<open>
  Multiplication, division and addition as NumPy computes them on doubles, on ideal
  reals: a finite operation is exact; a division by zero gives an infinity, or NaN
  for \<open>0/0\<close>; NaN propagates.
\<close>

fun fmul :: "fl \<Rightarrow> fl \<Rightarrow> fl" where
  "fmul (Fin a) (Fin b) = Fin (a * b)"
| "fmul NaN _ = NaN"
| "fmul _ NaN = NaN"
| "fmul (Fin a) PInf = (if a = 0 then NaN else if 0 < a then PInf else NInf)"
| "fmul (Fin a) NInf = (if a = 0 then NaN else if 0 < a then NInf else PInf)"
| "fmul PInf (Fin b) = (if b = 0 then NaN else if 0 < b then PInf else NInf)"
| "fmul NInf (Fin b) = (if b = 0 then NaN else if 0 < b then NInf else PInf)"
| "fmul PInf PInf = PInf"
| "fmul PInf NInf = NInf"
| "fmul NInf PInf = NInf"
| "fmul NInf NInf = PInf"

fun fdiv :: "fl \<Rightarrow> fl \<Rightarrow> fl" where
  "fdiv (Fin a) (Fin b) =
     (if b \<noteq> 0 then Fin (a / b) else if 0 < a then PInf else if a < 0 then NInf else NaN)"
| "fdiv NaN _ = NaN"
| "fdiv _ NaN = NaN"
| "fdiv (Fin a) PInf = Fin 0"
| "fdiv (Fin a) NInf = Fin 0"
| "fdiv PInf (Fin b) = (if 0 \<le> b then PInf else NInf)"
| "fdiv NInf (Fin b) = (if 0 \<le> b then NInf else PInf)"
| "fdiv PInf PInf = NaN"
| "fdiv PInf NInf = NaN"
| "fdiv NInf PInf = NaN"
| "fdiv NInf NInf = NaN"

fun fadd :: "fl \<Rightarrow> fl \<Rightarrow> fl" where
  "fadd (Fin a) (Fin b) = Fin (a + b)"
| "fadd NaN _ = NaN"
| "fadd _ NaN = NaN"
| "fadd PInf NInf = NaN"
| "fadd NInf PInf = NaN"
| "fadd PInf _ = PInf"
| "fadd _ PInf = PInf"
| "fadd NInf _ = NInf"
| "fadd _ NInf = NInf"

text \<open>\<open>np.log\<close>: \<open>-inf\<close> at 0 and NaN below it.\<close>

definition np_log :: "real \<Rightarrow> fl" where
  "np_log x = (if 0 < x then Fin (ln x) else if x = 0 then NInf else NaN)"

text \<open>
  \<open>np.sum\<close> of a pandas Series calls \<open>Series.sum\<close>, which skips NaN (its \<open>skipna\<close>
  defaults to true) and adds the rest; the sum of no value is 0.
\<close>

definition pd_sum :: "fl list \<Rightarrow> fl" where
  "pd_sum xs = foldl fadd (Fin 0) (filter (\<lambda>x. x \<noteq> NaN) xs)"

section \<open>Arrays, masks and frames\<close>

text \<open>\<open>np.unique\<close>: the distinct values in increasing order.\<close>

definition np_unique :: "'a::linorder list \<Rightarrow> 'a list" where
  "np_unique xs = sort (remdups xs)"

text \<open>\<open>xs[mask]\<close> for a boolean mask: the entries at the true positions, in order.\<close>

definition mask_select :: "bool list \<Rightarrow> 'a list \<Rightarrow> 'a list" where
  "mask_select msk xs = map snd (filter fst (zip msk xs))"

text \<open>\<open>xs[mask] = v\<close> for a scalar \<open>v\<close>.\<close>

definition mask_fill :: "bool list \<Rightarrow> 'a list \<Rightarrow> 'a \<Rightarrow> 'a list" where
  "mask_fill msk xs v = map (\<lambda>(m, x). if m then v else x) (zip msk xs)"

text \<open>
  \<open>xs[mask] = vs\<close> for an array \<open>vs\<close>: the true positions take the values of \<open>vs\<close> in
  order. Every caller below passes as many values as the mask has true positions
  (pandas raises otherwise); with fewer values the remaining entries are kept.
\<close>

fun mask_assign :: "bool list \<Rightarrow> 'a list \<Rightarrow> 'a list \<Rightarrow> 'a list" where
  "mask_assign (m # ms) (x # xs) vs =
     (if m then (case vs of v # vs' \<Rightarrow> v # mask_assign ms xs vs'
                          | [] \<Rightarrow> x # mask_assign ms xs [])
      else x # mask_assign ms xs vs)"
| "mask_assign _ xs _ = xs"

text \<open>
  A pandas \<open>DataFrame\<close> of floats: the column labels and the rows, every row holding
  one value per column. Rows are addressed by position; the row keys of all the
  tables and series of one call are the same index, so position stands for key.
\<close>

record 'c data_frame =
  columns :: "'c list"
  row_values :: "real list list"

text \<open>The position of a label in a list of labels (its length when absent).\<close>

definition label_index :: "'a list \<Rightarrow> 'a \<Rightarrow> nat" where
  "label_index xs x = length (takeWhile (\<lambda>y. y \<noteq> x) xs)"

text \<open>\<open>df[c]\<close>: the column of a label.\<close>

definition frame_column :: "'c data_frame \<Rightarrow> 'c \<Rightarrow> real list" where
  "frame_column df c = map (\<lambda>r. r ! label_index (columns df) c) (row_values df)"

section \<open>The metric: \<open>weighted_multi_logloss\<close>\<close>

text \<open>The literals \<open>1e10\<close> and \<open>1e-10\<close>.\<close>

definition lit_1e10 :: real where
  "lit_1e10 = 10 ^ 10"

definition lit_1e_10 :: real where
  "lit_1e_10 = 1 / 10 ^ 10"

text \<open>\<open>class_weights.get(class_name, 1)\<close>, and 1 without a mapping.\<close>

definition logloss_class_weight :: "('c \<rightharpoonup> real) option \<Rightarrow> 'c \<Rightarrow> real" where
  "logloss_class_weight class_weights class_name =
     (case class_weights of
        Some m \<Rightarrow> (case m class_name of Some w \<Rightarrow> w | None \<Rightarrow> 1)
      | None \<Rightarrow> 1)"

text \<open>
  One pass of the loop over \<open>np.unique(true_classes)\<close>. The state is the series
  \<open>object_loglosses\<close> and the number \<open>sum_class_weights\<close>. The object weights select by
  the mask when given, and are ones otherwise.
\<close>

definition logloss_step ::
  "'c list \<Rightarrow> 'c data_frame \<Rightarrow> real list option \<Rightarrow> ('c \<rightharpoonup> real) option \<Rightarrow> 'c \<Rightarrow>
   fl list \<times> real \<Rightarrow> py_error + fl list \<times> real" where
  "logloss_step true_classes predictions object_weights class_weights class_name st =
     (let object_loglosses = fst st;
          sum_class_weights = snd st;
          class_mask = map (\<lambda>c. c = class_name) true_classes;
          class_count = length (filter id class_mask);
          class_object_weights =
            (case object_weights of
               Some ws \<Rightarrow> mask_select class_mask ws
             | None \<Rightarrow> replicate class_count 1);
          class_weight = logloss_class_weight class_weights class_name
      in if class_weight = 0 then
           Inr (mask_fill class_mask object_loglosses (Fin 0), sum_class_weights)
         else if class_name \<notin> set (columns predictions) then Inl AvocadoException
         else
           let class_predictions =
                 map (\<lambda>p. if p = 0 then lit_1e_10 else p)
                   (mask_select class_mask (frame_column predictions class_name));
               class_loglosses =
                 map2 (\<lambda>w p. fdiv (fmul (Fin (- class_weight * w)) (np_log p))
                                (Fin (sum_list class_object_weights)))
                   class_object_weights class_predictions
           in Inr (mask_assign class_mask object_loglosses class_loglosses,
                   sum_class_weights + class_weight))"

fun logloss_loop ::
  "'c list \<Rightarrow> 'c data_frame \<Rightarrow> real list option \<Rightarrow> ('c \<rightharpoonup> real) option \<Rightarrow> 'c list \<Rightarrow>
   fl list \<times> real \<Rightarrow> py_error + fl list \<times> real" where
  "logloss_loop true_classes predictions object_weights class_weights [] st = Inr st"
| "logloss_loop true_classes predictions object_weights class_weights (class_name # rest) st =
     (case logloss_step true_classes predictions object_weights class_weights class_name st of
        Inl e \<Rightarrow> Inl e
      | Inr st' \<Rightarrow> logloss_loop true_classes predictions object_weights class_weights rest st')"

text \<open>
  The series that \<open>return_object_contributions=True\<close> returns: the loop over the
  classes from the series of \<open>1e10\<close> and the sum 0, then the division of every entry
  by \<open>sum_class_weights\<close>.
\<close>

definition object_logloss_contributions ::
  "'c::linorder list \<Rightarrow> 'c data_frame \<Rightarrow> real list option \<Rightarrow> ('c \<rightharpoonup> real) option \<Rightarrow>
   py_error + fl list" where
  "object_logloss_contributions true_classes predictions object_weights class_weights =
     (case logloss_loop true_classes predictions object_weights class_weights
             (np_unique true_classes)
             (replicate (length true_classes) (Fin lit_1e10), 0) of
        Inl e \<Rightarrow> Inl e
      | Inr (object_loglosses, sum_class_weights) \<Rightarrow>
          Inr (map (\<lambda>x. fdiv x (Fin sum_class_weights)) object_loglosses))"

text \<open>The default result: \<open>np.sum(object_loglosses)\<close>.\<close>

definition weighted_multi_logloss ::
  "'c::linorder list \<Rightarrow> 'c data_frame \<Rightarrow> real list option \<Rightarrow> ('c \<rightharpoonup> real) option \<Rightarrow>
   py_error + fl" where
  "weighted_multi_logloss true_classes predictions object_weights class_weights =
     (case object_logloss_contributions true_classes predictions object_weights class_weights of
        Inl e \<Rightarrow> Inl e
      | Inr object_loglosses \<Rightarrow> Inr (pd_sum object_loglosses))"

text \<open>The replacement of a probability that is exactly 0 by \<open>1e-10\<close>.\<close>

definition clamp_zero :: "real \<Rightarrow> real" where
  "clamp_zero p = (if p = 0 then lit_1e_10 else p)"

text \<open>The object weights in use: the given ones, or ones.\<close>

definition effective_weights :: "nat \<Rightarrow> real list option \<Rightarrow> real list" where
  "effective_weights n object_weights =
     (case object_weights of Some ws \<Rightarrow> ws | None \<Rightarrow> replicate n 1)"

text \<open>\<open>np.sum(class_object_weights)\<close> for a class.\<close>

definition class_weight_sum :: "'c list \<Rightarrow> real list \<Rightarrow> 'c \<Rightarrow> real" where
  "class_weight_sum true_classes ws c = sum_list (mask_select (map (\<lambda>c'. c' = c) true_classes) ws)"

text \<open>
  The entry that the loop leaves in \<open>object_loglosses\<close> for one object, given as its
  class, its weight and its row of predictions: \<open>wt\<close> gives the class weights and \<open>W\<close>
  the sum of the object weights of a class.
\<close>

definition object_contribution ::
  "('c \<Rightarrow> real) \<Rightarrow> ('c \<Rightarrow> real) \<Rightarrow> 'c data_frame \<Rightarrow> 'c \<times> real \<times> real list \<Rightarrow> fl" where
  "object_contribution wt W df obj =
     (case obj of (c, w, r) \<Rightarrow>
        if wt c = 0 then Fin 0
        else fdiv (fmul (Fin (- wt c * w)) (np_log (clamp_zero (r ! label_index (columns df) c))))
               (Fin (W c)))"

text \<open>A series or the rows of a table with the objects of class \<open>C\<close> deleted.\<close>

definition delete_class_rows :: "'c \<Rightarrow> 'c list \<Rightarrow> 'a list \<Rightarrow> 'a list" where
  "delete_class_rows C true_classes xs = mask_select (map (\<lambda>c. c \<noteq> C) true_classes) xs"

text \<open>
  The metric as the specification words it. An object of a class of non-zero weight
  contributes \<open>-class_weight * object_weight * ln p / (sum of the object weights of
  its class)\<close>, where \<open>p\<close> is the predicted probability of its true class with 0
  replaced by \<open>1e-10\<close>; an object of a class of weight 0 contributes 0.
\<close>

definition spec_object_loss ::
  "('c \<Rightarrow> real) \<Rightarrow> ('c \<Rightarrow> real) \<Rightarrow> 'c data_frame \<Rightarrow> 'c \<times> real \<times> real list \<Rightarrow> real" where
  "spec_object_loss wt W df obj =
     (case obj of (c, w, r) \<Rightarrow>
        if wt c = 0 then 0
        else - wt c * w * ln (clamp_zero (r ! label_index (columns df) c)) / W c)"

text \<open>
  The grand total of the contributions, divided by the sum of the class weights of the
  classes of non-zero weight among the true labels.
\<close>

definition logloss_formula ::
  "'c list \<Rightarrow> 'c data_frame \<Rightarrow> real list option \<Rightarrow> ('c \<rightharpoonup> real) option \<Rightarrow> real" where
  "logloss_formula true_classes predictions object_weights class_weights =
     (let ws = effective_weights (length true_classes) object_weights;
          wt = logloss_class_weight class_weights
      in sum_list (map (spec_object_loss wt (class_weight_sum true_classes ws) predictions)
                    (zip true_classes (zip ws (row_values predictions))))
         / sum_list (map wt (filter (\<lambda>c. wt c \<noteq> 0) (remdups true_classes))))"

section \<open>Cross-validation: the fold loop of \<open>train\<close>\<close>

text \<open>
  \<open>LightGBMClassifier.train\<close> and \<open>NNClassifier.train\<close> run the same loop over the
  folds. The parts they do not share are parameters: \<open>fit\<close> stands for
  \<open>fit_lightgbm_classifier\<close> or \<open>fit_nn_classifier\<close>, and \<open>predict_row\<close> for the
  probabilities the fitted classifier gives for one row of features (\<open>predict_proba\<close>,
  or the softmax of the network's logits). A fit may raise, and it may read and change
  what lies outside the loop (the random number generators, the files of the
  checkpoints): that is the environment \<open>env\<close>, which the loop hands from fold to fold.
  The fold labels are what \<open>dataset.label_folds\<close> returned.
\<close>

text \<open>\<open>np.max\<close>, which raises on an empty array.\<close>

definition np_max :: "int list \<Rightarrow> py_error + int" where
  "np_max xs = (if xs = [] then Inl ValueError else Inr (Max (set xs)))"

text \<open>\<open>range(num_folds)\<close>.\<close>

definition fold_range :: "int \<Rightarrow> int list" where
  "fold_range num_folds = map int [0..<nat num_folds]"

text \<open>\<open>folds == fold_id\<close> and \<open>folds != fold_id\<close>.\<close>

definition validation_mask :: "int list \<Rightarrow> int \<Rightarrow> bool list" where
  "validation_mask folds fold_id = map (\<lambda>x. x = fold_id) folds"

definition train_mask :: "int list \<Rightarrow> int \<Rightarrow> bool list" where
  "train_mask folds fold_id = map (\<lambda>x. x \<noteq> fold_id) folds"

text \<open>The classifier of one fold: the fit on the two slices of the data.\<close>

definition fold_classifier ::
  "('f list \<Rightarrow> 'c list \<Rightarrow> 'w list \<Rightarrow> 'f list \<Rightarrow> 'c list \<Rightarrow> 'w list \<Rightarrow> int \<Rightarrow> 'e \<Rightarrow>
      py_error + 'm \<times> 'e) \<Rightarrow>
   'f list \<Rightarrow> 'c list \<Rightarrow> 'w list \<Rightarrow> int list \<Rightarrow> int \<Rightarrow> 'e \<Rightarrow> py_error + 'm \<times> 'e" where
  "fold_classifier fit features object_classes object_weights folds fold_id env =
     fit (mask_select (train_mask folds fold_id) features)
         (mask_select (train_mask folds fold_id) object_classes)
         (mask_select (train_mask folds fold_id) object_weights)
         (mask_select (validation_mask folds fold_id) features)
         (mask_select (validation_mask folds fold_id) object_classes)
         (mask_select (validation_mask folds fold_id) object_weights)
         fold_id env"

text \<open>
  One pass of the loop. The state is the table \<open>predictions\<close>, as its rows, the list
  \<open>classifiers\<close> and the environment. The predictions for the validation rows are
  assigned to the rows where the mask is true.
\<close>

definition cv_fold ::
  "('f list \<Rightarrow> 'c list \<Rightarrow> 'w list \<Rightarrow> 'f list \<Rightarrow> 'c list \<Rightarrow> 'w list \<Rightarrow> int \<Rightarrow> 'e \<Rightarrow>
      py_error + 'm \<times> 'e) \<Rightarrow>
   ('m \<Rightarrow> 'f \<Rightarrow> real list) \<Rightarrow> 'f list \<Rightarrow> 'c list \<Rightarrow> 'w list \<Rightarrow> int list \<Rightarrow> int \<Rightarrow>
   real list list \<times> 'm list \<times> 'e \<Rightarrow> py_error + real list list \<times> 'm list \<times> 'e" where
  "cv_fold fit predict_row features object_classes object_weights folds fold_id st =
     (case st of (predictions, classifiers, env) \<Rightarrow>
        (case fold_classifier fit features object_classes object_weights folds fold_id env of
           Inl e \<Rightarrow> Inl e
         | Inr (classifier, env') \<Rightarrow>
             (let validation_features = mask_select (validation_mask folds fold_id) features;
                  validation_predictions = map (predict_row classifier) validation_features
              in Inr (mask_assign (validation_mask folds fold_id) predictions
                        validation_predictions,
                      classifiers @ [classifier], env'))))"

fun cv_loop ::
  "('f list \<Rightarrow> 'c list \<Rightarrow> 'w list \<Rightarrow> 'f list \<Rightarrow> 'c list \<Rightarrow> 'w list \<Rightarrow> int \<Rightarrow> 'e \<Rightarrow>
      py_error + 'm \<times> 'e) \<Rightarrow>
   ('m \<Rightarrow> 'f \<Rightarrow> real list) \<Rightarrow> 'f list \<Rightarrow> 'c list \<Rightarrow> 'w list \<Rightarrow> int list \<Rightarrow> int list \<Rightarrow>
   real list list \<times> 'm list \<times> 'e \<Rightarrow> py_error + real list list \<times> 'm list \<times> 'e" where
  "cv_loop fit predict_row features object_classes object_weights folds [] st = Inr st"
| "cv_loop fit predict_row features object_classes object_weights folds (fold_id # rest) st =
     (case cv_fold fit predict_row features object_classes object_weights folds fold_id st of
        Inl e \<Rightarrow> Inl e
      | Inr st' \<Rightarrow>
          cv_loop fit predict_row features object_classes object_weights folds rest st')"

text \<open>
  The training loop from the fold labels on: \<open>num_folds\<close> is the largest label plus
  one, the table starts with \<open>-1\<close> in every cell, one column per class, and the loop
  runs over \<open>range(num_folds)\<close>. The result is the filled table, the classifiers and
  the environment the last fit left.
\<close>

definition cv_train ::
  "('f list \<Rightarrow> 'c list \<Rightarrow> 'w list \<Rightarrow> 'f list \<Rightarrow> 'c list \<Rightarrow> 'w list \<Rightarrow> int \<Rightarrow> 'e \<Rightarrow>
      py_error + 'm \<times> 'e) \<Rightarrow>
   ('m \<Rightarrow> 'f \<Rightarrow> real list) \<Rightarrow> 'f list \<Rightarrow> 'c::linorder list \<Rightarrow> 'w list \<Rightarrow> int list \<Rightarrow> 'e \<Rightarrow>
   py_error + real list list \<times> 'm list \<times> 'e" where
  "cv_train fit predict_row features object_classes object_weights folds env =
     (case np_max folds of
        Inl e \<Rightarrow> Inl e
      | Inr m \<Rightarrow>
          (let num_folds = m + 1;
               classes = np_unique object_classes;
               predictions = replicate (length object_classes) (replicate (length classes) (- 1))
           in cv_loop fit predict_row features object_classes object_weights folds
                (fold_range num_folds) (predictions, [], env)))"

text \<open>The row keys of the validation slices of all folds, fold after fold.\<close>

definition validation_keys :: "int list \<Rightarrow> 'k list \<Rightarrow> int list \<Rightarrow> 'k list" where
  "validation_keys folds index fs =
     concat (map (\<lambda>fold_id. mask_select (validation_mask folds fold_id) index) fs)"

section \<open>The neural network classifier\<close>

text \<open>
  The networks (\<open>FTTransformer\<close>, \<open>SimpleMLP\<close>), PyTorch and the random number
  generators are outside the repository's file. A network is its kind and its
  parameters (its \<open>state_dict\<close>); what the libraries compute is a parameter \<open>ops\<close> of
  the model:
  \<^item> \<open>new_params\<close>: the parameters of a newly constructed network of a kind for the
    training data (the random initialisation is not modelled);
  \<^item> \<open>new_optimizer\<close>: \<open>torch.optim.AdamW\<close> for parameters and a learning rate;
  \<^item> \<open>sample_batch\<close>: \<open>get_batch\<close> on the data of a split, for a batch size and the
    state of \<open>np.random\<close>;
  \<^item> \<open>gradient_step\<close>: \<open>zero_grad\<close>, the forward pass in training mode, the weighted
    loss, \<open>backward\<close> and \<open>optimizer.step\<close>;
  \<^item> \<open>batch_loss\<close> and \<open>batch_correct\<close>: the mean weighted loss of a batch and its
    number of correct predictions, in evaluation mode;
  \<^item> \<open>logits\<close>: the output of the network in evaluation mode for one row of features,
    after \<open>nan_to_num\<close>.
  \<open>classifier.train()\<close> and \<open>classifier.eval()\<close> only choose between the two modes.
  Console output is left out.
\<close>

datatype model_kind = FT | MLP

datatype split_kind = TrainSplit | ValSplit

datatype nn_event = SampleBatch split_kind | GradientStep | Checkpoint | WandbInit | WandbLog

record 'p nn_module =
  kind :: model_kind
  params :: 'p

record ('p, 'o, 'g, 'b, 'f, 'c, 'w) nn_ops =
  new_params :: "model_kind \<Rightarrow> 'f list \<Rightarrow> 'c list \<Rightarrow> 'p"
  new_optimizer :: "'p \<Rightarrow> real \<Rightarrow> 'o"
  sample_batch :: "'f list \<times> 'c list \<times> 'w list \<Rightarrow> nat \<Rightarrow> 'g \<Rightarrow> 'b \<times> 'g"
  gradient_step :: "'p \<Rightarrow> 'o \<Rightarrow> 'b \<Rightarrow> 'p \<times> 'o"
  batch_loss :: "'p \<Rightarrow> 'b \<Rightarrow> real"
  batch_correct :: "'p \<Rightarrow> 'b \<Rightarrow> nat"
  logits :: "'p \<Rightarrow> 'f \<Rightarrow> real list"

text \<open>
  \<open>fit_params\<close> after \<open>fit_params.update(kwargs)\<close>: the defaults are \<open>eval_iters = 200\<close>,
  \<open>eval_interval = 200\<close>, \<open>lr = 1e-4\<close> and \<open>model_type = 'ft'\<close>.
\<close>

record fit_params =
  logger :: "string option"
  max_iters :: int
  eval_iters :: nat
  eval_interval :: int
  lr :: real
  model_type :: string
  batch_size :: nat

text \<open>
  What a fit reads and changes outside itself: the state of \<open>np.random\<close>, the files of
  the checkpoints (by path), and the calls made so far.
\<close>

record ('p, 'g) nn_env =
  rng :: 'g
  disk :: "string \<times> int \<rightharpoonup> 'p"
  events :: "nn_event list"

text \<open>\<open>classifier_<name>_<fold>.pt\<close> in the classifier directory.\<close>

definition model_path :: "string \<Rightarrow> int \<Rightarrow> string \<times> int" where
  "model_path name fold_id = (name, fold_id)"

text \<open>The comparison \<open><\<close> of floats: false whenever NaN takes part.\<close>

fun fl_less :: "fl \<Rightarrow> fl \<Rightarrow> bool" where
  "fl_less (Fin a) (Fin b) = (a < b)"
| "fl_less NaN _ = False"
| "fl_less _ NaN = False"
| "fl_less _ NInf = False"
| "fl_less NInf _ = True"
| "fl_less PInf _ = False"
| "fl_less (Fin a) PInf = True"

text \<open>
  The inner loop of \<open>estimate_loss\<close> for one split: \<open>k\<close> more batches; the accumulator
  holds the state of \<open>np.random\<close>, the losses so far, \<open>correct\<close>, \<open>total\<close> and the calls.
\<close>

fun eval_batches ::
  "('p, 'o, 'g, 'b, 'f, 'c, 'w) nn_ops \<Rightarrow> 'p \<Rightarrow> 'f list \<times> 'c list \<times> 'w list \<Rightarrow> split_kind \<Rightarrow>
   nat \<Rightarrow> nat \<Rightarrow> 'g \<times> real list \<times> nat \<times> nat \<times> nn_event list \<Rightarrow>
   'g \<times> real list \<times> nat \<times> nat \<times> nn_event list" where
  "eval_batches ops prm data split_name bs 0 acc = acc"
| "eval_batches ops prm data split_name bs (Suc k) (g, losses, correct_count, total_count, ev) =
     (let (b, g') = sample_batch ops data bs g
      in eval_batches ops prm data split_name bs k
           (g', losses @ [batch_loss ops prm b], correct_count + batch_correct ops prm b,
            total_count + bs, ev @ [SampleBatch split_name]))"

text \<open>
  \<open>estimate_loss\<close>: for the training split and then the validation split, the mean of
  the losses and the accuracy over \<open>eval_iters\<close> batches. With \<open>eval_iters = 0\<close> the
  accuracy of the first split is the division \<open>0 / 0\<close> of Python integers, which raises.
  The result is the four metrics (training loss and accuracy, validation loss and
  accuracy), the state of \<open>np.random\<close> and the calls made.
\<close>

definition estimate_loss ::
  "('p, 'o, 'g, 'b, 'f, 'c, 'w) nn_ops \<Rightarrow> fit_params \<Rightarrow> 'p \<Rightarrow>
   'f list \<times> 'c list \<times> 'w list \<Rightarrow> 'f list \<times> 'c list \<times> 'w list \<Rightarrow> 'g \<Rightarrow>
   py_error + (fl \<times> fl \<times> fl \<times> fl) \<times> 'g \<times> nn_event list" where
  "estimate_loss ops fp prm train_data val_data g =
     (if eval_iters fp = 0 then Inl ZeroDivisionError
      else
        let (g1, losses1, correct1, total1, ev1) =
              eval_batches ops prm train_data TrainSplit (batch_size fp) (eval_iters fp)
                (g, [], 0, 0, []);
            (g2, losses2, correct2, total2, ev2) =
              eval_batches ops prm val_data ValSplit (batch_size fp) (eval_iters fp)
                (g1, [], 0, 0, ev1)
        in Inr ((fdiv (Fin (sum_list losses1)) (Fin (real (eval_iters fp))),
                 fdiv (Fin (real correct1)) (Fin (real total1)),
                 fdiv (Fin (sum_list losses2)) (Fin (real (eval_iters fp))),
                 fdiv (Fin (real correct2)) (Fin (real total2))),
                g2, ev2))"

text \<open>The state of the training loop of \<open>fit_nn_classifier\<close>.\<close>

record ('p, 'o, 'g) fit_state =
  fs_params :: 'p
  fs_optimizer :: 'o
  fs_best_loss :: fl
  fs_env :: "('p, 'g) nn_env"

text \<open>
  One pass of the training loop, for the iteration number \<open>iter\<close>: a batch, a gradient
  step, and at every \<open>eval_interval\<close>-th and at the last iteration the evaluation, the
  checkpoint when the validation loss is below the best one so far and a path is
  given, and the log when the logger is \<open>'wandb'\<close>. The test of the iteration number
  raises when \<open>eval_interval\<close> is 0.
\<close>

definition fit_iteration ::
  "('p, 'o, 'g, 'b, 'f, 'c, 'w) nn_ops \<Rightarrow> fit_params \<Rightarrow>
   'f list \<times> 'c list \<times> 'w list \<Rightarrow> 'f list \<times> 'c list \<times> 'w list \<Rightarrow> (string \<times> int) option \<Rightarrow>
   int \<Rightarrow> ('p, 'o, 'g) fit_state \<Rightarrow> py_error + ('p, 'o, 'g) fit_state" where
  "fit_iteration ops fp train_data val_data save_model_path iter st =
     (let env = fs_env st;
          (b, g1) = sample_batch ops train_data (batch_size fp) (rng env);
          (prm1, opt1) = gradient_step ops (fs_params st) (fs_optimizer st) b;
          env1 = env\<lparr>rng := g1, events := events env @ [SampleBatch TrainSplit, GradientStep]\<rparr>;
          st1 = st\<lparr>fs_params := prm1, fs_optimizer := opt1, fs_env := env1\<rparr>
      in if eval_interval fp = 0 then Inl ZeroDivisionError
         else if iter mod eval_interval fp = 0 \<or> iter = max_iters fp - 1 then
           (case estimate_loss ops fp prm1 train_data val_data g1 of
              Inl e \<Rightarrow> Inl e
            | Inr ((train_loss, train_accuracy, val_loss, val_accuracy), g2, ev) \<Rightarrow>
                let env2 = env1\<lparr>rng := g2, events := events env1 @ ev\<rparr>;
                    st2 = st1\<lparr>fs_env := env2\<rparr>;
                    st3 =
                      (case save_model_path of
                         Some path \<Rightarrow>
                           if fl_less val_loss (fs_best_loss st2) then
                             st2\<lparr>fs_best_loss := val_loss,
                                 fs_env := env2\<lparr>disk := (disk env2)(path \<mapsto> prm1),
                                                events := events env2 @ [Checkpoint]\<rparr>\<rparr>
                           else st2
                       | None \<Rightarrow> st2)
                in Inr (if logger fp = Some ''wandb''
                        then st3\<lparr>fs_env := (fs_env st3)\<lparr>events := events (fs_env st3) @ [WandbLog]\<rparr>\<rparr>
                        else st3))
         else Inr st1)"

fun fit_loop ::
  "('p, 'o, 'g, 'b, 'f, 'c, 'w) nn_ops \<Rightarrow> fit_params \<Rightarrow>
   'f list \<times> 'c list \<times> 'w list \<Rightarrow> 'f list \<times> 'c list \<times> 'w list \<Rightarrow> (string \<times> int) option \<Rightarrow>
   int list \<Rightarrow> ('p, 'o, 'g) fit_state \<Rightarrow> py_error + ('p, 'o, 'g) fit_state" where
  "fit_loop ops fp train_data val_data save_model_path [] st = Inr st"
| "fit_loop ops fp train_data val_data save_model_path (iter # rest) st =
     (case fit_iteration ops fp train_data val_data save_model_path iter st of
        Inl e \<Rightarrow> Inl e
      | Inr st' \<Rightarrow> fit_loop ops fp train_data val_data save_model_path rest st')"

text \<open>The kind of network that \<open>model_type\<close> names; any other name leaves the variable unbound.\<close>

definition kind_of_model_type :: "string \<Rightarrow> model_kind option" where
  "kind_of_model_type t = (if t = ''ft'' then Some FT else if t = ''mlp'' then Some MLP else None)"

text \<open>
  \<open>fit_nn_classifier\<close>: the new network, the optimizer, the run at the logger, then the
  loop over \<open>range(max_iters)\<close> from the best loss \<open>np.inf\<close>. It returns the network as
  the last iteration left it; the environment is returned with it.
\<close>

definition fit_nn_classifier ::
  "('p, 'o, 'g, 'b, 'f, 'c, 'w) nn_ops \<Rightarrow> fit_params \<Rightarrow>
   'f list \<times> 'c list \<times> 'w list \<Rightarrow> 'f list \<times> 'c list \<times> 'w list \<Rightarrow> (string \<times> int) option \<Rightarrow>
   ('p, 'g) nn_env \<Rightarrow> py_error + 'p nn_module \<times> ('p, 'g) nn_env" where
  "fit_nn_classifier ops fp train_data val_data save_model_path env =
     (case kind_of_model_type (model_type fp) of
        None \<Rightarrow> Inl UnboundLocalError
      | Some k \<Rightarrow>
          let prm0 = new_params ops k (fst train_data) (fst (snd train_data));
              opt0 = new_optimizer ops prm0 (lr fp);
              env0 = (if logger fp = Some ''wandb''
                      then env\<lparr>events := events env @ [WandbInit]\<rparr> else env);
              st0 = \<lparr>fs_params = prm0, fs_optimizer = opt0, fs_best_loss = PInf, fs_env = env0\<rparr>
          in (case fit_loop ops fp train_data val_data save_model_path
                     (map int [0..<nat (max_iters fp)]) st0 of
                Inl e \<Rightarrow> Inl e
              | Inr st \<Rightarrow> Inr (\<lparr>kind = k, params = fs_params st\<rparr>, fs_env st)))"

text \<open>\<open>scipy.special.softmax\<close> of a vector of logits.\<close>

definition softmax :: "real list \<Rightarrow> real list" where
  "softmax xs = map (\<lambda>x. exp x / sum_list (map exp xs)) xs"

text \<open>
  \<open>NNClassifier.train\<close> up to the table of predictions: the fold loop with
  \<open>fit_nn_classifier\<close> as the fit, saving to the path of the classifier's name and the
  fold, and with the softmax of the logits of the returned network as the prediction
  of a row.
\<close>

definition nn_fit ::
  "('p, 'o, 'g, 'b, 'f, 'c, 'w) nn_ops \<Rightarrow> fit_params \<Rightarrow> string \<Rightarrow>
   'f list \<Rightarrow> 'c list \<Rightarrow> 'w list \<Rightarrow> 'f list \<Rightarrow> 'c list \<Rightarrow> 'w list \<Rightarrow> int \<Rightarrow> ('p, 'g) nn_env \<Rightarrow>
   py_error + 'p nn_module \<times> ('p, 'g) nn_env" where
  "nn_fit ops fp name train_features train_classes train_weights
       validation_features validation_classes validation_weights fold_id env =
     fit_nn_classifier ops fp (train_features, train_classes, train_weights)
       (validation_features, validation_classes, validation_weights)
       (Some (model_path name fold_id)) env"

definition nn_predict_row ::
  "('p, 'o, 'g, 'b, 'f, 'c, 'w) nn_ops \<Rightarrow> 'p nn_module \<Rightarrow> 'f \<Rightarrow> real list" where
  "nn_predict_row ops classifier x = softmax (logits ops (params classifier) x)"

definition nn_train ::
  "('p, 'o, 'g, 'b, 'f, 'c::linorder, 'w) nn_ops \<Rightarrow> fit_params \<Rightarrow> string \<Rightarrow>
   'f list \<Rightarrow> 'c list \<Rightarrow> 'w list \<Rightarrow> int list \<Rightarrow> ('p, 'g) nn_env \<Rightarrow>
   py_error + real list list \<times> 'p nn_module list \<times> ('p, 'g) nn_env" where
  "nn_train ops fp name features object_classes object_weights folds env =
     cv_train (nn_fit ops fp name) (nn_predict_row ops) features object_classes object_weights
       folds env"

text \<open>
  \<open>self.classifiers\<close> as \<open>train\<close> stores it: for the classifier of fold \<open>i\<close> the path of
  its checkpoint and the kind from its configuration.
\<close>

definition nn_stored_classifiers ::
  "string \<Rightarrow> 'p nn_module list \<Rightarrow> ((string \<times> int) \<times> model_kind) list" where
  "nn_stored_classifiers name classifiers =
     map (\<lambda>(i, classifier). (model_path name (int i), kind classifier))
       (zip [0..<length classifiers] classifiers)"

text \<open>
  One pass of the loop of \<open>NNClassifier.predict\<close>: a new network of the stored kind
  takes the parameters that \<open>torch.load\<close> reads from the stored path, and its scores are
  normalised as \<open>exp_scores / np.sum(exp_scores)\<close>, row by row.
\<close>

definition nn_fold_predictions ::
  "('p, 'o, 'g, 'b, 'f, 'c, 'w) nn_ops \<Rightarrow> (string \<times> int \<rightharpoonup> 'p) \<Rightarrow> (string \<times> int) \<times> model_kind \<Rightarrow>
   'f list \<Rightarrow> py_error + real list list" where
  "nn_fold_predictions ops files c features =
     (case files (fst c) of
        None \<Rightarrow> Inl FileNotFoundError
      | Some prm \<Rightarrow>
          Inr (map (\<lambda>x. let exp_scores = map exp (logits ops prm x)
                       in map (\<lambda>s. s / sum_list exp_scores) exp_scores) features))"

text \<open>The sum of two tables of the same shape, cell by cell.\<close>

definition matrix_add :: "real list list \<Rightarrow> real list list \<Rightarrow> real list list" where
  "matrix_add a b = map2 (map2 (+)) a b"

text \<open>
  The loop of \<open>NNClassifier.predict\<close>. \<open>predictions\<close> starts as the number 0, here
  \<open>None\<close>: the first pass makes it the predictions of the first stored classifier, the
  later passes add theirs. The stored networks are taken to have the same number of
  outputs; NumPy raises or broadcasts otherwise.
\<close>

fun nn_predict_loop ::
  "('p, 'o, 'g, 'b, 'f, 'c, 'w) nn_ops \<Rightarrow> (string \<times> int \<rightharpoonup> 'p) \<Rightarrow>
   ((string \<times> int) \<times> model_kind) list \<Rightarrow> 'f list \<Rightarrow> real list list option \<Rightarrow>
   py_error + real list list option" where
  "nn_predict_loop ops files [] features predictions = Inr predictions"
| "nn_predict_loop ops files (c # rest) features predictions =
     (case nn_fold_predictions ops files c features of
        Inl e \<Rightarrow> Inl e
      | Inr fold_predictions \<Rightarrow>
          nn_predict_loop ops files rest features
            (Some (case predictions of
                     None \<Rightarrow> fold_predictions
                   | Some p \<Rightarrow> matrix_add p fold_predictions)))"

text \<open>
  \<open>NNClassifier.predict\<close>: the sum of the predictions of all stored classifiers,
  divided by their number; without a stored classifier this is the division \<open>0 / 0\<close>
  of Python integers, which raises. The result is the rows of the table; the
  construction of the \<open>DataFrame\<close> from them is left out.
\<close>

definition nn_predict ::
  "('p, 'o, 'g, 'b, 'f, 'c, 'w) nn_ops \<Rightarrow> (string \<times> int \<rightharpoonup> 'p) \<Rightarrow>
   ((string \<times> int) \<times> model_kind) list \<Rightarrow> 'f list \<Rightarrow> py_error + real list list" where
  "nn_predict ops files stored features =
     (case nn_predict_loop ops files stored features None of
        Inl e \<Rightarrow> Inl e
      | Inr None \<Rightarrow> Inl ZeroDivisionError
      | Inr (Some predictions) \<Rightarrow>
          Inr (map (map (\<lambda>p. p / real (length stored))) predictions))"

text \<open>
  The state in which the training loop of \<open>fit_nn_classifier\<close> starts, for a network
  of kind \<open>k\<close>.
\<close>

definition fit_start ::
  "('p, 'o, 'g, 'b, 'f, 'c, 'w) nn_ops \<Rightarrow> fit_params \<Rightarrow> model_kind \<Rightarrow>
   'f list \<times> 'c list \<times> 'w list \<Rightarrow> ('p, 'g) nn_env \<Rightarrow> ('p, 'o, 'g) fit_state" where
  "fit_start ops fp k train_data env =
     \<lparr>fs_params = new_params ops k (fst train_data) (fst (snd train_data)),
      fs_optimizer =
        new_optimizer ops (new_params ops k (fst train_data) (fst (snd train_data))) (lr fp),
      fs_best_loss = PInf,
      fs_env = (if logger fp = Some ''wandb''
                then env\<lparr>events := events env @ [WandbInit]\<rparr> else env)\<rparr>"

text \<open>
  What the last iteration of the training loop leaves, seen from the state \<open>st\<close> that
  the earlier iterations left: the parameters after its gradient step, and the
  checkpoint files, in which the file at \<open>path\<close> takes these parameters only when their
  validation loss is below the best loss of \<open>st\<close>. It is \<open>None\<close> when the evaluation
  raises.
\<close>

definition last_iteration_outcome ::
  "('p, 'o, 'g, 'b, 'f, 'c, 'w) nn_ops \<Rightarrow> fit_params \<Rightarrow>
   'f list \<times> 'c list \<times> 'w list \<Rightarrow> 'f list \<times> 'c list \<times> 'w list \<Rightarrow> string \<times> int \<Rightarrow>
   ('p, 'o, 'g) fit_state \<Rightarrow> ('p \<times> (string \<times> int \<rightharpoonup> 'p)) option" where
  "last_iteration_outcome ops fp train_data val_data path st =
     (let (b, g1) = sample_batch ops train_data (batch_size fp) (rng (fs_env st));
          (prm1, opt1) = gradient_step ops (fs_params st) (fs_optimizer st) b
      in case estimate_loss ops fp prm1 train_data val_data g1 of
           Inl e \<Rightarrow> None
         | Inr ((train_loss, train_accuracy, val_loss, val_accuracy), g2, ev) \<Rightarrow>
             Some (prm1,
                   if fl_less val_loss (fs_best_loss st)
                   then (disk (fs_env st))(path \<mapsto> prm1) else disk (fs_env st)))"

text \<open>
  The mean over the parameters \<open>ps\<close> of the softmax of the logits, for the row \<open>x\<close> and
  the output \<open>j\<close>: what the specification calls the average of the per-fold
  probabilities.
\<close>

definition mean_probability ::
  "('p, 'o, 'g, 'b, 'f, 'c, 'w) nn_ops \<Rightarrow> 'p list \<Rightarrow> 'f \<Rightarrow> nat \<Rightarrow> real" where
  "mean_probability ops ps x j =
     sum_list (map (\<lambda>p. softmax (logits ops p x) ! j) ps) / real (length ps)"

text \<open>
  A small instance for the neural network: the parameters are a number that every
  gradient step raises by one, the loss of a batch is that number, and the logits of a
  row are the number and 0. The network is an MLP trained for two iterations and
  evaluated after each of them on one batch.
\<close>

definition example_ops :: "(nat, unit, unit, unit, nat, int, unit) nn_ops" where
  "example_ops =
     \<lparr>new_params = (\<lambda>k fs cs. 0),
      new_optimizer = (\<lambda>p r. ()),
      sample_batch = (\<lambda>d bs g. ((), g)),
      gradient_step = (\<lambda>p opt b. (Suc p, ())),
      batch_loss = (\<lambda>p b. real p),
      batch_correct = (\<lambda>p b. 0),
      logits = (\<lambda>p x. [real p, 0])\<rparr>"

definition example_fit_params :: "int \<Rightarrow> fit_params" where
  "example_fit_params n =
     \<lparr>logger = None, max_iters = n, eval_iters = 1, eval_interval = 1, lr = 1 / 10 ^ 4,
      model_type = ''mlp'', batch_size = 1\<rparr>"

definition example_env :: "(nat, unit) nn_env" where
  "example_env = \<lparr>rng = (), disk = Map.empty, events = []\<rparr>"

text \<open>The calls that one fit of the instance makes.\<close>

definition example_events :: "nn_event list" where
  "example_events =
     [SampleBatch TrainSplit, GradientStep, SampleBatch TrainSplit, SampleBatch ValSplit,
      Checkpoint,
      SampleBatch TrainSplit, GradientStep, SampleBatch TrainSplit, SampleBatch ValSplit]"

section \<open>Redshift weights: \<open>evaluate_weights_redshift\<close>\<close>

text \<open>
  Indexing an axis of length \<open>n\<close> with a Python integer: a negative index counts from
  the end, an index outside \<open>-n .. n - 1\<close> raises.
\<close>

definition py_index :: "nat \<Rightarrow> int \<Rightarrow> py_error + nat" where
  "py_index n i =
     (if 0 \<le> i \<and> i < int n then Inr (nat i)
      else if - int n \<le> i \<and> i < 0 then Inr (nat (i + int n))
      else Inl IndexError)"

text \<open>The literal \<open>1e-4\<close>.\<close>

definition lit_1e_4 :: real where
  "lit_1e_4 = 1 / 10 ^ 4"

text \<open>
  The groups: with a group key the distinct groups and the position of every object's
  group among them; without one the single group \<open>"default"\<close> and zeros.
\<close>

definition num_groups :: "'g::linorder list option \<Rightarrow> nat" where
  "num_groups groups = (case groups of Some gs \<Rightarrow> length (np_unique gs) | None \<Rightarrow> 1)"

definition group_indices_of :: "nat \<Rightarrow> 'g::linorder list option \<Rightarrow> nat list" where
  "group_indices_of n groups =
     (case groups of
        Some gs \<Rightarrow> map (label_index (np_unique gs)) gs
      | None \<Rightarrow> replicate n 0)"

text \<open>
  The loop that counts the objects of every cell. The array \<open>counts\<close> is a function of
  the group, bin and class positions; \<open>nb\<close> is the length of its bin axis. Group and
  class positions come from the data and are in range.
\<close>

fun count_loop ::
  "nat \<Rightarrow> (nat \<times> int \<times> nat) list \<Rightarrow> (nat \<Rightarrow> nat \<Rightarrow> nat \<Rightarrow> nat) \<Rightarrow>
   py_error + (nat \<Rightarrow> nat \<Rightarrow> nat \<Rightarrow> nat)" where
  "count_loop nb [] counts = Inr counts"
| "count_loop nb ((group_index, r_index, class_index) # rest) counts =
     (case py_index nb r_index of
        Inl e \<Rightarrow> Inl e
      | Inr b \<Rightarrow>
          count_loop nb rest
            (counts(group_index := (counts group_index)
               (b := (counts group_index b)
                  (class_index := counts group_index b class_index + 1)))))"

text \<open>The sums over the array of shape \<open>(G, B, C)\<close>.\<close>

definition total_counts :: "(nat \<Rightarrow> nat \<Rightarrow> nat \<Rightarrow> nat) \<Rightarrow> nat \<Rightarrow> nat \<Rightarrow> nat \<Rightarrow> nat" where
  "total_counts counts G B C = (\<Sum>g<G. \<Sum>b<B. \<Sum>c<C. counts g b c)"

definition num_extgal_bins :: "(nat \<Rightarrow> nat \<Rightarrow> nat \<Rightarrow> nat) \<Rightarrow> nat \<Rightarrow> nat \<Rightarrow> nat \<Rightarrow> nat" where
  "num_extgal_bins counts G B C =
     (\<Sum>g<G. \<Sum>b\<in>{1..<B}. \<Sum>c<C.
        if lit_1e_4 * real (total_counts counts G B C) < real (counts g b c) then 1 else 0)"

definition class_extgal_counts :: "(nat \<Rightarrow> nat \<Rightarrow> nat \<Rightarrow> nat) \<Rightarrow> nat \<Rightarrow> nat \<Rightarrow> nat \<Rightarrow> nat" where
  "class_extgal_counts counts G B c = (\<Sum>g<G. \<Sum>b\<in>{1..<B}. counts g b c)"

definition class_gal_counts :: "(nat \<Rightarrow> nat \<Rightarrow> nat \<Rightarrow> nat) \<Rightarrow> nat \<Rightarrow> nat \<Rightarrow> nat" where
  "class_gal_counts counts G c = (\<Sum>g<G. counts g 0 c)"

definition extgal_mask :: "(nat \<Rightarrow> nat \<Rightarrow> nat \<Rightarrow> nat) \<Rightarrow> nat \<Rightarrow> nat \<Rightarrow> nat \<Rightarrow> bool" where
  "extgal_mask counts G B c = (class_gal_counts counts G c < class_extgal_counts counts G B c)"

definition num_extgal_classes :: "(nat \<Rightarrow> nat \<Rightarrow> nat \<Rightarrow> nat) \<Rightarrow> nat \<Rightarrow> nat \<Rightarrow> nat \<Rightarrow> nat" where
  "num_extgal_classes counts G B C = (\<Sum>c<C. if extgal_mask counts G B c then 1 else 0)"

text \<open>\<open>num_extgal_bins / num_extgal_classes\<close>, a division of NumPy integers.\<close>

definition extgal_scale :: "(nat \<Rightarrow> nat \<Rightarrow> nat \<Rightarrow> nat) \<Rightarrow> nat \<Rightarrow> nat \<Rightarrow> nat \<Rightarrow> fl" where
  "extgal_scale counts G B C =
     fdiv (Fin (real (num_extgal_bins counts G B C)))
          (Fin (real (num_extgal_classes counts G B C)))"

text \<open>
  The loop that multiplies the weights of every class by its entry of \<open>class_weights\<close>,
  over \<open>enumerate(class_names)\<close>.
\<close>

fun class_weight_loop ::
  "('c \<rightharpoonup> real) \<Rightarrow> (nat \<times> 'c) list \<Rightarrow> (nat \<Rightarrow> nat \<Rightarrow> nat \<Rightarrow> fl) \<Rightarrow>
   py_error + (nat \<Rightarrow> nat \<Rightarrow> nat \<Rightarrow> fl)" where
  "class_weight_loop class_weights [] weights = Inr weights"
| "class_weight_loop class_weights ((class_idx, class_name) # rest) weights =
     (case class_weights class_name of
        None \<Rightarrow> Inl KeyError
      | Some w \<Rightarrow>
          class_weight_loop class_weights rest
            (\<lambda>g b c. if c = class_idx then fmul (weights g b c) (Fin w) else weights g b c))"

text \<open>\<open>weights[group_indices, redshift_indices, class_indices]\<close>.\<close>

fun gather_weights ::
  "nat \<Rightarrow> (nat \<Rightarrow> nat \<Rightarrow> nat \<Rightarrow> fl) \<Rightarrow> (nat \<times> int \<times> nat) list \<Rightarrow> py_error + fl list" where
  "gather_weights nb weights [] = Inr []"
| "gather_weights nb weights ((group_index, r_index, class_index) # rest) =
     (case py_index nb r_index of
        Inl e \<Rightarrow> Inl e
      | Inr b \<Rightarrow>
          (case gather_weights nb weights rest of
             Inl e \<Rightarrow> Inl e
           | Inr ws \<Rightarrow> Inr (weights group_index b class_index # ws)))"

text \<open>The cells of the objects: \<open>zip(group_indices, redshift_indices, class_indices)\<close>.\<close>

definition redshift_cells ::
  "real list \<Rightarrow> 'c::linorder list \<Rightarrow> 'g::linorder list option \<Rightarrow> real \<Rightarrow> real \<Rightarrow> nat \<Rightarrow>
   (nat \<times> int \<times> nat) list" where
  "redshift_cells redshifts object_classes groups min_redshift max_redshift num_bins =
     (let bins = redshift_bins min_redshift max_redshift num_bins;
          redshift_indices = map (redshift_index bins) redshifts;
          class_names = np_unique object_classes;
          class_indices = map (label_index class_names) object_classes;
          group_indices = group_indices_of (length object_classes) groups
      in zip group_indices (zip redshift_indices class_indices))"

text \<open>The array \<open>counts\<close> after the counting loop.\<close>

definition redshift_counts ::
  "real list \<Rightarrow> 'c::linorder list \<Rightarrow> 'g::linorder list option \<Rightarrow> real \<Rightarrow> real \<Rightarrow> nat \<Rightarrow>
   py_error + (nat \<Rightarrow> nat \<Rightarrow> nat \<Rightarrow> nat)" where
  "redshift_counts redshifts object_classes groups min_redshift max_redshift num_bins =
     count_loop (length (redshift_bins min_redshift max_redshift num_bins) - 1)
       (redshift_cells redshifts object_classes groups min_redshift max_redshift num_bins)
       (\<lambda>g b c. 0)"

text \<open>The value of the variable \<open>extgal_scale\<close>.\<close>

definition redshift_extgal_scale ::
  "real list \<Rightarrow> 'c::linorder list \<Rightarrow> 'g::linorder list option \<Rightarrow> real \<Rightarrow> real \<Rightarrow> nat \<Rightarrow>
   py_error + fl" where
  "redshift_extgal_scale redshifts object_classes groups min_redshift max_redshift num_bins =
     (case redshift_counts redshifts object_classes groups min_redshift max_redshift num_bins of
        Inl e \<Rightarrow> Inl e
      | Inr counts \<Rightarrow>
          Inr (extgal_scale counts (num_groups groups)
                 (length (redshift_bins min_redshift max_redshift num_bins) - 1)
                 (length (np_unique object_classes))))"

text \<open>
  The function: the counts, the weight \<open>total_counts / floor_counts\<close> of every cell
  with the counts floored at \<open>min_bin_count\<close>, the division of the weights of the
  extragalactic classes by the scale, the class weights, and the weight of every
  object's cell. The metadata columns are lists with one entry per object.
\<close>

definition evaluate_weights_redshift ::
  "real list \<Rightarrow> 'c::linorder list \<Rightarrow> 'g::linorder list option \<Rightarrow> ('c \<rightharpoonup> real) option \<Rightarrow>
   real \<Rightarrow> real \<Rightarrow> nat \<Rightarrow> real \<Rightarrow> py_error + fl list" where
  "evaluate_weights_redshift redshifts object_classes groups class_weights
       min_redshift max_redshift num_bins min_bin_count =
     (let nb = length (redshift_bins min_redshift max_redshift num_bins) - 1;
          class_names = np_unique object_classes;
          G = num_groups groups;
          C = length class_names;
          cells = redshift_cells redshifts object_classes groups min_redshift max_redshift num_bins
      in case redshift_counts redshifts object_classes groups min_redshift max_redshift num_bins of
           Inl e \<Rightarrow> Inl e
         | Inr counts \<Rightarrow>
             let total = total_counts counts G nb C;
                 scale = extgal_scale counts G nb C;
                 weights = (\<lambda>g b c. fdiv (Fin (real total))
                                       (Fin (max (real (counts g b c)) min_bin_count)));
                 weights1 = (\<lambda>g b c. if extgal_mask counts G nb c
                                      then fdiv (weights g b c) scale else weights g b c)
             in case (case class_weights of
                        None \<Rightarrow> Inr weights1
                      | Some m \<Rightarrow> class_weight_loop m (zip [0..<C] class_names) weights1) of
                  Inl e \<Rightarrow> Inl e
                | Inr weights2 \<Rightarrow> gather_weights nb weights2 cells)"

text \<open>The bin that a valid index \<open>r\<close> addresses on an axis of length \<open>nb\<close>.\<close>

definition bin_of :: "nat \<Rightarrow> int \<Rightarrow> nat" where
  "bin_of nb r = (if 0 \<le> r then nat r else nat (r + int nb))"

text \<open>A float that is a positive real number.\<close>

definition fl_positive :: "fl \<Rightarrow> bool" where
  "fl_positive x = (case x of Fin r \<Rightarrow> 0 < r | _ \<Rightarrow> False)"

section \<open>Properties of the flat weights\<close>

lemma class_total_map:
  "class_total xs (map g xs) c = real (count_list xs c) * g c"
  unfolding class_total_def
  by (induction xs) (auto simp: algebra_simps)

lemma norm_loop_ok:
  assumes "\<forall>k \<in> fst ` set kvs. flat_class_weight cw k = Inr (w k)"
    and "distinct (map fst kvs)"
  shows "norm_class_weights_loop cw n kvs acc =
           Inr (\<lambda>k. case map_of kvs k of
                       Some cnt \<Rightarrow> Some (w k * real n / real cnt)
                     | None \<Rightarrow> acc k)"
  using assms
proof (induction kvs arbitrary: acc)
  case Nil
  then show ?case by simp
next
  case (Cons kv kvs)
  obtain k cnt where kv: "kv = (k, cnt)" by (cases kv)
  have notin: "map_of kvs k = None"
    using Cons.prems(2) kv by (simp add: map_of_eq_None_iff)
  have "norm_class_weights_loop cw n (kv # kvs) acc =
          norm_class_weights_loop cw n kvs (acc(k \<mapsto> w k * real n / real cnt))"
    using Cons.prems(1) kv by simp
  also have "\<dots> = Inr (\<lambda>k'. case map_of kvs k' of
                       Some cnt' \<Rightarrow> Some (w k' * real n / real cnt')
                     | None \<Rightarrow> (acc(k \<mapsto> w k * real n / real cnt)) k')"
    using Cons.prems by (intro Cons.IH) auto
  also have "\<dots> = Inr (\<lambda>k'. case map_of (kv # kvs) k' of
                       Some cnt' \<Rightarrow> Some (w k' * real n / real cnt')
                     | None \<Rightarrow> acc k')"
    using notin kv by (auto simp: fun_eq_iff split: option.splits)
  finally show ?case .
qed

lemma norm_loop_err:
  assumes "\<exists>k \<in> fst ` set kvs. flat_class_weight cw k = Inl KeyError"
  shows "norm_class_weights_loop cw n kvs acc = Inl KeyError"
  using assms
proof (induction kvs arbitrary: acc)
  case Nil
  then show ?case by simp
next
  case (Cons kv kvs)
  obtain k cnt where kv: "kv = (k, cnt)" by (cases kv)
  show ?case
  proof (cases "flat_class_weight cw k")
    case (Inl e)
    then have "e = KeyError"
      by (auto simp: flat_class_weight_def split: option.splits)
    with Inl kv show ?thesis by simp
  next
    case (Inr w)
    with Cons.prems kv have "\<exists>k \<in> fst ` set kvs. flat_class_weight cw k = Inl KeyError"
      by auto
    with Inr kv Cons.IH show ?thesis by simp
  qed
qed

lemma value_counts_keys: "fst ` set (value_counts xs) = set xs"
  by (auto simp: value_counts_def image_iff)

lemma value_counts_distinct: "distinct (map fst (value_counts xs))"
  by (simp add: value_counts_def comp_def)

lemma map_of_value_counts:
  "map_of (value_counts xs) c = (if c \<in> set xs then Some (count_list xs c) else None)"
  by (auto simp: value_counts_def map_of_map_restrict restrict_map_def)

lemma flat_class_weight_user:
  assumes "cw = None \<or> (\<exists>m. cw = Some m \<and> c \<in> dom m)"
  shows "flat_class_weight cw c = Inr (user_multiplier cw c)"
  using assms by (auto simp: flat_class_weight_def user_multiplier_def)

lemma evaluate_weights_flat_ok:
  assumes "cw = None \<or> (\<exists>m. cw = Some m \<and> set oc \<subseteq> dom m)"
  shows "evaluate_weights_flat oc cw =
           Inr (map (\<lambda>c. Fin (user_multiplier cw c * real (length oc) / real (count_list oc c))) oc)"
proof -
  have w: "\<forall>k \<in> fst ` set (value_counts oc). flat_class_weight cw k = Inr (user_multiplier cw k)"
    using assms by (auto simp: value_counts_keys intro!: flat_class_weight_user)
  show ?thesis
    unfolding evaluate_weights_flat_def
    by (simp add: norm_loop_ok [OF w value_counts_distinct] series_map_def map_of_value_counts)
qed

lemma evaluate_weights_flat_err:
  assumes "\<exists>c \<in> set oc. m c = None"
  shows "evaluate_weights_flat oc (Some m) = Inl KeyError"
proof -
  have "\<exists>k \<in> fst ` set (value_counts oc). flat_class_weight (Some m) k = Inl KeyError"
    using assms by (force simp: value_counts_keys flat_class_weight_def)
  then show ?thesis
    unfolding evaluate_weights_flat_def by (simp add: norm_loop_err)
qed

text \<open>
  Claim C2. Whenever no class-weight mapping is supplied, or the supplied mapping lists
  every class of the dataset, \<open>evaluate_weights_flat\<close> returns one finite weight per
  object, and the weights of the objects of any class \<open>c\<close> of the dataset add up to
  the user multiplier of \<open>c\<close> (1 without a mapping) times the number of objects,
  whatever the class sizes are.
\<close>

theorem flat_weights_class_total:
  assumes "cw = None \<or> (\<exists>m. cw = Some m \<and> set oc \<subseteq> dom m)"
    and "c \<in> set oc"
  shows "\<exists>ws. evaluate_weights_flat oc cw = Inr (map Fin ws) \<and> length ws = length oc \<and>
           class_total oc ws c = user_multiplier cw c * real (length oc)"
proof -
  let ?g = "\<lambda>c. user_multiplier cw c * real (length oc) / real (count_list oc c)"
  have pos: "count_list oc c > 0"
    using assms(2) count_list_0_iff [of oc c] by (cases "count_list oc c") auto
  have "evaluate_weights_flat oc cw = Inr (map Fin (map ?g oc))"
    using evaluate_weights_flat_ok [OF assms(1)] by (simp add: comp_def)
  moreover have "class_total oc (map ?g oc) c = user_multiplier cw c * real (length oc)"
    using pos by (simp add: class_total_map)
  ultimately show ?thesis by (intro exI [of _ "map ?g oc"]) simp
qed

theorem flat_weights_class_total_witness:
  "\<exists>ws. evaluate_weights_flat [0::nat, 0, 0, 1] (Some [0 \<mapsto> 2, 1 \<mapsto> 1]) = Inr (map Fin ws) \<and>
     length ws = 4 \<and> class_total [0::nat, 0, 0, 1] ws 0 = 8"
  using flat_weights_class_total [of "Some [0 \<mapsto> 2, 1 \<mapsto> 1]" "[0::nat, 0, 0, 1]" 0]
  by (simp add: user_multiplier_def eval_nat_numeral)

text \<open>
  Claim C8, as the code has it. With a mapping supplied, \<open>evaluate_weights_flat\<close>
  raises \<open>KeyError\<close> exactly when some class of the dataset has no entry in the
  mapping: an unlisted class gets no default multiplier. Entries for classes that the
  dataset does not contain are never looked up, so they change nothing.
\<close>

theorem flat_weights_key_error:
  "(evaluate_weights_flat oc (Some m) = Inl KeyError) = (\<exists>c \<in> set oc. m c = None) \<and>
   evaluate_weights_flat oc (Some (m |` set oc)) = evaluate_weights_flat oc (Some m)"
proof
  show "(evaluate_weights_flat oc (Some m) = Inl KeyError) = (\<exists>c \<in> set oc. m c = None)"
  proof
    assume e: "evaluate_weights_flat oc (Some m) = Inl KeyError"
    show "\<exists>c \<in> set oc. m c = None"
    proof (rule ccontr)
      assume "\<not> (\<exists>c \<in> set oc. m c = None)"
      then have "set oc \<subseteq> dom m" by auto
      then have "Some m = None \<or> (\<exists>m'. Some m = Some m' \<and> set oc \<subseteq> dom m')" by simp
      from evaluate_weights_flat_ok [OF this] e show False by simp
    qed
  next
    assume "\<exists>c \<in> set oc. m c = None"
    then show "evaluate_weights_flat oc (Some m) = Inl KeyError"
      by (rule evaluate_weights_flat_err)
  qed
next
  show "evaluate_weights_flat oc (Some (m |` set oc)) = evaluate_weights_flat oc (Some m)"
  proof (cases "\<exists>c \<in> set oc. m c = None")
    case True
    then have "\<exists>c \<in> set oc. (m |` set oc) c = None" by auto
    with True show ?thesis by (simp add: evaluate_weights_flat_err)
  next
    case False
    then have sub: "set oc \<subseteq> dom m" by auto
    then have sub': "set oc \<subseteq> dom (m |` set oc)" by auto
    have a: "Some m = None \<or> (\<exists>m'. Some m = Some m' \<and> set oc \<subseteq> dom m')"
      using sub by simp
    have b: "Some (m |` set oc) = None \<or>
             (\<exists>m'. Some (m |` set oc) = Some m' \<and> set oc \<subseteq> dom m')"
      using sub' by simp
    have "\<And>c. c \<in> set oc \<Longrightarrow>
            user_multiplier (Some (m |` set oc)) c = user_multiplier (Some m) c"
      by (simp add: user_multiplier_def)
    then show ?thesis
      by (simp add: evaluate_weights_flat_ok [OF a] evaluate_weights_flat_ok [OF b])
  qed
qed

text \<open>
  The claim as written fails twice: a mapping that names a class the dataset does not
  contain raises nothing, and a class of the dataset that the mapping does not list
  raises \<open>KeyError\<close> instead of getting the multiplier 1.
\<close>

theorem flat_weights_key_error_counterexample:
  "evaluate_weights_flat [0::nat] (Some [0 \<mapsto> 1, 1 \<mapsto> 2]) = Inr [Fin 1] \<and>
   evaluate_weights_flat [0::nat, 1] (Some [0 \<mapsto> 2]) = Inl KeyError"
  by (simp add: evaluate_weights_flat_def value_counts_def flat_class_weight_def series_map_def)

section \<open>Properties of the redshift bins\<close>

lemma searchsorted_nth:
  "sorted_wrt (<) xs \<Longrightarrow> k < length xs \<Longrightarrow> np_searchsorted xs (xs ! k) = k"
proof (induction xs arbitrary: k)
  case Nil
  then show ?case by simp
next
  case (Cons a as)
  show ?case
  proof (cases k)
    case 0
    then show ?thesis by simp
  next
    case (Suc j)
    have "as ! j \<in> set as" using Cons.prems(2) Suc by (intro nth_mem) simp
    then have lt: "a < as ! j" using Cons.prems(1) by auto
    have "np_searchsorted as (as ! j) = j"
      using Cons.prems Suc by (intro Cons.IH) auto
    with lt Suc show ?thesis by simp
  qed
qed

lemma searchsorted_between:
  "sorted_wrt (<) xs \<Longrightarrow> Suc j < length xs \<Longrightarrow> xs ! j < v \<Longrightarrow> v \<le> xs ! Suc j
     \<Longrightarrow> np_searchsorted xs v = Suc j"
proof (induction xs arbitrary: j)
  case Nil
  then show ?case by simp
next
  case (Cons a as)
  show ?case
  proof (cases j)
    case 0
    with Cons.prems show ?thesis by (cases as) auto
  next
    case (Suc i)
    have "as ! i \<in> set as" using Cons.prems(2) Suc by (intro nth_mem) simp
    then have "a < as ! i" using Cons.prems(1) by auto
    with Cons.prems(3) Suc have "\<not> v \<le> a" by simp
    moreover have "np_searchsorted as v = Suc i"
      using Cons.prems Suc by (intro Cons.IH) auto
    ultimately show ?thesis using Suc by simp
  qed
qed

lemma length_redshift_bins: "length (redshift_bins lo hi n) = n + 2"
  by (simp add: redshift_bins_def np_logspace_def np_linspace_def Let_def)

lemma lit_pos: "0 < lit_1e_99" "0 < lit_1e99" "lit_1e_99 < lit_1e99"
proof -
  show "0 < lit_1e_99" by (simp add: lit_1e_99_def)
  show "0 < lit_1e99" by (simp add: lit_1e99_def)
  have "lit_1e_99 \<le> 1" by (simp add: lit_1e_99_def)
  moreover have "1 < lit_1e99" by (simp add: lit_1e99_def)
  ultimately show "lit_1e_99 < lit_1e99" by simp
qed

lemma redshift_bins_nth:
  assumes "k \<le> n + 1"
  shows "redshift_bins lo hi n ! k =
           (if k = 0 then - lit_1e99
            else if k = n + 1 then lit_1e99
            else if k = 1 then lit_1e_99
            else log_edge lo hi n (real (k - 1)))"
  using assms
  by (cases k)
    (auto simp: redshift_bins_def np_logspace_def np_linspace_def Let_def nth_list_update
      nth_append log_edge_def)

lemma log_edge_mono:
  assumes "0 < lo" "lo < hi" "0 < n" "p < q"
  shows "log_edge lo hi n p < log_edge lo hi n q"
proof -
  have "log 10 lo < log 10 hi" using assms by simp
  then have "0 < (log 10 hi - log 10 lo) / real n" using assms by simp
  with assms(4)
  have "p * ((log 10 hi - log 10 lo) / real n) < q * ((log 10 hi - log 10 lo) / real n)"
    by (rule mult_strict_right_mono)
  then show ?thesis unfolding log_edge_def by simp
qed

lemma log_edge_0: "0 < lo \<Longrightarrow> log_edge lo hi n 0 = lo"
  by (simp add: log_edge_def)

lemma log_edge_n: "0 < lo \<Longrightarrow> 0 < hi \<Longrightarrow> 0 < n \<Longrightarrow> log_edge lo hi n (real n) = hi"
  by (simp add: log_edge_def)

lemma redshift_bins_sorted:
  assumes lo: "lit_1e_99 \<le> lo" and lt: "lo < hi" and hi: "hi \<le> lit_1e99" and n: "1 \<le> n"
  shows "sorted_wrt (<) (redshift_bins lo hi n)"
proof -
  let ?xs = "redshift_bins lo hi n"
  have lo0: "0 < lo" using lo lit_pos(1) by simp
  have hi0: "0 < hi" using lo0 lt by simp
  have n0: "0 < n" using n by simp
  have inner: "lo < log_edge lo hi n (real m) \<and> log_edge lo hi n (real m) < hi"
    if "0 < m" "m < n" for m
  proof -
    have "log_edge lo hi n 0 < log_edge lo hi n (real m)"
      using that by (intro log_edge_mono lo0 lt n0) simp
    moreover have "log_edge lo hi n (real m) < log_edge lo hi n (real n)"
      using that by (intro log_edge_mono lo0 lt n0) simp
    ultimately show ?thesis by (simp add: log_edge_0 log_edge_n lo0 hi0 n0)
  qed
  have x0: "?xs ! 0 = - lit_1e99" by (simp add: redshift_bins_nth)
  have x1: "?xs ! 1 = lit_1e_99" using n0 by (simp add: redshift_bins_nth)
  have xn: "?xs ! (n + 1) = lit_1e99" by (simp add: redshift_bins_nth)
  have xm: "?xs ! m = log_edge lo hi n (real (m - 1))" if "2 \<le> m" "m \<le> n" for m
    using that by (simp add: redshift_bins_nth)
  have above: "lit_1e_99 < ?xs ! m" if "2 \<le> m" "m \<le> n + 1" for m
  proof (cases "m = n + 1")
    case True
    then show ?thesis using xn lit_pos(3) by simp
  next
    case False
    then have m: "m \<le> n" using that by simp
    have "lo < log_edge lo hi n (real (m - 1))"
      using inner [of "m - 1"] that m by simp
    then show ?thesis using xm [OF that(1) m] lo by simp
  qed
  have "?xs ! i < ?xs ! j" if ij: "i < j" and j: "j < n + 2" for i j
  proof -
    consider "i = 0" "j = 1" | "i = 0" "2 \<le> j" | "i = 1" | "2 \<le> i" using ij by linarith
    then show ?thesis
    proof cases
      case 1
      then show ?thesis using x0 x1 lit_pos by simp
    next
      case 2
      have "lit_1e_99 < ?xs ! j" using 2 j by (intro above) simp_all
      then show ?thesis using 2 x0 lit_pos by simp
    next
      case 3
      have "lit_1e_99 < ?xs ! j" using 3 ij j by (intro above) simp_all
      then show ?thesis using 3 x1 by simp
    next
      case 4
      then have i: "i \<le> n" using ij j by simp
      have ib: "0 < i - 1" "i - 1 < n" using 4 i by simp_all
      have xi: "?xs ! i = log_edge lo hi n (real (i - 1))" using 4 i by (rule xm)
      show ?thesis
      proof (cases "j = n + 1")
        case True
        have "log_edge lo hi n (real (i - 1)) < lit_1e99"
          using inner [OF ib] hi by simp
        then show ?thesis using xi xn True by simp
      next
        case False
        then have j': "2 \<le> j" "j \<le> n" using 4 ij j by simp_all
        have "log_edge lo hi n (real (i - 1)) < log_edge lo hi n (real (j - 1))"
          using 4 ij by (intro log_edge_mono lo0 lt n0) simp
        then show ?thesis using xi xm [OF j'] by simp
      qed
    qed
  qed
  then show ?thesis
    by (simp add: sorted_wrt_iff_nth_less length_redshift_bins)
qed

text \<open>
  Claim C6, as the code has it. With bounds that keep the edges increasing, a redshift
  that equals the inner edge \<open>k\<close> gets the index \<open>k - 1\<close>: the bin for which that edge
  is the upper one. The bins are closed on the right: every redshift above edge
  \<open>k - 1\<close> and up to edge \<open>k\<close> gets the index \<open>k - 1\<close>.
\<close>

theorem redshift_boundary_bin:
  assumes "lit_1e_99 \<le> min_redshift" and "min_redshift < max_redshift"
    and "max_redshift \<le> lit_1e99" and "1 \<le> k" and "k \<le> num_bins"
  shows "redshift_index (redshift_bins min_redshift max_redshift num_bins)
           (redshift_bins min_redshift max_redshift num_bins ! k) = int k - 1 \<and>
         (\<forall>z. redshift_bins min_redshift max_redshift num_bins ! (k - 1) < z \<and>
               z \<le> redshift_bins min_redshift max_redshift num_bins ! k \<longrightarrow>
               redshift_index (redshift_bins min_redshift max_redshift num_bins) z = int k - 1)"
proof -
  let ?bins = "redshift_bins min_redshift max_redshift num_bins"
  have s: "sorted_wrt (<) ?bins"
    using assms by (intro redshift_bins_sorted) simp_all
  have len: "k < length ?bins"
    using assms by (simp add: length_redshift_bins)
  have "np_searchsorted ?bins (?bins ! k) = k"
    using s len by (rule searchsorted_nth)
  then have first: "redshift_index ?bins (?bins ! k) = int k - 1"
    by (simp add: redshift_index_def)
  have "redshift_index ?bins z = int k - 1" if "?bins ! (k - 1) < z" "z \<le> ?bins ! k" for z
  proof -
    have "np_searchsorted ?bins z = Suc (k - 1)"
      using s len that assms(4) by (intro searchsorted_between) simp_all
    then show ?thesis using assms(4) by (simp add: redshift_index_def)
  qed
  with first show ?thesis by blast
qed

lemma redshift_bins_example: "redshift_bins 1 100 2 = [- lit_1e99, lit_1e_99, 10, lit_1e99]"
proof -
  have "log 10 100 = log 10 (10 ^ 2)" by simp
  also have "\<dots> = 2" by (subst log_pow_cancel) simp_all
  finally have l: "log 10 (100::real) = 2" .
  have u: "[0..<3] = [0, 1, 2]" by (simp add: upt_rec)
  show ?thesis
    by (simp add: redshift_bins_def np_logspace_def np_linspace_def Let_def l u)
qed

text \<open>
  The claim as written fails: with bounds 1 and 100 and two bins, edge 2 is 10; the
  bin with lower edge 10 is bin 2, and the redshift 10 gets the index 1.
\<close>

theorem redshift_boundary_bin_counterexample:
  "redshift_bins 1 100 2 ! 2 = 10 \<and> redshift_index (redshift_bins 1 100 2) 10 = 1"
  by (simp add: redshift_bins_example redshift_index_def lit_1e_99_def lit_1e99_def)

theorem redshift_boundary_bin_witness:
  "redshift_index (redshift_bins 1 100 2) (redshift_bins 1 100 2 ! 2) = 1 \<and>
   redshift_index (redshift_bins 1 100 2) 5 = 1"
proof -
  have "lit_1e_99 \<le> 1" "(1::real) < 100" "100 \<le> lit_1e99"
    by (simp_all add: lit_1e_99_def lit_1e99_def)
  from redshift_boundary_bin [OF this, of 2 2]
  have a: "redshift_index (redshift_bins 1 100 2) (redshift_bins 1 100 2 ! 2) = 1"
    and b: "redshift_bins 1 100 2 ! 1 < 5 \<and> 5 \<le> redshift_bins 1 100 2 ! 2 \<longrightarrow>
            redshift_index (redshift_bins 1 100 2) 5 = 1"
    by simp_all
  have "redshift_bins 1 100 2 ! 1 < 5 \<and> 5 \<le> redshift_bins 1 100 2 ! 2"
    by (simp add: redshift_bins_example lit_1e_99_def)
  with a b show ?thesis by simp
qed

section \<open>Properties of the metric\<close>

lemma mask_select_simps [simp]:
  "mask_select [] xs = []"
  "mask_select ms [] = []"
  "mask_select (m # ms) (x # xs) = (if m then x # mask_select ms xs else mask_select ms xs)"
  by (simp_all add: mask_select_def)

lemma mask_select_replicate:
  "mask_select ms (replicate (length ms) v) = replicate (length (filter id ms)) v"
  by (induction ms) simp_all

lemma mask_select_map: "mask_select ms (map f xs) = map f (mask_select ms xs)"
proof (induction ms arbitrary: xs)
  case Nil
  then show ?case by simp
next
  case (Cons m ms)
  then show ?case by (cases xs) simp_all
qed

lemma length_mask_assign: "length (mask_assign ms xs vs) = length xs"
proof (induction ms xs vs rule: mask_assign.induct)
  case (1 m ms x xs vs)
  then show ?case by (cases vs) simp_all
qed simp_all

lemma mask_assign_map2:
  assumes "length ms = length xs" "length ws = length xs" "length ps = length xs"
  shows "mask_assign ms xs (map2 f (mask_select ms ws) (mask_select ms ps)) =
           map (\<lambda>(m, w, p, x). if m then f w p else x) (zip ms (zip ws (zip ps xs)))"
  using assms
proof (induction ms arbitrary: xs ws ps)
  case Nil
  then show ?case by simp
next
  case (Cons m ms)
  from Cons.prems obtain x xs' where xs: "xs = x # xs'" by (cases xs) auto
  from Cons.prems xs obtain w ws' where ws: "ws = w # ws'" by (cases ws) auto
  from Cons.prems xs obtain p ps' where ps: "ps = p # ps'" by (cases ps) auto
  have "mask_assign ms xs' (map2 f (mask_select ms ws') (mask_select ms ps')) =
          map (\<lambda>(m, w, p, x). if m then f w p else x) (zip ms (zip ws' (zip ps' xs')))"
    using Cons.prems xs ws ps by (intro Cons.IH) simp_all
  then show ?case by (simp add: xs ws ps)
qed

lemma mask_fill_zip:
  assumes "length ms = length xs" "length ws = length xs" "length ps = length xs"
  shows "mask_fill ms xs v =
           map (\<lambda>(m, w, p, x). if m then v else x) (zip ms (zip ws (zip ps xs)))"
  using assms
  by (intro nth_equalityI) (simp_all add: mask_fill_def)

lemma class_object_weights_eq:
  assumes "length ws = length tc" "ws = effective_weights (length tc) ow"
  shows "(case ow of Some ws' \<Rightarrow> mask_select (map (\<lambda>c. c = k) tc) ws'
          | None \<Rightarrow> replicate (length (filter id (map (\<lambda>c. c = k) tc))) 1) =
         mask_select (map (\<lambda>c. c = k) tc) ws"
proof (cases ow)
  case None
  have "mask_select (map (\<lambda>c. c = k) tc) (replicate (length (map (\<lambda>c. c = k) tc)) (1::real)) =
          replicate (length (filter id (map (\<lambda>c. c = k) tc))) 1"
    by (rule mask_select_replicate)
  with None assms show ?thesis by (simp add: effective_weights_def)
next
  case (Some a)
  with assms show ?thesis by (simp add: effective_weights_def)
qed

lemma logloss_step_ok:
  assumes lw: "length ws = length tc" and lr: "length (row_values df) = length tc"
    and lo: "length ol = length tc"
    and ws: "ws = effective_weights (length tc) ow"
    and col: "logloss_class_weight cw k \<noteq> 0 \<longrightarrow> k \<in> set (columns df)"
  shows "logloss_step tc df ow cw k (ol, s) =
           Inr (map (\<lambda>(c, w, r, x).
                  if c = k
                  then object_contribution (logloss_class_weight cw) (class_weight_sum tc ws) df (c, w, r)
                  else x)
                 (zip tc (zip ws (zip (row_values df) ol))),
                s + logloss_class_weight cw k)"
proof (cases "logloss_class_weight cw k = 0")
  case True
  have "mask_fill (map (\<lambda>c. c = k) tc) ol (Fin 0) =
          map (\<lambda>(m, w, p, x). if m then Fin 0 else x)
            (zip (map (\<lambda>c. c = k) tc) (zip ws (zip (row_values df) ol)))"
    using lw lr lo by (intro mask_fill_zip) simp_all
  also have "\<dots> = map (\<lambda>(c, w, r, x).
                  if c = k
                  then object_contribution (logloss_class_weight cw) (class_weight_sum tc ws) df (c, w, r)
                  else x)
                 (zip tc (zip ws (zip (row_values df) ol)))"
    using True by (simp add: zip_map1 object_contribution_def case_prod_unfold)
  finally show ?thesis
    using True by (simp add: logloss_step_def Let_def)
next
  case False
  let ?m = "map (\<lambda>c. c = k) tc"
  let ?j = "label_index (columns df) k"
  let ?ps = "map (\<lambda>r. clamp_zero (r ! ?j)) (row_values df)"
  let ?f = "\<lambda>w p. fdiv (fmul (Fin (- logloss_class_weight cw k * w)) (np_log p))
                    (Fin (sum_list (mask_select ?m ws)))"
  have cow: "(case ow of Some ws' \<Rightarrow> mask_select ?m ws'
          | None \<Rightarrow> replicate (length (filter id ?m)) 1) = mask_select ?m ws"
    using lw ws by (rule class_object_weights_eq)
  have cp: "map (\<lambda>p. if p = 0 then lit_1e_10 else p) (mask_select ?m (frame_column df k)) =
            mask_select ?m ?ps"
    by (simp add: frame_column_def mask_select_map [symmetric] clamp_zero_def comp_def)
  have "mask_assign ?m ol (map2 ?f (mask_select ?m ws) (mask_select ?m ?ps)) =
          map (\<lambda>(m, w, p, x). if m then ?f w p else x) (zip ?m (zip ws (zip ?ps ol)))"
    using lw lr lo by (intro mask_assign_map2) simp_all
  also have "\<dots> = map (\<lambda>(c, w, r, x).
                  if c = k
                  then object_contribution (logloss_class_weight cw) (class_weight_sum tc ws) df (c, w, r)
                  else x)
                 (zip tc (zip ws (zip (row_values df) ol)))"
    using False lw lr lo
    by (intro nth_equalityI)
      (simp_all add: object_contribution_def class_weight_sum_def)
  finally have "mask_assign ?m ol (map2 ?f (mask_select ?m ws) (mask_select ?m ?ps)) =
      map (\<lambda>(c, w, r, x).
                  if c = k
                  then object_contribution (logloss_class_weight cw) (class_weight_sum tc ws) df (c, w, r)
                  else x)
                 (zip tc (zip ws (zip (row_values df) ol)))" .
  then show ?thesis
    using False col by (simp add: logloss_step_def Let_def cow cp)
qed

lemma logloss_loop_ok:
  assumes lw: "length ws = length tc" and lr: "length (row_values df) = length tc"
    and lo: "length ol = length tc"
    and ws: "ws = effective_weights (length tc) ow"
    and col: "\<forall>k \<in> set cs. logloss_class_weight cw k \<noteq> 0 \<longrightarrow> k \<in> set (columns df)"
  shows "logloss_loop tc df ow cw cs (ol, s) =
           Inr (map (\<lambda>(c, w, r, x).
                  if c \<in> set cs
                  then object_contribution (logloss_class_weight cw) (class_weight_sum tc ws) df (c, w, r)
                  else x)
                 (zip tc (zip ws (zip (row_values df) ol))),
                s + sum_list (map (logloss_class_weight cw) cs))"
  using lo col
proof (induction cs arbitrary: ol s)
  case Nil
  have "map (\<lambda>(c, w, r, x). x) (zip tc (zip ws (zip (row_values df) ol))) = ol"
    using lw lr Nil.prems(1) by (intro nth_equalityI) simp_all
  then show ?case by simp
next
  case (Cons k cs)
  let ?C = "object_contribution (logloss_class_weight cw) (class_weight_sum tc ws) df"
  let ?ol1 = "map (\<lambda>(c, w, r, x). if c = k then ?C (c, w, r) else x)
                 (zip tc (zip ws (zip (row_values df) ol)))"
  have step: "logloss_step tc df ow cw k (ol, s) = Inr (?ol1, s + logloss_class_weight cw k)"
    using lw lr Cons.prems(1) ws Cons.prems(2) by (intro logloss_step_ok) simp_all
  have len1: "length ?ol1 = length tc"
    using lw lr Cons.prems(1) by simp
  have rest: "logloss_loop tc df ow cw cs (?ol1, s + logloss_class_weight cw k) =
           Inr (map (\<lambda>(c, w, r, x). if c \<in> set cs then ?C (c, w, r) else x)
                 (zip tc (zip ws (zip (row_values df) ?ol1))),
                s + logloss_class_weight cw k + sum_list (map (logloss_class_weight cw) cs))"
    using len1 Cons.prems(2) by (intro Cons.IH) simp_all
  have "map (\<lambda>(c, w, r, x). if c \<in> set cs then ?C (c, w, r) else x)
                 (zip tc (zip ws (zip (row_values df) ?ol1))) =
        map (\<lambda>(c, w, r, x). if c \<in> set (k # cs) then ?C (c, w, r) else x)
                 (zip tc (zip ws (zip (row_values df) ol)))"
    using lw lr Cons.prems(1) by (intro nth_equalityI) auto
  with step rest show ?case by (simp add: add.assoc)
qed

lemma logloss_step_cases:
  "logloss_step tc df ow cw k st = Inl AvocadoException \<and>
     logloss_class_weight cw k \<noteq> 0 \<and> k \<notin> set (columns df) \<or>
   (\<exists>st'. logloss_step tc df ow cw k st = Inr st') \<and>
     \<not> (logloss_class_weight cw k \<noteq> 0 \<and> k \<notin> set (columns df))"
  by (simp add: logloss_step_def Let_def)

lemma logloss_loop_err:
  assumes "\<exists>k \<in> set cs. logloss_class_weight cw k \<noteq> 0 \<and> k \<notin> set (columns df)"
  shows "logloss_loop tc df ow cw cs st = Inl AvocadoException"
  using assms
proof (induction cs arbitrary: st)
  case Nil
  then show ?case by simp
next
  case (Cons k cs)
  from logloss_step_cases [of tc df ow cw k st] show ?case
  proof (elim disjE conjE exE)
    assume "logloss_step tc df ow cw k st = Inl AvocadoException"
    then show ?thesis by simp
  next
    fix st'
    assume s: "logloss_step tc df ow cw k st = Inr st'"
      and n: "\<not> (logloss_class_weight cw k \<noteq> 0 \<and> k \<notin> set (columns df))"
    with Cons.prems have "\<exists>k \<in> set cs. logloss_class_weight cw k \<noteq> 0 \<and> k \<notin> set (columns df)"
      by auto
    then have "logloss_loop tc df ow cw cs st' = Inl AvocadoException" by (rule Cons.IH)
    with s show ?thesis by simp
  qed
qed

lemma logloss_loop_returns:
  assumes "\<not> (\<exists>k \<in> set cs. logloss_class_weight cw k \<noteq> 0 \<and> k \<notin> set (columns df))"
  shows "\<exists>st'. logloss_loop tc df ow cw cs st = Inr st'"
  using assms
proof (induction cs arbitrary: st)
  case Nil
  then show ?case by simp
next
  case (Cons k cs)
  from logloss_step_cases [of tc df ow cw k st] Cons.prems
  obtain st' where s: "logloss_step tc df ow cw k st = Inr st'" by auto
  from Cons.prems have "\<not> (\<exists>k \<in> set cs. logloss_class_weight cw k \<noteq> 0 \<and> k \<notin> set (columns df))"
    by simp
  from Cons.IH [OF this, of st'] s show ?case by simp
qed

lemma set_np_unique [simp]: "set (np_unique xs) = set xs"
  by (simp add: np_unique_def)

lemma distinct_np_unique [simp]: "distinct (np_unique xs)"
  by (simp add: np_unique_def)

lemma logloss_contributions_ok:
  assumes lw: "length ws = length tc" and lr: "length (row_values df) = length tc"
    and ws: "ws = effective_weights (length tc) ow"
    and col: "\<forall>k \<in> set tc. logloss_class_weight cw k \<noteq> 0 \<longrightarrow> k \<in> set (columns df)"
  shows "object_logloss_contributions tc df ow cw =
           Inr (map (\<lambda>obj. fdiv (object_contribution (logloss_class_weight cw)
                                   (class_weight_sum tc ws) df obj)
                              (Fin (sum_list (map (logloss_class_weight cw) (np_unique tc)))))
                 (zip tc (zip ws (row_values df))))"
proof -
  let ?C = "object_contribution (logloss_class_weight cw) (class_weight_sum tc ws) df"
  let ?ol = "replicate (length tc) (Fin lit_1e10)"
  have "logloss_loop tc df ow cw (np_unique tc) (?ol, 0) =
           Inr (map (\<lambda>(c, w, r, x). if c \<in> set (np_unique tc) then ?C (c, w, r) else x)
                 (zip tc (zip ws (zip (row_values df) ?ol))),
                0 + sum_list (map (logloss_class_weight cw) (np_unique tc)))"
    using lw lr ws col by (intro logloss_loop_ok) simp_all
  moreover have "map (\<lambda>(c, w, r, x). if c \<in> set (np_unique tc) then ?C (c, w, r) else x)
                 (zip tc (zip ws (zip (row_values df) ?ol))) =
               map ?C (zip tc (zip ws (row_values df)))"
    using lw lr by (intro nth_equalityI) simp_all
  ultimately show ?thesis
    by (simp add: object_logloss_contributions_def)
qed

lemma fadd_zero [simp]: "fadd a (Fin 0) = a"
  by (cases a) simp_all

lemma foldl_fadd_skip:
  assumes "\<forall>x \<in> set xs. \<not> P x \<longrightarrow> f x = Fin 0 \<or> f x = NaN"
  shows "foldl fadd a (filter (\<lambda>x. x \<noteq> NaN) (map f xs)) =
         foldl fadd a (filter (\<lambda>x. x \<noteq> NaN) (map f (filter P xs)))"
  using assms by (induction xs arbitrary: a) auto

lemma pd_sum_skip:
  assumes "\<forall>x \<in> set xs. \<not> P x \<longrightarrow> f x = Fin 0 \<or> f x = NaN"
  shows "pd_sum (map f xs) = pd_sum (map f (filter P xs))"
  unfolding pd_sum_def using assms by (rule foldl_fadd_skip)

lemma mask_select_filter:
  "length ks = length xs \<Longrightarrow>
     mask_select (map P ks) xs = map snd (filter (\<lambda>p. P (fst p)) (zip ks xs))"
  by (induction ks xs rule: list_induct2) simp_all

lemma mask_select_self: "mask_select (map P xs) xs = filter P xs"
  by (induction xs) simp_all

lemma length_mask_select_map:
  "length ks = length xs \<Longrightarrow> length (mask_select (map P ks) xs) = length (filter P ks)"
  by (induction ks xs rule: list_induct2) simp_all

lemma mask_select_zip:
  "length xs = length ms \<Longrightarrow> length ys = length ms \<Longrightarrow>
     mask_select ms (zip xs ys) = zip (mask_select ms xs) (mask_select ms ys)"
proof (induction ms arbitrary: xs ys)
  case Nil
  then show ?case by simp
next
  case (Cons m ms)
  from Cons.prems obtain x xs' where xs: "xs = x # xs'" by (cases xs) auto
  from Cons.prems obtain y ys' where ys: "ys = y # ys'" by (cases ys) auto
  from Cons.prems Cons.IH [of xs' ys'] show ?case by (simp add: xs ys)
qed

lemma mask_select_nested:
  assumes "length ws = length tc" "c \<noteq> C"
  shows "mask_select (map (\<lambda>c'. c' = c) (mask_select (map (\<lambda>c'. c' \<noteq> C) tc) tc))
           (mask_select (map (\<lambda>c'. c' \<noteq> C) tc) ws) =
         mask_select (map (\<lambda>c'. c' = c) tc) ws"
  using assms by (induction ws tc rule: list_induct2) auto

lemma class_weight_sum_delete:
  assumes "length ws = length tc" "c \<noteq> C"
  shows "class_weight_sum (delete_class_rows C tc tc) (delete_class_rows C tc ws) c =
         class_weight_sum tc ws c"
  using mask_select_nested [OF assms]
  by (simp add: class_weight_sum_def delete_class_rows_def)

lemma sum_class_weights_delete:
  fixes wt :: "'c::linorder \<Rightarrow> real"
  assumes "wt C = 0"
  shows "sum_list (map wt (np_unique (delete_class_rows C tc tc))) =
         sum_list (map wt (np_unique tc))"
proof -
  have s: "set (delete_class_rows C tc tc) = set tc - {C}"
    by (auto simp: delete_class_rows_def mask_select_self)
  have "sum_list (map wt (np_unique (delete_class_rows C tc tc))) = sum wt (set tc - {C})"
    by (simp add: sum_list_distinct_conv_sum_set s)
  also have "\<dots> = sum wt (set tc)"
    using assms by (intro sum.mono_neutral_left) auto
  also have "\<dots> = sum_list (map wt (np_unique tc))"
    by (simp add: sum_list_distinct_conv_sum_set)
  finally show ?thesis .
qed

lemma effective_weights_delete:
  assumes "length ws = length tc" "ws = effective_weights (length tc) ow"
  shows "delete_class_rows C tc ws =
         effective_weights (length (delete_class_rows C tc tc))
           (map_option (delete_class_rows C tc) ow)"
proof (cases ow)
  case None
  have "mask_select (map (\<lambda>c. c \<noteq> C) tc) (replicate (length (map (\<lambda>c. c \<noteq> C) tc)) (1::real)) =
        replicate (length (filter id (map (\<lambda>c. c \<noteq> C) tc))) 1"
    by (rule mask_select_replicate)
  moreover have "length (filter id (map (\<lambda>c. c \<noteq> C) tc)) = length (filter (\<lambda>c. c \<noteq> C) tc)"
    by (induction tc) simp_all
  ultimately show ?thesis
    using None assms by (simp add: effective_weights_def delete_class_rows_def mask_select_self)
next
  case (Some a)
  with assms show ?thesis by (simp add: effective_weights_def)
qed

lemma mask_select_zip_fst:
  "length rest = length tc \<Longrightarrow>
     mask_select (map P tc) (zip tc rest) = filter (\<lambda>p. P (fst p)) (zip tc rest)"
  by (induction rest tc rule: list_induct2) simp_all

lemma logloss_error_iff:
  "(weighted_multi_logloss tc df ow cw = Inl AvocadoException) =
     (\<exists>c \<in> set tc. logloss_class_weight cw c \<noteq> 0 \<and> c \<notin> set (columns df))"
proof
  assume e: "weighted_multi_logloss tc df ow cw = Inl AvocadoException"
  show "\<exists>c \<in> set tc. logloss_class_weight cw c \<noteq> 0 \<and> c \<notin> set (columns df)"
  proof (rule ccontr)
    assume "\<not> (\<exists>c \<in> set tc. logloss_class_weight cw c \<noteq> 0 \<and> c \<notin> set (columns df))"
    then have "\<not> (\<exists>k \<in> set (np_unique tc).
        logloss_class_weight cw k \<noteq> 0 \<and> k \<notin> set (columns df))"
      by simp
    from logloss_loop_returns [OF this]
    obtain st' where "logloss_loop tc df ow cw (np_unique tc)
        (replicate (length tc) (Fin lit_1e10), 0) = Inr st'"
      by blast
    with e show False
      by (cases st') (simp add: weighted_multi_logloss_def object_logloss_contributions_def)
  qed
next
  assume "\<exists>c \<in> set tc. logloss_class_weight cw c \<noteq> 0 \<and> c \<notin> set (columns df)"
  then have "\<exists>k \<in> set (np_unique tc).
      logloss_class_weight cw k \<noteq> 0 \<and> k \<notin> set (columns df)"
    by simp
  then have "logloss_loop tc df ow cw (np_unique tc)
      (replicate (length tc) (Fin lit_1e10), 0) = Inl AvocadoException"
    by (rule logloss_loop_err)
  then show "weighted_multi_logloss tc df ow cw = Inl AvocadoException"
    by (simp add: weighted_multi_logloss_def object_logloss_contributions_def)
qed

text \<open>
  Claim C5. \<open>weighted_multi_logloss\<close> raises its exception exactly when some class among
  the true labels has a non-zero class weight and no column in the prediction table, and
  it returns a value exactly when there is no such class: a class of weight 0 without a
  column raises nothing, and a call that raises returns no result.
\<close>

theorem logloss_raises_iff:
  "(weighted_multi_logloss true_classes predictions object_weights class_weights =
      Inl AvocadoException) =
     (\<exists>c \<in> set true_classes.
        logloss_class_weight class_weights c \<noteq> 0 \<and> c \<notin> set (columns predictions)) \<and>
   (\<exists>v. weighted_multi_logloss true_classes predictions object_weights class_weights = Inr v) =
     (\<not> (\<exists>c \<in> set true_classes.
        logloss_class_weight class_weights c \<noteq> 0 \<and> c \<notin> set (columns predictions)))"
proof (cases "\<exists>c \<in> set true_classes.
        logloss_class_weight class_weights c \<noteq> 0 \<and> c \<notin> set (columns predictions)")
  case True
  then have "\<exists>k \<in> set (np_unique true_classes).
      logloss_class_weight class_weights k \<noteq> 0 \<and> k \<notin> set (columns predictions)"
    by simp
  then have "logloss_loop true_classes predictions object_weights class_weights
               (np_unique true_classes)
               (replicate (length true_classes) (Fin lit_1e10), 0) = Inl AvocadoException"
    by (rule logloss_loop_err)
  then have "weighted_multi_logloss true_classes predictions object_weights class_weights =
      Inl AvocadoException"
    by (simp add: weighted_multi_logloss_def object_logloss_contributions_def)
  with True show ?thesis by simp
next
  case False
  then have "\<not> (\<exists>k \<in> set (np_unique true_classes).
      logloss_class_weight class_weights k \<noteq> 0 \<and> k \<notin> set (columns predictions))"
    by simp
  from logloss_loop_returns [OF this]
  obtain st' where "logloss_loop true_classes predictions object_weights class_weights
               (np_unique true_classes)
               (replicate (length true_classes) (Fin lit_1e10), 0) = Inr st'"
    by blast
  then have "\<exists>v. weighted_multi_logloss true_classes predictions object_weights class_weights =
      Inr v"
    by (cases st') (simp add: weighted_multi_logloss_def object_logloss_contributions_def)
  with False show ?thesis by auto
qed

lemma logloss_value:
  assumes lw: "length ws = length tc" and lr: "length (row_values df) = length tc"
    and ws: "ws = effective_weights (length tc) ow"
    and col: "\<forall>k \<in> set tc. logloss_class_weight cw k \<noteq> 0 \<longrightarrow> k \<in> set (columns df)"
  shows "weighted_multi_logloss tc df ow cw =
           Inr (pd_sum (map (\<lambda>obj. fdiv (object_contribution (logloss_class_weight cw)
                                   (class_weight_sum tc ws) df obj)
                              (Fin (sum_list (map (logloss_class_weight cw) (np_unique tc)))))
                 (zip tc (zip ws (row_values df)))))"
  by (simp add: weighted_multi_logloss_def logloss_contributions_ok [OF assms])

text \<open>
  Claim C4. When the class-weight mapping gives class \<open>C\<close> the weight 0, the scalar
  metric equals the metric of the inputs with every object of class \<open>C\<close> deleted from
  the true classes, the prediction rows and the object weights; the same exception is
  raised on both sides when a class of non-zero weight has no column. The series and
  the table have one entry per object.
\<close>

theorem logloss_zero_weight_class_deleted:
  assumes cw: "class_weights = Some m" and mC: "m C = Some 0"
    and lr: "length (row_values predictions) = length true_classes"
    and lw: "case object_weights of Some ws \<Rightarrow> length ws = length true_classes | None \<Rightarrow> True"
  shows "weighted_multi_logloss true_classes predictions object_weights class_weights =
         weighted_multi_logloss
           (delete_class_rows C true_classes true_classes)
           (predictions\<lparr>row_values := delete_class_rows C true_classes (row_values predictions)\<rparr>)
           (map_option (delete_class_rows C true_classes) object_weights)
           class_weights"
proof -
  let ?wt = "logloss_class_weight class_weights"
  let ?tc = true_classes
  let ?tc' = "delete_class_rows C true_classes true_classes"
  let ?df' = "predictions\<lparr>row_values := delete_class_rows C true_classes (row_values predictions)\<rparr>"
  let ?ow' = "map_option (delete_class_rows C true_classes) object_weights"
  define ws where "ws = effective_weights (length ?tc) object_weights"
  let ?ws' = "delete_class_rows C ?tc ws"
  have wtC: "?wt C = 0" using cw mC by (simp add: logloss_class_weight_def)
  have lws: "length ws = length ?tc"
    using lw by (cases object_weights) (simp_all add: ws_def effective_weights_def)
  have set': "set ?tc' = set ?tc - {C}"
    by (auto simp: delete_class_rows_def mask_select_self)
  show ?thesis
  proof (cases "\<exists>c \<in> set ?tc. ?wt c \<noteq> 0 \<and> c \<notin> set (columns predictions)")
    case True
    then obtain c where c: "c \<in> set ?tc" "?wt c \<noteq> 0" "c \<notin> set (columns predictions)"
      by blast
    with wtC have "c \<noteq> C" by auto
    with c have "\<exists>c \<in> set ?tc'. ?wt c \<noteq> 0 \<and> c \<notin> set (columns ?df')"
      using set' by auto
    then have "weighted_multi_logloss ?tc' ?df' ?ow' class_weights = Inl AvocadoException"
      by (simp only: logloss_error_iff)
    moreover have "weighted_multi_logloss ?tc predictions object_weights class_weights =
        Inl AvocadoException"
      using True by (simp only: logloss_error_iff)
    ultimately show ?thesis by simp
  next
    case False
    then have col: "\<forall>k \<in> set ?tc. ?wt k \<noteq> 0 \<longrightarrow> k \<in> set (columns predictions)" by blast
    then have col': "\<forall>k \<in> set ?tc'. ?wt k \<noteq> 0 \<longrightarrow> k \<in> set (columns ?df')"
      using set' by simp
    let ?S = "sum_list (map ?wt (np_unique ?tc))"
    let ?K = "\<lambda>obj. fdiv (object_contribution ?wt (class_weight_sum ?tc ws) predictions obj) (Fin ?S)"
    let ?K' = "\<lambda>obj. fdiv (object_contribution ?wt (class_weight_sum ?tc' ?ws') ?df' obj)
                       (Fin (sum_list (map ?wt (np_unique ?tc'))))"
    let ?objs = "zip ?tc (zip ws (row_values predictions))"
    have lhs: "weighted_multi_logloss ?tc predictions object_weights class_weights =
        Inr (pd_sum (map ?K ?objs))"
      using lws lr ws_def col by (rule logloss_value)
    have ltc': "length ?tc' = length (filter (\<lambda>c. c \<noteq> C) ?tc)"
      by (simp add: delete_class_rows_def mask_select_self)
    have lws': "length ?ws' = length ?tc'"
      using lws by (simp add: delete_class_rows_def length_mask_select_map mask_select_self)
    have lr': "length (row_values ?df') = length ?tc'"
      using lr by (simp add: delete_class_rows_def length_mask_select_map mask_select_self)
    have ws': "?ws' = effective_weights (length ?tc') ?ow'"
      using lws ws_def by (rule effective_weights_delete)
    have rhs: "weighted_multi_logloss ?tc' ?df' ?ow' class_weights =
        Inr (pd_sum (map ?K' (zip ?tc' (zip ?ws' (row_values ?df')))))"
      using lws' lr' ws' col' by (rule logloss_value)
    have objs': "zip ?tc' (zip ?ws' (row_values ?df')) = filter (\<lambda>p. fst p \<noteq> C) ?objs"
    proof -
      have "zip ?tc' (zip ?ws' (row_values ?df')) =
            mask_select (map (\<lambda>c. c \<noteq> C) ?tc) ?objs"
        using lws lr by (simp add: delete_class_rows_def mask_select_zip)
      also have "\<dots> = filter (\<lambda>p. fst p \<noteq> C) ?objs"
        using lws lr by (intro mask_select_zip_fst) simp
      finally show ?thesis .
    qed
    have skip: "pd_sum (map ?K ?objs) = pd_sum (map ?K (filter (\<lambda>p. fst p \<noteq> C) ?objs))"
    proof (rule pd_sum_skip, intro ballI impI)
      fix x assume "x \<in> set ?objs" "\<not> fst x \<noteq> C"
      then have "object_contribution ?wt (class_weight_sum ?tc ws) predictions x = Fin 0"
        using wtC by (auto simp: object_contribution_def split: prod.splits)
      then show "?K x = Fin 0 \<or> ?K x = NaN" by simp
    qed
    have same: "map ?K (filter (\<lambda>p. fst p \<noteq> C) ?objs) = map ?K' (filter (\<lambda>p. fst p \<noteq> C) ?objs)"
    proof (rule map_cong [OF refl])
      fix x assume "x \<in> set (filter (\<lambda>p. fst p \<noteq> C) ?objs)"
      then have ne: "fst x \<noteq> C" by simp
      have "class_weight_sum ?tc' ?ws' (fst x) = class_weight_sum ?tc ws (fst x)"
        using lws ne by (rule class_weight_sum_delete)
      moreover have "sum_list (map ?wt (np_unique ?tc')) = ?S"
        using wtC by (rule sum_class_weights_delete)
      ultimately show "?K x = ?K' x"
        by (auto simp: object_contribution_def split: prod.splits)
    qed
    show ?thesis
      by (simp only: lhs rhs objs' skip same)
  qed
qed

lemma foldl_fadd_Fin:
  "foldl fadd (Fin a) (filter (\<lambda>x. x \<noteq> NaN) (map (\<lambda>x. Fin (f x)) xs)) =
     Fin (a + sum_list (map f xs))"
  by (induction xs arbitrary: a) (simp_all add: add.assoc)

lemma pd_sum_Fin: "pd_sum (map (\<lambda>x. Fin (f x)) xs) = Fin (sum_list (map f xs))"
  using foldl_fadd_Fin [of 0 f xs] by (simp add: pd_sum_def)

lemma pd_sum_NaN: "pd_sum (map (\<lambda>x. NaN) xs) = Fin 0"
  by (simp add: pd_sum_def)

lemma label_index_less: "c \<in> set xs \<Longrightarrow> label_index xs c < length xs"
  unfolding label_index_def
  by (induction xs) auto

lemma sum_nonzero_class_weights:
  fixes wt :: "'c::linorder \<Rightarrow> real"
  shows "sum_list (map wt (np_unique tc)) =
         sum_list (map wt (filter (\<lambda>c. wt c \<noteq> 0) (remdups tc)))"
proof -
  have "sum_list (map wt (np_unique tc)) = sum wt (set tc)"
    by (simp add: sum_list_distinct_conv_sum_set)
  also have "\<dots> = sum wt {c \<in> set tc. wt c \<noteq> 0}"
    by (intro sum.mono_neutral_right) auto
  also have "\<dots> = sum_list (map wt (filter (\<lambda>c. wt c \<noteq> 0) (remdups tc)))"
    by (simp add: sum_list_distinct_conv_sum_set)
  finally show ?thesis .
qed

lemma lit_1e_10_pos: "0 < lit_1e_10"
  by (simp add: lit_1e_10_def)

lemma clamp_zero_pos: "0 \<le> p \<Longrightarrow> 0 < clamp_zero p"
  using lit_1e_10_pos by (simp add: clamp_zero_def)

text \<open>
  Claim C1. For a prediction table with one non-negative entry per column in every
  row, and inputs for which the divisions of the formula are defined (every class of
  non-zero weight among the true labels has a column and a non-zero sum of object
  weights, and the weights of those classes do not add up to 0),
  \<open>weighted_multi_logloss\<close> returns the finite number that the formula of the
  specification gives. When every class among the true labels has weight 0 it returns 0.
\<close>

theorem logloss_matches_formula:
  fixes true_classes :: "'c::linorder list"
  assumes lr: "length (row_values predictions) = length true_classes"
    and lw: "case object_weights of Some ws \<Rightarrow> length ws = length true_classes | None \<Rightarrow> True"
    and wf: "\<forall>r \<in> set (row_values predictions). length r = length (columns predictions)"
    and nonneg: "\<forall>r \<in> set (row_values predictions). \<forall>p \<in> set r. 0 \<le> p"
    and col: "\<forall>c \<in> set true_classes.
                logloss_class_weight class_weights c \<noteq> 0 \<longrightarrow> c \<in> set (columns predictions)"
    and W: "\<forall>c \<in> set true_classes.
                logloss_class_weight class_weights c \<noteq> 0 \<longrightarrow>
                class_weight_sum true_classes
                  (effective_weights (length true_classes) object_weights) c \<noteq> 0"
    and S: "(\<exists>c \<in> set true_classes. logloss_class_weight class_weights c \<noteq> 0) \<longrightarrow>
              sum_list (map (logloss_class_weight class_weights)
                (filter (\<lambda>c. logloss_class_weight class_weights c \<noteq> 0)
                   (remdups true_classes))) \<noteq> 0"
  shows "weighted_multi_logloss true_classes predictions object_weights class_weights =
           Inr (Fin (if \<exists>c \<in> set true_classes. logloss_class_weight class_weights c \<noteq> 0
                     then logloss_formula true_classes predictions object_weights class_weights
                     else 0))"
proof -
  let ?wt = "logloss_class_weight class_weights"
  let ?tc = true_classes
  define ws where "ws = effective_weights (length ?tc) object_weights"
  let ?W = "class_weight_sum ?tc ws"
  let ?S = "sum_list (map ?wt (np_unique ?tc))"
  let ?objs = "zip ?tc (zip ws (row_values predictions))"
  let ?C = "object_contribution ?wt ?W predictions"
  let ?L = "spec_object_loss ?wt ?W predictions"
  have lws: "length ws = length ?tc"
    using lw by (cases object_weights) (simp_all add: ws_def effective_weights_def)
  have val: "weighted_multi_logloss ?tc predictions object_weights class_weights =
      Inr (pd_sum (map (\<lambda>obj. fdiv (?C obj) (Fin ?S)) ?objs))"
    using lws lr ws_def col by (rule logloss_value)
  have CL: "?C obj = Fin (?L obj)" if "obj \<in> set ?objs" for obj
  proof -
    obtain c w r where obj: "obj = (c, w, r)" by (cases obj)
    from that obj have c: "c \<in> set ?tc" and r: "r \<in> set (row_values predictions)"
      by (auto dest: set_zip_leftD set_zip_rightD)
    show ?thesis
    proof (cases "?wt c = 0")
      case True
      then show ?thesis by (simp add: obj object_contribution_def spec_object_loss_def)
    next
      case False
      with col c have "c \<in> set (columns predictions)" by blast
      then have "label_index (columns predictions) c < length r"
        using wf r by (simp add: label_index_less)
      then have "r ! label_index (columns predictions) c \<in> set r" by simp
      with nonneg r have "0 \<le> r ! label_index (columns predictions) c" by blast
      then have pos: "0 < clamp_zero (r ! label_index (columns predictions) c)"
        by (rule clamp_zero_pos)
      have "?W c \<noteq> 0" using W c False by (simp add: ws_def)
      with False pos show ?thesis
        by (simp add: obj object_contribution_def spec_object_loss_def np_log_def)
    qed
  qed
  show ?thesis
  proof (cases "\<exists>c \<in> set ?tc. ?wt c \<noteq> 0")
    case True
    have S0: "?S \<noteq> 0"
      using S True by (simp add: sum_nonzero_class_weights)
    have "map (\<lambda>obj. fdiv (?C obj) (Fin ?S)) ?objs = map (\<lambda>obj. Fin (?L obj / ?S)) ?objs"
      using CL S0 by (intro map_cong [OF refl]) simp
    then have "pd_sum (map (\<lambda>obj. fdiv (?C obj) (Fin ?S)) ?objs) =
        Fin (sum_list (map (\<lambda>obj. ?L obj / ?S) ?objs))"
      by (simp only: pd_sum_Fin)
    also have "sum_list (map (\<lambda>obj. ?L obj / ?S) ?objs) = sum_list (map ?L ?objs) / ?S"
      by (simp add: divide_inverse sum_list_mult_const)
    also have "\<dots> = logloss_formula ?tc predictions object_weights class_weights"
      by (simp add: logloss_formula_def Let_def ws_def sum_nonzero_class_weights)
    finally show ?thesis using True val by simp
  next
    case False
    then have z: "\<And>c. c \<in> set ?tc \<Longrightarrow> ?wt c = 0" by blast
    have S0: "?S = 0"
      using z by (simp add: sum_list_distinct_conv_sum_set)
    have "map (\<lambda>obj. fdiv (?C obj) (Fin ?S)) ?objs = map (\<lambda>obj. NaN) ?objs"
    proof (rule map_cong [OF refl])
      fix obj assume o: "obj \<in> set ?objs"
      obtain c w r where obj: "obj = (c, w, r)" by (cases obj)
      from o obj have "c \<in> set ?tc" by (auto dest: set_zip_leftD)
      then have "?wt c = 0" by (rule z)
      then show "fdiv (?C obj) (Fin ?S) = NaN"
        by (simp add: S0 obj object_contribution_def)
    qed
    then have "pd_sum (map (\<lambda>obj. fdiv (?C obj) (Fin ?S)) ?objs) = Fin 0"
      by (simp only: pd_sum_NaN)
    with False val show ?thesis by simp
  qed
qed

theorem logloss_zero_weight_class_deleted_witness:
  "weighted_multi_logloss [0::int, 0, 1]
     \<lparr>columns = [0, 1], row_values = [[9 / 10, 1 / 10], [0, 1], [1 / 2, 1 / 2]]\<rparr>
     (Some [1, 2, 3]) (Some [0 \<mapsto> 0]) =
   weighted_multi_logloss [1::int]
     \<lparr>columns = [0, 1], row_values = [[1 / 2, 1 / 2]]\<rparr>
     (Some [3]) (Some [0 \<mapsto> 0])"
  using logloss_zero_weight_class_deleted [of "Some [0 \<mapsto> 0]" "[0 \<mapsto> 0]" "0::int"
      "\<lparr>columns = [0, 1], row_values = [[9 / 10, 1 / 10], [0, 1], [1 / 2, 1 / 2]]\<rparr>"
      "[0, 0, 1]" "Some [1, 2, 3]"]
  by (simp add: delete_class_rows_def)

theorem logloss_matches_formula_witness:
  "weighted_multi_logloss [0::int, 0, 1]
     \<lparr>columns = [0, 1], row_values = [[9 / 10, 1 / 10], [0, 1], [1 / 2, 1 / 2]]\<rparr>
     None None =
   Inr (Fin (((- ln (9 / 10) - ln lit_1e_10) / 2 + (- ln (1 / 2))) / 2))"
proof -
  have f: "logloss_formula [0::int, 0, 1]
     \<lparr>columns = [0, 1], row_values = [[9 / 10, 1 / 10], [0, 1], [1 / 2, 1 / 2]]\<rparr>
     None None = ((- ln (9 / 10) - ln lit_1e_10) / 2 + (- ln (1 / 2))) / 2"
    by (simp add: logloss_formula_def Let_def effective_weights_def logloss_class_weight_def
        spec_object_loss_def class_weight_sum_def label_index_def clamp_zero_def)
  show ?thesis
    using logloss_matches_formula [of
      "\<lparr>columns = [0, 1], row_values = [[9 / 10, 1 / 10], [0, 1], [1 / 2, 1 / 2]]\<rparr>"
      "[0::int, 0, 1]" None None]
    by (auto simp: f logloss_class_weight_def effective_weights_def class_weight_sum_def)
qed

section \<open>Properties of the fold loop\<close>

lemma mask_assign_map:
  assumes "length ms = length xs" "length ps = length xs"
  shows "mask_assign ms xs (map g (mask_select ms ps)) =
           map (\<lambda>(m, p, x). if m then g p else x) (zip ms (zip ps xs))"
  using assms
proof (induction ms arbitrary: xs ps)
  case Nil
  then show ?case by simp
next
  case (Cons m ms)
  from Cons.prems obtain x xs' where xs: "xs = x # xs'" by (cases xs) auto
  from Cons.prems xs obtain p ps' where ps: "ps = p # ps'" by (cases ps) auto
  have "mask_assign ms xs' (map g (mask_select ms ps')) =
          map (\<lambda>(m, p, x). if m then g p else x) (zip ms (zip ps' xs'))"
    using Cons.prems xs ps by (intro Cons.IH) simp_all
  then show ?case by (simp add: xs ps)
qed

lemma cv_fold_rows:
  assumes "cv_fold fit predict_row features oc ow folds f (P, cl, env) = Inr (P', cl', env')"
    and "length P = length folds" and "length features = length folds"
  shows "\<exists>m. fold_classifier fit features oc ow folds f env = Inr (m, env') \<and> cl' = cl @ [m] \<and>
             length P' = length folds \<and>
             (\<forall>i < length folds.
                P' ! i = (if folds ! i = f then predict_row m (features ! i) else P ! i))"
proof (cases "fold_classifier fit features oc ow folds f env")
  case (Inl e)
  with assms(1) show ?thesis by (simp add: cv_fold_def)
next
  case (Inr r)
  obtain m e1 where r: "r = (m, e1)" by (cases r)
  have eq: "mask_assign (validation_mask folds f) P
              (map (predict_row m) (mask_select (validation_mask folds f) features)) =
            map (\<lambda>(b, p, x). if b then predict_row m p else x)
              (zip (validation_mask folds f) (zip features P))"
    using assms(2,3) by (intro mask_assign_map) (simp_all add: validation_mask_def)
  from assms(1) Inr r have P': "P' = mask_assign (validation_mask folds f) P
              (map (predict_row m) (mask_select (validation_mask folds f) features))"
    and cl': "cl' = cl @ [m]" and e1: "env' = e1"
    by (simp_all add: cv_fold_def Let_def)
  have "length P' = length folds"
    using assms(2) by (simp add: P' length_mask_assign)
  moreover have "\<forall>i < length folds.
                P' ! i = (if folds ! i = f then predict_row m (features ! i) else P ! i)"
    unfolding P' eq using assms(2,3) by (simp add: validation_mask_def)
  ultimately show ?thesis using Inr r cl' e1 by simp
qed

lemma cv_loop_rows:
  assumes "cv_loop fit predict_row features oc ow folds fs (P, cl, env) = Inr (P', cl', env')"
    and "length P = length folds" and "length features = length folds"
    and "distinct fs"
  shows "\<exists>ms. length ms = length fs \<and> cl' = cl @ ms \<and> length P' = length folds \<and>
           (\<forall>j < length fs. \<exists>e1 e2.
              fold_classifier fit features oc ow folds (fs ! j) e1 = Inr (ms ! j, e2)) \<and>
           (\<forall>i < length folds. \<forall>j < length fs.
              folds ! i = fs ! j \<longrightarrow> P' ! i = predict_row (ms ! j) (features ! i)) \<and>
           (\<forall>i < length folds. folds ! i \<notin> set fs \<longrightarrow> P' ! i = P ! i)"
  using assms
proof (induction fs arbitrary: P cl env)
  case Nil
  then show ?case by simp
next
  case (Cons f fs)
  from Cons.prems(1) obtain P1 cl1 env1 where
    step: "cv_fold fit predict_row features oc ow folds f (P, cl, env) = Inr (P1, cl1, env1)"
    and rest: "cv_loop fit predict_row features oc ow folds fs (P1, cl1, env1) =
                 Inr (P', cl', env')"
    by (auto split: sum.splits)
  from cv_fold_rows [OF step Cons.prems(2,3)] obtain m where
    m: "fold_classifier fit features oc ow folds f env = Inr (m, env1)" and cl1: "cl1 = cl @ [m]"
    and len1: "length P1 = length folds"
    and rows1: "\<forall>i < length folds.
                P1 ! i = (if folds ! i = f then predict_row m (features ! i) else P ! i)"
    by blast
  from Cons.prems(4) have d: "distinct fs" and nf: "f \<notin> set fs" by simp_all
  from Cons.IH [OF rest len1 Cons.prems(3) d] obtain ms where
    ms: "length ms = length fs" "cl' = cl1 @ ms" "length P' = length folds"
    and fit': "\<forall>j < length fs. \<exists>e1 e2.
                 fold_classifier fit features oc ow folds (fs ! j) e1 = Inr (ms ! j, e2)"
    and rows': "\<forall>i < length folds. \<forall>j < length fs.
              folds ! i = fs ! j \<longrightarrow> P' ! i = predict_row (ms ! j) (features ! i)"
    and keep': "\<forall>i < length folds. folds ! i \<notin> set fs \<longrightarrow> P' ! i = P1 ! i"
    by blast
  let ?ms = "m # ms"
  have a: "length ?ms = length (f # fs)" using ms by simp
  have b: "cl' = cl @ ?ms" using ms cl1 by simp
  have c: "\<forall>j < length (f # fs). \<exists>e1 e2.
             fold_classifier fit features oc ow folds ((f # fs) ! j) e1 = Inr (?ms ! j, e2)"
  proof (intro allI impI)
    fix j assume "j < length (f # fs)"
    then show "\<exists>e1 e2. fold_classifier fit features oc ow folds ((f # fs) ! j) e1 =
                 Inr (?ms ! j, e2)"
      using m fit' by (cases j) auto
  qed
  have e: "\<forall>i < length folds. \<forall>j < length (f # fs).
              folds ! i = (f # fs) ! j \<longrightarrow> P' ! i = predict_row (?ms ! j) (features ! i)"
  proof (intro allI impI)
    fix i j assume i: "i < length folds" and j: "j < length (f # fs)"
      and eq: "folds ! i = (f # fs) ! j"
    show "P' ! i = predict_row (?ms ! j) (features ! i)"
    proof (cases j)
      case 0
      with eq have "folds ! i = f" by simp
      with nf have "folds ! i \<notin> set fs" by simp
      with keep' i have "P' ! i = P1 ! i" by blast
      with rows1 i \<open>folds ! i = f\<close> 0 show ?thesis by simp
    next
      case (Suc k)
      with j eq rows' i show ?thesis by simp
    qed
  qed
  have g: "\<forall>i < length folds. folds ! i \<notin> set (f # fs) \<longrightarrow> P' ! i = P ! i"
    using keep' rows1 by simp
  from a b ms(3) c e g show ?case by blast
qed

lemma set_fold_range: "set (fold_range n) = {x. 0 \<le> x \<and> x < n}"
proof -
  have "x \<in> set (fold_range n) \<longleftrightarrow> 0 \<le> x \<and> x < n" for x
  proof
    assume "x \<in> set (fold_range n)"
    then show "0 \<le> x \<and> x < n" by (auto simp: fold_range_def)
  next
    assume a: "0 \<le> x \<and> x < n"
    then have "nat x \<in> {0..<nat n}" by simp
    then have "int (nat x) \<in> int ` {0..<nat n}" by (rule imageI)
    with a show "x \<in> set (fold_range n)" by (simp add: fold_range_def)
  qed
  then show ?thesis by blast
qed

lemma distinct_fold_range: "distinct (fold_range n)"
  by (simp add: fold_range_def distinct_map inj_on_def)

lemma nth_fold_range: "j < length (fold_range n) \<Longrightarrow> fold_range n ! j = int j"
  by (simp add: fold_range_def)

lemma length_filter_distinct_one:
  "distinct fs \<Longrightarrow> x \<in> set fs \<Longrightarrow> length (filter (\<lambda>f. x = f) fs) = 1"
proof (induction fs)
  case Nil
  then show ?case by simp
next
  case (Cons f fs)
  show ?case
  proof (cases "x = f")
    case True
    with Cons.prems have "x \<notin> set fs" by simp
    then have "filter (\<lambda>f. x = f) fs = []" by (auto simp: filter_empty_conv)
    with True show ?thesis by simp
  next
    case False
    with Cons show ?thesis by simp
  qed
qed

lemma mset_filter_disjoint:
  "(\<And>z. \<not> (P z \<and> Q z)) \<Longrightarrow>
     mset (filter P Z) + mset (filter Q Z) = mset (filter (\<lambda>z. P z \<or> Q z) Z)"
  by (induction Z) auto

lemma mset_concat_filter:
  assumes "distinct fs"
  shows "mset (concat (map (\<lambda>f. filter (\<lambda>z. k z = f) Z) fs)) =
         mset (filter (\<lambda>z. k z \<in> set fs) Z)"
  using assms
proof (induction fs)
  case Nil
  then show ?case by simp
next
  case (Cons f fs)
  then have IH: "mset (concat (map (\<lambda>f. filter (\<lambda>z. k z = f) Z) fs)) =
         mset (filter (\<lambda>z. k z \<in> set fs) Z)"
    and nf: "f \<notin> set fs" by simp_all
  have "mset (filter (\<lambda>z. k z = f) Z) + mset (filter (\<lambda>z. k z \<in> set fs) Z) =
        mset (filter (\<lambda>z. k z = f \<or> k z \<in> set fs) Z)"
    using nf by (intro mset_filter_disjoint) auto
  with IH show ?case by simp
qed

lemma mset_validation_keys:
  assumes "length index = length folds" "distinct fs" "set folds \<subseteq> set fs"
  shows "mset (validation_keys folds index fs) = mset index"
proof -
  let ?Z = "zip folds index"
  have "validation_keys folds index fs =
        concat (map (\<lambda>f. map snd (filter (\<lambda>z. fst z = f) ?Z)) fs)"
    using assms(1) by (simp add: validation_keys_def validation_mask_def mask_select_filter)
  also have "\<dots> = map snd (concat (map (\<lambda>f. filter (\<lambda>z. fst z = f) ?Z) fs))"
    by (simp add: map_concat comp_def)
  finally have "mset (validation_keys folds index fs) =
      image_mset snd (mset (concat (map (\<lambda>f. filter (\<lambda>z. fst z = f) ?Z) fs)))"
    by simp
  also have "\<dots> = image_mset snd (mset (filter (\<lambda>z. fst z \<in> set fs) ?Z))"
    using assms(2) by (simp only: mset_concat_filter)
  also have "filter (\<lambda>z. fst z \<in> set fs) ?Z = ?Z"
    using assms(3) by (auto simp: filter_id_conv dest: set_zip_leftD)
  also have "image_mset snd (mset ?Z) = mset index"
    using assms(1) by (simp flip: mset_map)
  finally show ?thesis .
qed

lemma folds_in_range:
  assumes "\<forall>x \<in> set folds. 0 \<le> x"
  shows "set folds \<subseteq> set (fold_range (Max (set folds) + 1))"
proof
  fix x assume x: "x \<in> set folds"
  then have "x \<le> Max (set folds)" by simp
  with assms x show "x \<in> set (fold_range (Max (set folds) + 1))"
    by (simp add: set_fold_range)
qed

lemma cv_train_rows:
  assumes run: "cv_train fit predict_row features object_classes object_weights folds env =
                  Inr (predictions, classifiers, env')"
    and lf: "length features = length folds"
    and lc: "length object_classes = length folds"
    and labels: "\<forall>x \<in> set folds. 0 \<le> x"
  shows "length predictions = length folds \<and>
         (\<forall>i < length folds. \<exists>k < length classifiers.
            folds ! i = int k \<and>
            (\<exists>e1 e2. fold_classifier fit features object_classes object_weights folds (int k) e1 =
              Inr (classifiers ! k, e2)) \<and>
            predictions ! i = predict_row (classifiers ! k) (features ! i))"
proof -
  let ?fs = "fold_range (Max (set folds) + 1)"
  let ?P0 = "replicate (length object_classes)
               (replicate (length (np_unique object_classes)) (- 1 :: real))"
  from run have ne: "folds \<noteq> []"
    by (auto simp: cv_train_def np_max_def split: if_splits)
  with run have loop: "cv_loop fit predict_row features object_classes object_weights folds
                         ?fs (?P0, [], env) = Inr (predictions, classifiers, env')"
    by (simp add: cv_train_def np_max_def Let_def)
  have len0: "length ?P0 = length folds" using lc by simp
  from cv_loop_rows [OF loop len0 lf distinct_fold_range] obtain ms where
    ms: "length ms = length ?fs" "classifiers = [] @ ms" "length predictions = length folds"
    and fits: "\<forall>j < length ?fs. \<exists>e1 e2.
        fold_classifier fit features object_classes object_weights folds (?fs ! j) e1 =
          Inr (ms ! j, e2)"
    and rows: "\<forall>i < length folds. \<forall>j < length ?fs.
              folds ! i = ?fs ! j \<longrightarrow> predictions ! i = predict_row (ms ! j) (features ! i)"
    by blast
  have cl: "classifiers = ms" using ms by simp
  have inr: "set folds \<subseteq> set ?fs" using labels by (rule folds_in_range)
  have "\<exists>k < length classifiers.
        folds ! i = int k \<and>
        (\<exists>e1 e2. fold_classifier fit features object_classes object_weights folds (int k) e1 =
          Inr (classifiers ! k, e2)) \<and>
        predictions ! i = predict_row (classifiers ! k) (features ! i)"
    if i: "i < length folds" for i
  proof -
    from i inr have "folds ! i \<in> set ?fs" by auto
    then obtain j where j: "j < length ?fs" "?fs ! j = folds ! i"
      by (auto simp: in_set_conv_nth)
    then have fj: "folds ! i = int j" by (simp add: nth_fold_range)
    from rows i j have "predictions ! i = predict_row (ms ! j) (features ! i)" by simp
    moreover from fits j(1) have
      "\<exists>e1 e2. fold_classifier fit features object_classes object_weights folds (?fs ! j) e1 =
         Inr (ms ! j, e2)"
      by blast
    then have
      "\<exists>e1 e2. fold_classifier fit features object_classes object_weights folds (int j) e1 =
         Inr (ms ! j, e2)"
      using j(1) by (simp only: nth_fold_range)
    ultimately show ?thesis using j fj ms cl by auto
  qed
  with ms(3) show ?thesis by blast
qed

text \<open>
  Claim C3. When the training loop completes on aligned inputs whose fold labels are
  not negative, the table has one row per object and no cell still holds the sentinel
  \<open>-1\<close>, provided the classifiers predict non-negative numbers. Row \<open>i\<close> holds what the
  classifier fitted for fold \<open>folds ! i\<close> predicted for the features of object \<open>i\<close>; that
  fold is the only one of \<open>range(num_folds)\<close> whose validation mask is true at \<open>i\<close>, so
  the row is written once. The row keys of the validation slices of all folds together
  are the index as a multiset, and they are distinct when the index is. The number of
  folds need not be at least 2 for this.
\<close>

theorem cv_out_of_fold_table:
  assumes run: "cv_train fit predict_row features object_classes object_weights folds env =
                  Inr (predictions, classifiers, env')"
    and lf: "length features = length folds"
    and lc: "length object_classes = length folds"
    and li: "length index = length folds"
    and labels: "\<forall>x \<in> set folds. 0 \<le> x"
    and probs: "\<forall>m x. \<forall>p \<in> set (predict_row m x). 0 \<le> p"
  shows "length predictions = length folds \<and>
         (\<forall>row \<in> set predictions. - 1 \<notin> set row) \<and>
         (\<forall>i < length folds. \<exists>k < length classifiers.
            folds ! i = int k \<and>
            (\<exists>e1 e2. fold_classifier fit features object_classes object_weights folds (int k) e1 =
              Inr (classifiers ! k, e2)) \<and>
            predictions ! i = predict_row (classifiers ! k) (features ! i)) \<and>
         (\<forall>i < length folds.
            length (filter (\<lambda>f. validation_mask folds f ! i)
                      (fold_range (Max (set folds) + 1))) = 1) \<and>
         mset (validation_keys folds index (fold_range (Max (set folds) + 1))) = mset index \<and>
         (distinct index \<longrightarrow>
            distinct (validation_keys folds index (fold_range (Max (set folds) + 1))))"
proof -
  let ?fs = "fold_range (Max (set folds) + 1)"
  from cv_train_rows [OF run lf lc labels]
  have first: "length predictions = length folds"
    and third: "\<forall>i < length folds. \<exists>k < length classifiers.
            folds ! i = int k \<and>
            (\<exists>e1 e2. fold_classifier fit features object_classes object_weights folds (int k) e1 =
              Inr (classifiers ! k, e2)) \<and>
            predictions ! i = predict_row (classifiers ! k) (features ! i)"
    by blast+
  have inr: "set folds \<subseteq> set ?fs" using labels by (rule folds_in_range)
  have second: "- 1 \<notin> set row" if "row \<in> set predictions" for row
  proof -
    from that obtain i where i: "i < length predictions" "predictions ! i = row"
      by (auto simp: in_set_conv_nth)
    with first have "i < length folds" by simp
    with third i obtain k where "row = predict_row (classifiers ! k) (features ! i)"
      by auto
    with probs show ?thesis by fastforce
  qed
  have fourth: "length (filter (\<lambda>f. validation_mask folds f ! i) ?fs) = 1"
    if i: "i < length folds" for i
  proof -
    from i inr have "folds ! i \<in> set ?fs" by auto
    with distinct_fold_range have "length (filter (\<lambda>f. folds ! i = f) ?fs) = 1"
      by (rule length_filter_distinct_one)
    moreover have "filter (\<lambda>f. validation_mask folds f ! i) ?fs = filter (\<lambda>f. folds ! i = f) ?fs"
      using i by (simp add: validation_mask_def)
    ultimately show ?thesis by simp
  qed
  have fifth: "mset (validation_keys folds index ?fs) = mset index"
    using li distinct_fold_range inr by (rule mset_validation_keys)
  then have sixth: "distinct index \<longrightarrow> distinct (validation_keys folds index ?fs)"
    using mset_eq_imp_distinct_iff by blast
  from first second third fourth fifth sixth show ?thesis by blast
qed

lemma fold_range_2: "fold_range 2 = [0, 1]"
proof -
  have "[0..<2] = [0, 1]" by (simp add: upt_rec)
  then show ?thesis by (simp add: fold_range_def)
qed

lemma cv_example_run:
  "cv_train (\<lambda>tf tc tw vf vc vw f e. Inr (f, Suc e)) (\<lambda>m x. [real (nat m), real x])
     [10, 20, 30 :: nat] [0, 1, 1 :: int] [(), (), ()] [0, 1, 0] (0::nat) =
   Inr ([[0, 10], [1, 20], [0, 30]], [0, 1], 2)"
  by (simp add: cv_train_def np_max_def Let_def fold_range_2 cv_fold_def fold_classifier_def
      validation_mask_def train_mask_def)

theorem cv_out_of_fold_table_witness:
  "cv_train (\<lambda>tf tc tw vf vc vw f e. Inr (f, Suc e)) (\<lambda>m x. [real (nat m), real x])
     [10, 20, 30 :: nat] [0, 1, 1 :: int] [(), (), ()] [0, 1, 0] (0::nat) =
     Inr ([[0, 10], [1, 20], [0, 30]], [0, 1], 2) \<and>
   - 1 \<notin> set [0, 10 :: real] \<and> - 1 \<notin> set [1, 20 :: real] \<and> - 1 \<notin> set [0, 30 :: real] \<and>
   mset (validation_keys [0, 1, 0] [7, 8, 9 :: nat] (fold_range 2)) = mset [7, 8, 9] \<and>
   distinct (validation_keys [0, 1, 0] [7, 8, 9 :: nat] (fold_range 2))"
  using cv_out_of_fold_table [OF cv_example_run, of "[7, 8, 9 :: nat]"]
  by (simp add: cv_example_run)

section \<open>Properties of the neural network classifier\<close>

text \<open>
  Claim C9. With \<open>max_iters = 0\<close> and a model type that names a network,
  \<open>fit_nn_classifier\<close> returns the network with the parameters it was constructed
  with. The loop body does not run: the state of the random number generator and the
  checkpoint files are as before, and the only call recorded is the start of the run
  at the logger when the logger is \<open>'wandb'\<close>; no batch, no gradient step and no
  checkpoint.
\<close>

theorem fit_nn_zero_iterations:
  assumes "max_iters fp = 0" and "kind_of_model_type (model_type fp) = Some k"
  shows "\<exists>env'. fit_nn_classifier ops fp train_data val_data save_model_path env =
           Inr (\<lparr>kind = k, params = new_params ops k (fst train_data) (fst (snd train_data))\<rparr>,
                env') \<and>
         rng env' = rng env \<and> disk env' = disk env \<and>
         events env' = events env @ (if logger fp = Some ''wandb'' then [WandbInit] else [])"
  using assms by (simp add: fit_nn_classifier_def Let_def)

theorem fit_nn_zero_iterations_witness:
  "\<exists>env'. fit_nn_classifier example_ops (example_fit_params 0) ([1, 2], [0, 1], [(), ()])
             ([3], [1], [()]) (Some (model_path ''c'' 0)) example_env =
           Inr (\<lparr>kind = MLP, params = 0\<rparr>, env') \<and>
         rng env' = () \<and> disk env' = Map.empty \<and> events env' = []"
  using fit_nn_zero_iterations [of "example_fit_params 0" MLP example_ops
      "([1, 2], [0, 1], [(), ()])" "([3], [1], [()])" "Some (model_path ''c'' 0)" example_env]
  by (simp add: example_fit_params_def kind_of_model_type_def example_ops_def example_env_def)

lemma upt_0_2: "[0..<2] = [0, 1]"
  by (simp add: upt_rec)

lemma example_fit:
  "fit_nn_classifier example_ops (example_fit_params 2) tr va (Some path) env =
     Inr (\<lparr>kind = MLP, params = 2\<rparr>,
          env\<lparr>disk := (disk env)(path \<mapsto> 1),
              events := events env @
                [SampleBatch TrainSplit, GradientStep, SampleBatch TrainSplit, SampleBatch ValSplit,
                 Checkpoint,
                 SampleBatch TrainSplit, GradientStep, SampleBatch TrainSplit, SampleBatch ValSplit]\<rparr>)"
  by (simp add: fit_nn_classifier_def example_fit_params_def kind_of_model_type_def
      example_ops_def Let_def upt_0_2 fit_iteration_def estimate_loss_def)

text \<open>The last pass of the training loop, and what \<open>fit_nn_classifier\<close> returns after it.\<close>

lemma fit_loop_snoc:
  "fit_loop ops fp train_data val_data save_model_path (xs @ [i]) st =
     (case fit_loop ops fp train_data val_data save_model_path xs st of
        Inl e \<Rightarrow> Inl e
      | Inr st' \<Rightarrow> fit_iteration ops fp train_data val_data save_model_path i st')"
  by (induction xs arbitrary: st) (simp_all split: sum.splits)

lemma fit_iteration_last:
  assumes "fit_iteration ops fp train_data val_data (Some path) (max_iters fp - 1) st = Inr st'"
  shows "last_iteration_outcome ops fp train_data val_data path st =
           Some (fs_params st', disk (fs_env st'))"
  using assms
  unfolding fit_iteration_def last_iteration_outcome_def Let_def
  by (auto split: prod.splits sum.splits if_splits)

lemma range_last:
  assumes "0 < m"
  shows "map int [0..<nat m] = map int [0..<nat (m - 1)] @ [m - 1]"
proof -
  have "nat m = Suc (nat (m - 1))" using assms by simp
  then have "[0..<nat m] = [0..<nat (m - 1)] @ [nat (m - 1)]" by simp
  then show ?thesis using assms by simp
qed

lemma fit_nn_last:
  assumes run: "fit_nn_classifier ops fp train_data val_data (Some path) env = Inr (classifier, env')"
  shows "\<exists>kd. kind_of_model_type (model_type fp) = Some kd \<and> kind classifier = kd \<and>
           (if 0 < max_iters fp
            then \<exists>st. fit_loop ops fp train_data val_data (Some path)
                         (map int [0..<nat (max_iters fp - 1)])
                         (fit_start ops fp kd train_data env) = Inr st \<and>
                       last_iteration_outcome ops fp train_data val_data path st =
                         Some (params classifier, disk env')
            else params classifier = new_params ops kd (fst train_data) (fst (snd train_data)) \<and>
                 disk env' = disk env)"
proof -
  from run obtain kd where kd: "kind_of_model_type (model_type fp) = Some kd"
    by (auto simp: fit_nn_classifier_def split: option.splits)
  from run kd obtain st' where
    loop: "fit_loop ops fp train_data val_data (Some path) (map int [0..<nat (max_iters fp)])
             (fit_start ops fp kd train_data env) = Inr st'"
    and cl: "classifier = \<lparr>kind = kd, params = fs_params st'\<rparr>" and env': "env' = fs_env st'"
    by (auto simp: fit_nn_classifier_def fit_start_def Let_def split: sum.splits)
  show ?thesis
  proof (cases "0 < max_iters fp")
    case True
    from loop obtain st where
      pre: "fit_loop ops fp train_data val_data (Some path) (map int [0..<nat (max_iters fp - 1)])
              (fit_start ops fp kd train_data env) = Inr st"
      and last: "fit_iteration ops fp train_data val_data (Some path) (max_iters fp - 1) st = Inr st'"
      unfolding range_last [OF True] fit_loop_snoc by (auto split: sum.splits)
    from fit_iteration_last [OF last] pre kd cl env' True show ?thesis by auto
  next
    case False
    then have "nat (max_iters fp) = 0" by simp
    with loop have "st' = fit_start ops fp kd train_data env" by simp
    with kd cl env' False show ?thesis by (simp add: fit_start_def)
  qed
qed

text \<open>\<open>NNClassifier.predict\<close>: the files it loads and the mean it returns.\<close>

lemma nn_fold_predictions_softmax:
  "nn_fold_predictions ops files c xs =
     (case files (fst c) of
        None \<Rightarrow> Inl FileNotFoundError
      | Some prm \<Rightarrow> Inr (map (\<lambda>x. softmax (logits ops prm x)) xs))"
  by (simp add: nn_fold_predictions_def softmax_def Let_def o_def split: option.splits)

lemma nn_predict_loop_missing:
  assumes "k < length stored" and "files (fst (stored ! k)) = None"
  shows "nn_predict_loop ops files stored xs acc = Inl FileNotFoundError"
  using assms
proof (induction stored arbitrary: k acc)
  case Nil
  then show ?case by simp
next
  case (Cons c rest)
  show ?case
  proof (cases "files (fst c)")
    case None
    then show ?thesis by (simp add: nn_fold_predictions_softmax)
  next
    case (Some prm)
    with Cons.prems obtain k' where "k = Suc k'" by (cases k) auto
    with Cons.prems have "k' < length rest" "files (fst (rest ! k')) = None" by simp_all
    from Cons.IH [OF this] Some show ?thesis by (simp add: nn_fold_predictions_softmax)
  qed
qed

text \<open>The table of sums that the loop holds after the parameters \<open>ps\<close>, from the table \<open>m\<close>.\<close>

lemma nn_predict_loop_sum:
  assumes "length ps = length stored"
    and "\<forall>k < length stored. files (fst (stored ! k)) = Some (ps ! k)"
    and "\<forall>p \<in> set ps. \<forall>x \<in> set xs. length (logits ops p x) = C"
    and "length m = length xs" and "\<forall>r \<in> set m. length r = C"
  shows "nn_predict_loop ops files stored xs (Some m) =
           Inr (Some (map (\<lambda>i. map (\<lambda>j. m ! i ! j +
                  sum_list (map (\<lambda>p. softmax (logits ops p (xs ! i)) ! j) ps)) [0..<C])
                  [0..<length xs]))"
  using assms
proof (induction stored arbitrary: ps m)
  case Nil
  then have "ps = []" by simp
  have "map (\<lambda>i. map (\<lambda>j. m ! i ! j) [0..<C]) [0..<length xs] = m"
  proof (rule nth_equalityI)
    show "length (map (\<lambda>i. map (\<lambda>j. m ! i ! j) [0..<C]) [0..<length xs]) = length m"
      using Nil.prems by simp
  next
    fix i assume "i < length (map (\<lambda>i. map (\<lambda>j. m ! i ! j) [0..<C]) [0..<length xs])"
    then have i: "i < length m" using Nil.prems by simp
    then have "length (m ! i) = C" using Nil.prems by simp
    then have "map (\<lambda>j. m ! i ! j) [0..<C] = m ! i" using map_nth [of "m ! i"] by simp
    then show "map (\<lambda>i. map (\<lambda>j. m ! i ! j) [0..<C]) [0..<length xs] ! i = m ! i"
      using i Nil.prems by simp
  qed
  with \<open>ps = []\<close> show ?case by simp
next
  case (Cons c rest)
  from Cons.prems obtain p ps' where ps: "ps = p # ps'" by (cases ps) auto
  from Cons.prems ps have f: "files (fst c) = Some p" by auto
  let ?t = "map (\<lambda>x. softmax (logits ops p x)) xs"
  let ?m = "matrix_add m ?t"
  have lm: "length ?m = length xs" using Cons.prems by (simp add: matrix_add_def)
  have rows: "\<forall>i < length xs. ?m ! i = map (\<lambda>j. m ! i ! j + softmax (logits ops p (xs ! i)) ! j) [0..<C]"
  proof (intro allI impI)
    fix i assume i: "i < length xs"
    then have a: "length (m ! i) = C" using Cons.prems by simp
    have b: "length (softmax (logits ops p (xs ! i))) = C"
      using Cons.prems ps i by (simp add: softmax_def)
    have "?m ! i = map2 (+) (m ! i) (softmax (logits ops p (xs ! i)))"
      using i Cons.prems by (simp add: matrix_add_def)
    also have "\<dots> = map (\<lambda>j. m ! i ! j + softmax (logits ops p (xs ! i)) ! j) [0..<C]"
      using a b by (intro nth_equalityI) simp_all
    finally show "?m ! i = map (\<lambda>j. m ! i ! j + softmax (logits ops p (xs ! i)) ! j) [0..<C]" .
  qed
  have lr: "\<forall>r \<in> set ?m. length r = C"
  proof
    fix r assume "r \<in> set ?m"
    then obtain i where "i < length ?m" "r = ?m ! i" by (auto simp: in_set_conv_nth)
    with rows lm show "length r = C" by simp
  qed
  have p1: "length ps' = length rest" using Cons.prems ps by simp
  have p2: "\<forall>k < length rest. files (fst (rest ! k)) = Some (ps' ! k)"
  proof (intro allI impI)
    fix k assume "k < length rest"
    then have "Suc k < length (c # rest)" by simp
    with Cons.prems(2) have "files (fst ((c # rest) ! Suc k)) = Some (ps ! Suc k)" by blast
    then show "files (fst (rest ! k)) = Some (ps' ! k)" using ps by simp
  qed
  have p3: "\<forall>p \<in> set ps'. \<forall>x \<in> set xs. length (logits ops p x) = C"
    using Cons.prems ps by simp
  have "nn_predict_loop ops files (c # rest) xs (Some m) =
          nn_predict_loop ops files rest xs (Some ?m)"
    using f by (simp add: nn_fold_predictions_softmax)
  also have "\<dots> = Inr (Some (map (\<lambda>i. map (\<lambda>j. ?m ! i ! j +
                  sum_list (map (\<lambda>p. softmax (logits ops p (xs ! i)) ! j) ps')) [0..<C])
                  [0..<length xs]))"
    by (rule Cons.IH [OF p1 p2 p3 lm lr])
  also have "\<dots> = Inr (Some (map (\<lambda>i. map (\<lambda>j. m ! i ! j +
                  sum_list (map (\<lambda>p. softmax (logits ops p (xs ! i)) ! j) ps)) [0..<C])
                  [0..<length xs]))"
    using rows ps by simp
  finally show ?case .
qed

lemma nn_predict_mean:
  assumes l: "length ps = length stored" and ne: "stored \<noteq> []"
    and f: "\<forall>k < length stored. files (fst (stored ! k)) = Some (ps ! k)"
    and w: "\<forall>p \<in> set ps. \<forall>x \<in> set xs. length (logits ops p x) = C"
  shows "nn_predict ops files stored xs =
           Inr (map (\<lambda>x. map (\<lambda>j. mean_probability ops ps x j) [0..<C]) xs)"
proof -
  from ne obtain c rest where st: "stored = c # rest" by (cases stored) auto
  with l obtain p ps' where ps: "ps = p # ps'" by (cases ps) auto
  from f st ps have f0: "files (fst c) = Some p" by auto
  let ?t = "map (\<lambda>x. softmax (logits ops p x)) xs"
  have p1: "length ps' = length rest" using l st ps by simp
  have p2: "\<forall>k < length rest. files (fst (rest ! k)) = Some (ps' ! k)"
  proof (intro allI impI)
    fix k assume "k < length rest"
    then have "Suc k < length stored" using st by simp
    with f have "files (fst (stored ! Suc k)) = Some (ps ! Suc k)" by blast
    then show "files (fst (rest ! k)) = Some (ps' ! k)" using ps st by simp
  qed
  have p3: "\<forall>p \<in> set ps'. \<forall>x \<in> set xs. length (logits ops p x) = C" using w ps by simp
  have p4: "length ?t = length xs" by simp
  have p5: "\<forall>r \<in> set ?t. length r = C" using w ps by (auto simp: softmax_def)
  have "nn_predict_loop ops files stored xs None = nn_predict_loop ops files rest xs (Some ?t)"
    using st f0 by (simp add: nn_fold_predictions_softmax)
  also have "\<dots> = Inr (Some (map (\<lambda>i. map (\<lambda>j. ?t ! i ! j +
                  sum_list (map (\<lambda>p. softmax (logits ops p (xs ! i)) ! j) ps')) [0..<C])
                  [0..<length xs]))"
    by (rule nn_predict_loop_sum [OF p1 p2 p3 p4 p5])
  finally have loop: "nn_predict_loop ops files stored xs None =
      Inr (Some (map (\<lambda>i. map (\<lambda>j. ?t ! i ! j +
                  sum_list (map (\<lambda>p. softmax (logits ops p (xs ! i)) ! j) ps')) [0..<C])
                  [0..<length xs]))" .
  have "map (map (\<lambda>q. q / real (length stored)))
          (map (\<lambda>i. map (\<lambda>j. ?t ! i ! j +
                  sum_list (map (\<lambda>p. softmax (logits ops p (xs ! i)) ! j) ps')) [0..<C])
                  [0..<length xs]) =
        map (\<lambda>x. map (\<lambda>j. mean_probability ops ps x j) [0..<C]) xs"
    by (rule nth_equalityI) (simp_all add: mean_probability_def ps l [symmetric])
  with loop show ?thesis by (simp add: nn_predict_def)
qed

lemma nn_predict_missing:
  assumes "k < length stored" and "files (fst (stored ! k)) = None"
  shows "nn_predict ops files stored xs = Inl FileNotFoundError"
  using nn_predict_loop_missing [of k stored files ops xs None] assms
  by (simp add: nn_predict_def)

lemma nn_stored_length: "length (nn_stored_classifiers name classifiers) = length classifiers"
  by (simp add: nn_stored_classifiers_def)

lemma nn_stored_path:
  "k < length classifiers \<Longrightarrow>
     fst (nn_stored_classifiers name classifiers ! k) = model_path name (int k)"
  by (simp add: nn_stored_classifiers_def)

text \<open>
  Claim C10. When \<open>NNClassifier.train\<close> completes, the row of the prediction table of
  every object is the softmax of the logits of the network that \<open>fit_nn_classifier\<close>
  returned for the fold of the object. That network has the parameters that the gradient
  step of the last iteration made from the state the earlier iterations left, whatever
  the validation losses were; the checkpoint file of the fold takes these parameters
  only when their validation loss is below the best loss of the earlier iterations, and
  is otherwise the file the earlier iterations left. Without an iteration the network
  has its first parameters and the files stay as they were. \<open>NNClassifier.predict\<close>
  does not use the returned networks: when every fold has its file and the networks in
  the files have \<open>C\<close> outputs, its result is, for every row and every output, the mean
  over the folds of the softmax of the logits of the parameters in the files; when the
  file of a fold is missing it raises. In the instance below every returned network has
  the parameters 2 and every file holds 1.
\<close>

theorem nn_out_of_fold_from_returned_network:
  fixes ops :: "('p, 'o, 'g, 'b, 'f, 'c::linorder, 'w) nn_ops"
  assumes run: "nn_train ops fp name features object_classes object_weights folds env =
                  Inr (predictions, classifiers, env')"
    and lf: "length features = length folds"
    and lc: "length object_classes = length folds"
    and labels: "\<forall>x \<in> set folds. 0 \<le> x"
  shows "(\<forall>i < length folds. \<exists>k < length classifiers.
            folds ! i = int k \<and>
            predictions ! i = softmax (logits ops (params (classifiers ! k)) (features ! i)) \<and>
            (let train_data =
                   (mask_select (train_mask folds (int k)) features,
                    mask_select (train_mask folds (int k)) object_classes,
                    mask_select (train_mask folds (int k)) object_weights);
                 val_data =
                   (mask_select (validation_mask folds (int k)) features,
                    mask_select (validation_mask folds (int k)) object_classes,
                    mask_select (validation_mask folds (int k)) object_weights);
                 path = model_path name (int k)
             in \<exists>e1 e2 kd.
                  fit_nn_classifier ops fp train_data val_data (Some path) e1 =
                    Inr (classifiers ! k, e2) \<and>
                  kind_of_model_type (model_type fp) = Some kd \<and>
                  (if 0 < max_iters fp
                   then \<exists>st. fit_loop ops fp train_data val_data (Some path)
                                (map int [0..<nat (max_iters fp - 1)])
                                (fit_start ops fp kd train_data e1) = Inr st \<and>
                              last_iteration_outcome ops fp train_data val_data path st =
                                Some (params (classifiers ! k), disk e2)
                   else params (classifiers ! k) =
                          new_params ops kd (fst train_data) (fst (snd train_data)) \<and>
                        disk e2 = disk e1))) \<and>
         (\<forall>files xs ps C.
            length ps = length classifiers \<and>
            (\<forall>k < length classifiers. files (model_path name (int k)) = Some (ps ! k)) \<and>
            (\<forall>p \<in> set ps. \<forall>x \<in> set xs. length (logits ops p x) = C) \<longrightarrow>
            nn_predict ops files (nn_stored_classifiers name classifiers) xs =
              Inr (map (\<lambda>x. map (\<lambda>j. mean_probability ops ps x j) [0..<C]) xs)) \<and>
         (\<forall>files xs k.
            k < length classifiers \<and> files (model_path name (int k)) = None \<longrightarrow>
            nn_predict ops files (nn_stored_classifiers name classifiers) xs =
              Inl FileNotFoundError)"
proof (intro conjI)
  from run have cv: "cv_train (nn_fit ops fp name) (nn_predict_row ops) features object_classes
      object_weights folds env = Inr (predictions, classifiers, env')"
    by (simp add: nn_train_def)
  note rows = cv_train_rows [OF cv lf lc labels]
  show "\<forall>i < length folds. \<exists>k < length classifiers.
            folds ! i = int k \<and>
            predictions ! i = softmax (logits ops (params (classifiers ! k)) (features ! i)) \<and>
            (let train_data =
                   (mask_select (train_mask folds (int k)) features,
                    mask_select (train_mask folds (int k)) object_classes,
                    mask_select (train_mask folds (int k)) object_weights);
                 val_data =
                   (mask_select (validation_mask folds (int k)) features,
                    mask_select (validation_mask folds (int k)) object_classes,
                    mask_select (validation_mask folds (int k)) object_weights);
                 path = model_path name (int k)
             in \<exists>e1 e2 kd.
                  fit_nn_classifier ops fp train_data val_data (Some path) e1 =
                    Inr (classifiers ! k, e2) \<and>
                  kind_of_model_type (model_type fp) = Some kd \<and>
                  (if 0 < max_iters fp
                   then \<exists>st. fit_loop ops fp train_data val_data (Some path)
                                (map int [0..<nat (max_iters fp - 1)])
                                (fit_start ops fp kd train_data e1) = Inr st \<and>
                              last_iteration_outcome ops fp train_data val_data path st =
                                Some (params (classifiers ! k), disk e2)
                   else params (classifiers ! k) =
                          new_params ops kd (fst train_data) (fst (snd train_data)) \<and>
                        disk e2 = disk e1))"
  proof (intro allI impI)
    fix i assume "i < length folds"
    with rows obtain k e1 e2 where k: "k < length classifiers" "folds ! i = int k"
      and fit: "fold_classifier (nn_fit ops fp name) features object_classes object_weights folds
                  (int k) e1 = Inr (classifiers ! k, e2)"
      and row: "predictions ! i = nn_predict_row ops (classifiers ! k) (features ! i)"
      by blast
    let ?tr = "(mask_select (train_mask folds (int k)) features,
                mask_select (train_mask folds (int k)) object_classes,
                mask_select (train_mask folds (int k)) object_weights)"
    let ?va = "(mask_select (validation_mask folds (int k)) features,
                mask_select (validation_mask folds (int k)) object_classes,
                mask_select (validation_mask folds (int k)) object_weights)"
    from fit have fit': "fit_nn_classifier ops fp ?tr ?va (Some (model_path name (int k))) e1 =
        Inr (classifiers ! k, e2)"
      by (simp add: fold_classifier_def nn_fit_def)
    from fit_nn_last [OF fit'] obtain kd where
      kd: "kind_of_model_type (model_type fp) = Some kd"
      and last: "if 0 < max_iters fp
            then \<exists>st. fit_loop ops fp ?tr ?va (Some (model_path name (int k)))
                         (map int [0..<nat (max_iters fp - 1)])
                         (fit_start ops fp kd ?tr e1) = Inr st \<and>
                       last_iteration_outcome ops fp ?tr ?va (model_path name (int k)) st =
                         Some (params (classifiers ! k), disk e2)
            else params (classifiers ! k) = new_params ops kd (fst ?tr) (fst (snd ?tr)) \<and>
                 disk e2 = disk e1"
      by blast
    have "\<exists>e1 e2 kd.
            fit_nn_classifier ops fp ?tr ?va (Some (model_path name (int k))) e1 =
              Inr (classifiers ! k, e2) \<and>
            kind_of_model_type (model_type fp) = Some kd \<and>
            (if 0 < max_iters fp
             then \<exists>st. fit_loop ops fp ?tr ?va (Some (model_path name (int k)))
                          (map int [0..<nat (max_iters fp - 1)])
                          (fit_start ops fp kd ?tr e1) = Inr st \<and>
                        last_iteration_outcome ops fp ?tr ?va (model_path name (int k)) st =
                          Some (params (classifiers ! k), disk e2)
             else params (classifiers ! k) = new_params ops kd (fst ?tr) (fst (snd ?tr)) \<and>
                  disk e2 = disk e1)"
      using fit' kd last by blast
    with k row show "\<exists>k < length classifiers.
            folds ! i = int k \<and>
            predictions ! i = softmax (logits ops (params (classifiers ! k)) (features ! i)) \<and>
            (let train_data =
                   (mask_select (train_mask folds (int k)) features,
                    mask_select (train_mask folds (int k)) object_classes,
                    mask_select (train_mask folds (int k)) object_weights);
                 val_data =
                   (mask_select (validation_mask folds (int k)) features,
                    mask_select (validation_mask folds (int k)) object_classes,
                    mask_select (validation_mask folds (int k)) object_weights);
                 path = model_path name (int k)
             in \<exists>e1 e2 kd.
                  fit_nn_classifier ops fp train_data val_data (Some path) e1 =
                    Inr (classifiers ! k, e2) \<and>
                  kind_of_model_type (model_type fp) = Some kd \<and>
                  (if 0 < max_iters fp
                   then \<exists>st. fit_loop ops fp train_data val_data (Some path)
                                (map int [0..<nat (max_iters fp - 1)])
                                (fit_start ops fp kd train_data e1) = Inr st \<and>
                              last_iteration_outcome ops fp train_data val_data path st =
                                Some (params (classifiers ! k), disk e2)
                   else params (classifiers ! k) =
                          new_params ops kd (fst train_data) (fst (snd train_data)) \<and>
                        disk e2 = disk e1))"
      unfolding Let_def nn_predict_row_def by (intro exI [of _ k] conjI) assumption+
  qed
  from cv have "folds \<noteq> []"
    by (auto simp: cv_train_def np_max_def split: if_splits)
  then have "0 < length folds" by simp
  with rows have ne: "classifiers \<noteq> []" by fastforce
  show "\<forall>files xs ps C.
            length ps = length classifiers \<and>
            (\<forall>k < length classifiers. files (model_path name (int k)) = Some (ps ! k)) \<and>
            (\<forall>p \<in> set ps. \<forall>x \<in> set xs. length (logits ops p x) = C) \<longrightarrow>
            nn_predict ops files (nn_stored_classifiers name classifiers) xs =
              Inr (map (\<lambda>x. map (\<lambda>j. mean_probability ops ps x j) [0..<C]) xs)"
  proof (intro allI impI, elim conjE)
    fix files :: "string \<times> int \<rightharpoonup> 'p" and xs :: "'f list" and ps C
    assume l: "length ps = length classifiers"
      and f: "\<forall>k < length classifiers. files (model_path name (int k)) = Some (ps ! k)"
      and w: "\<forall>p \<in> set ps. \<forall>x \<in> set xs. length (logits ops p x) = C"
    have a: "length ps = length (nn_stored_classifiers name classifiers)"
      using l by (simp add: nn_stored_length)
    have b: "nn_stored_classifiers name classifiers \<noteq> []"
      using ne nn_stored_length [of name classifiers] by auto
    have c: "\<forall>k < length (nn_stored_classifiers name classifiers).
               files (fst (nn_stored_classifiers name classifiers ! k)) = Some (ps ! k)"
      using f by (simp add: nn_stored_length nn_stored_path)
    show "nn_predict ops files (nn_stored_classifiers name classifiers) xs =
            Inr (map (\<lambda>x. map (\<lambda>j. mean_probability ops ps x j) [0..<C]) xs)"
      by (rule nn_predict_mean [OF a b c w])
  qed
  show "\<forall>files xs k.
            k < length classifiers \<and> files (model_path name (int k)) = None \<longrightarrow>
            nn_predict ops files (nn_stored_classifiers name classifiers) xs =
              Inl FileNotFoundError"
  proof (intro allI impI, elim conjE)
    fix files :: "string \<times> int \<rightharpoonup> 'p" and xs :: "'f list" and k
    assume k: "k < length classifiers" and f: "files (model_path name (int k)) = None"
    have a: "k < length (nn_stored_classifiers name classifiers)"
      using k by (simp add: nn_stored_length)
    have b: "files (fst (nn_stored_classifiers name classifiers ! k)) = None"
      using k f by (simp add: nn_stored_path)
    show "nn_predict ops files (nn_stored_classifiers name classifiers) xs = Inl FileNotFoundError"
      using nn_predict_missing [of k "nn_stored_classifiers name classifiers" files ops xs] a b
      by simp
  qed
qed

lemma example_fold_0:
  "cv_fold (nn_fit example_ops (example_fit_params 2) ''c'') (nn_predict_row example_ops)
     [1, 2, 3, 4 :: nat] [0, 1, 0, 1 :: int] [(), (), (), ()] [0, 0, 1, 1] 0
     ([[- 1, - 1], [- 1, - 1], [- 1, - 1], [- 1, - 1]], [], example_env) =
   Inr ([softmax [2, 0], softmax [2, 0], [- 1, - 1], [- 1, - 1]], [\<lparr>kind = MLP, params = 2\<rparr>],
        \<lparr>rng = (), disk = [model_path ''c'' 0 \<mapsto> 1], events = example_events\<rparr>)"
  by (simp add: cv_fold_def fold_classifier_def nn_fit_def example_fit nn_predict_row_def
      validation_mask_def train_mask_def example_env_def example_events_def)
     (simp add: example_ops_def)

lemma example_fold_1:
  "cv_fold (nn_fit example_ops (example_fit_params 2) ''c'') (nn_predict_row example_ops)
     [1, 2, 3, 4 :: nat] [0, 1, 0, 1 :: int] [(), (), (), ()] [0, 0, 1, 1] 1
     ([softmax [2, 0], softmax [2, 0], [- 1, - 1], [- 1, - 1]], [\<lparr>kind = MLP, params = 2\<rparr>],
        \<lparr>rng = (), disk = [model_path ''c'' 0 \<mapsto> 1], events = example_events\<rparr>) =
   Inr ([softmax [2, 0], softmax [2, 0], softmax [2, 0], softmax [2, 0]],
        [\<lparr>kind = MLP, params = 2\<rparr>, \<lparr>kind = MLP, params = 2\<rparr>],
        \<lparr>rng = (), disk = [model_path ''c'' 0 \<mapsto> 1, model_path ''c'' 1 \<mapsto> 1],
         events = example_events @ example_events\<rparr>)"
  by (simp add: cv_fold_def fold_classifier_def nn_fit_def example_fit nn_predict_row_def
      validation_mask_def train_mask_def)
     (simp add: example_ops_def example_events_def)

lemma example_np_max: "np_max [0, 0, 1, 1] = Inr 1"
  by (simp add: np_max_def)

lemma example_nn_train:
  "nn_train example_ops (example_fit_params 2) ''c'' [1, 2, 3, 4 :: nat] [0, 1, 0, 1 :: int]
     [(), (), (), ()] [0, 0, 1, 1] example_env =
   Inr ([softmax [2, 0], softmax [2, 0], softmax [2, 0], softmax [2, 0]],
        [\<lparr>kind = MLP, params = 2\<rparr>, \<lparr>kind = MLP, params = 2\<rparr>],
        \<lparr>rng = (), disk = [model_path ''c'' 0 \<mapsto> 1, model_path ''c'' 1 \<mapsto> 1],
         events = example_events @ example_events\<rparr>)"
proof -
  have u: "np_unique [0, 1, 0, 1 :: int] = [0, 1]" by (simp add: np_unique_def)
  have "cv_loop (nn_fit example_ops (example_fit_params 2) ''c'') (nn_predict_row example_ops)
     [1, 2, 3, 4 :: nat] [0, 1, 0, 1 :: int] [(), (), (), ()] [0, 0, 1, 1] [0, 1]
     ([[- 1, - 1], [- 1, - 1], [- 1, - 1], [- 1, - 1]], [], example_env) =
   Inr ([softmax [2, 0], softmax [2, 0], softmax [2, 0], softmax [2, 0]],
        [\<lparr>kind = MLP, params = 2\<rparr>, \<lparr>kind = MLP, params = 2\<rparr>],
        \<lparr>rng = (), disk = [model_path ''c'' 0 \<mapsto> 1, model_path ''c'' 1 \<mapsto> 1],
         events = example_events @ example_events\<rparr>)"
    by (simp only: cv_loop.simps example_fold_0 example_fold_1 sum.case)
  then show ?thesis
    by (simp add: nn_train_def cv_train_def example_np_max Let_def fold_range_2 u
        eval_nat_numeral)
qed

lemma example_mean_probability:
  "map (\<lambda>x. map (\<lambda>j. mean_probability example_ops [1, 1] x j) [0..<2]) [5, 6 :: nat] =
     [softmax [1, 0], softmax [1, 0]]"
  by (simp add: mean_probability_def example_ops_def softmax_def upt_0_2)

theorem nn_out_of_fold_from_returned_network_witness:
  "nn_train example_ops (example_fit_params 2) ''c'' [1, 2, 3, 4 :: nat] [0, 1, 0, 1 :: int]
     [(), (), (), ()] [0, 0, 1, 1] example_env =
   Inr ([softmax [2, 0], softmax [2, 0], softmax [2, 0], softmax [2, 0]],
        [\<lparr>kind = MLP, params = 2\<rparr>, \<lparr>kind = MLP, params = 2\<rparr>],
        \<lparr>rng = (), disk = [model_path ''c'' 0 \<mapsto> 1, model_path ''c'' 1 \<mapsto> 1],
         events = example_events @ example_events\<rparr>) \<and>
   nn_predict example_ops [model_path ''c'' 0 \<mapsto> 1, model_path ''c'' 1 \<mapsto> 1]
     (nn_stored_classifiers ''c'' [\<lparr>kind = MLP, params = 2 :: nat\<rparr>, \<lparr>kind = MLP, params = 2\<rparr>])
     [5, 6] = Inr [softmax [1, 0], softmax [1, 0]] \<and>
   nn_predict example_ops [model_path ''c'' 0 \<mapsto> 1]
     (nn_stored_classifiers ''c'' [\<lparr>kind = MLP, params = 2 :: nat\<rparr>, \<lparr>kind = MLP, params = 2\<rparr>])
     [5, 6] = Inl FileNotFoundError"
proof -
  let ?cs = "[\<lparr>kind = MLP, params = 2 :: nat\<rparr>, \<lparr>kind = MLP, params = 2\<rparr>]"
  let ?files = "[model_path ''c'' 0 \<mapsto> 1 :: nat, model_path ''c'' 1 \<mapsto> 1]"
  let ?files' = "[model_path ''c'' 0 \<mapsto> 1 :: nat]"
  have l: "length [1, 2, 3, 4 :: nat] = length [0, 0, 1, 1 :: int]"
    "length [0, 1, 0, 1 :: int] = length [0, 0, 1, 1 :: int]"
    "\<forall>x \<in> set [0, 0, 1, 1 :: int]. 0 \<le> x"
    by simp_all
  note t = nn_out_of_fold_from_returned_network [OF example_nn_train l]
  from t have mean: "\<forall>files xs ps C.
            length ps = length ?cs \<and>
            (\<forall>k < length ?cs. files (model_path ''c'' (int k)) = Some (ps ! k)) \<and>
            (\<forall>p \<in> set ps. \<forall>x \<in> set xs. length (logits example_ops p x) = C) \<longrightarrow>
            nn_predict example_ops files (nn_stored_classifiers ''c'' ?cs) xs =
              Inr (map (\<lambda>x. map (\<lambda>j. mean_probability example_ops ps x j) [0..<C]) xs)"
    by blast
  from t have missing: "\<forall>files xs k.
            k < length ?cs \<and> files (model_path ''c'' (int k)) = None \<longrightarrow>
            nn_predict example_ops files (nn_stored_classifiers ''c'' ?cs) xs =
              Inl FileNotFoundError"
    by blast
  have h1: "length [1, 1 :: nat] = length ?cs" by simp
  have h2: "\<forall>k < length ?cs. ?files (model_path ''c'' (int k)) = Some ([1, 1] ! k)"
    by (simp add: model_path_def less_Suc_eq eval_nat_numeral)
  have h3: "\<forall>p \<in> set [1, 1 :: nat]. \<forall>x \<in> set [5, 6 :: nat]. length (logits example_ops p x) = 2"
    by (simp add: example_ops_def)
  from mean h1 h2 h3
  have "nn_predict example_ops ?files (nn_stored_classifiers ''c'' ?cs) [5, 6] =
          Inr (map (\<lambda>x. map (\<lambda>j. mean_probability example_ops [1, 1] x j) [0..<2]) [5, 6])"
    by blast
  then have a: "nn_predict example_ops ?files (nn_stored_classifiers ''c'' ?cs) [5, 6] =
          Inr [softmax [1, 0], softmax [1, 0]]"
    by (simp only: example_mean_probability)
  have h4: "1 < length ?cs \<and> ?files' (model_path ''c'' (int 1)) = None"
    by (simp add: model_path_def)
  from missing h4
  have b: "nn_predict example_ops ?files' (nn_stored_classifiers ''c'' ?cs) [5, 6] =
          Inl FileNotFoundError"
    by blast
  from example_nn_train a b show ?thesis by (intro conjI)
qed

section \<open>Properties of the redshift weights\<close>

lemma redshift_bins_1: "redshift_bins lo hi (Suc 0) = [- lit_1e99, lit_1e_99, lit_1e99]"
  by (simp add: redshift_bins_def np_logspace_def np_linspace_def Let_def upt_0_2)

lemma searchsorted_less_length:
  "xs \<noteq> [] \<Longrightarrow> v \<le> last xs \<Longrightarrow> np_searchsorted xs v < length xs"
proof (induction xs)
  case Nil
  then show ?case by simp
next
  case (Cons a xs)
  show ?case
  proof (cases "xs = []")
    case True
    with Cons.prems show ?thesis by simp
  next
    case False
    with Cons.prems have "v \<le> last xs" by simp
    with False Cons.IH have "np_searchsorted xs v < length xs" by simp
    then show ?thesis by simp
  qed
qed

lemma last_redshift_bins: "last (redshift_bins lo hi n) = lit_1e99"
proof -
  have ne: "redshift_bins lo hi n \<noteq> []"
    using length_redshift_bins [of lo hi n] by auto
  have "last (redshift_bins lo hi n) = redshift_bins lo hi n ! (n + 1)"
    using ne by (simp add: last_conv_nth length_redshift_bins)
  then show ?thesis by (simp add: redshift_bins_nth)
qed

lemma redshift_index_range:
  assumes "z \<le> lit_1e99"
  shows "- 1 \<le> redshift_index (redshift_bins lo hi n) z \<and>
         redshift_index (redshift_bins lo hi n) z < int (length (redshift_bins lo hi n) - 1)"
proof -
  have ne: "redshift_bins lo hi n \<noteq> []"
    using length_redshift_bins [of lo hi n] by auto
  have "np_searchsorted (redshift_bins lo hi n) z < length (redshift_bins lo hi n)"
    using ne assms by (intro searchsorted_less_length) (simp_all add: last_redshift_bins)
  then show ?thesis
    by (simp add: redshift_index_def length_redshift_bins)
qed

lemma py_index_ok:
  assumes "- 1 \<le> r" "r < int nb" "0 < nb"
  shows "py_index nb r = Inr (bin_of nb r)" and "bin_of nb r < nb"
  using assms by (auto simp: py_index_def bin_of_def)

lemma count_loop_ok:
  assumes "\<forall>cell \<in> set cells. - 1 \<le> fst (snd cell) \<and> fst (snd cell) < int nb"
    and nb: "0 < nb"
  shows "count_loop nb cells cnt =
           Inr (\<lambda>g b c. cnt g b c +
                  count_list (map (\<lambda>(g, r, c). (g, bin_of nb r, c)) cells) (g, b, c))"
  using assms
proof (induction cells arbitrary: cnt)
  case Nil
  then show ?case by simp
next
  case (Cons cell cells)
  obtain g r c where cell: "cell = (g, r, c)" by (cases cell)
  from Cons.prems cell have r: "- 1 \<le> r" "r < int nb" by simp_all
  let ?cnt1 = "cnt(g := (cnt g)(bin_of nb r := (cnt g (bin_of nb r))(c := cnt g (bin_of nb r) c + 1)))"
  have "count_loop nb (cell # cells) cnt = count_loop nb cells ?cnt1"
    by (simp add: cell py_index_ok(1) [OF r nb])
  also have "\<dots> = Inr (\<lambda>g' b' c'. ?cnt1 g' b' c' +
                  count_list (map (\<lambda>(g, r, c). (g, bin_of nb r, c)) cells) (g', b', c'))"
    using Cons.prems by (intro Cons.IH) simp_all
  also have "(\<lambda>g' b' c'. ?cnt1 g' b' c' +
                  count_list (map (\<lambda>(g, r, c). (g, bin_of nb r, c)) cells) (g', b', c')) =
             (\<lambda>g' b' c'. cnt g' b' c' +
                  count_list (map (\<lambda>(g, r, c). (g, bin_of nb r, c)) (cell # cells)) (g', b', c'))"
    by (intro ext) (auto simp: cell)
  finally show ?case .
qed

lemma gather_weights_ok:
  assumes "\<forall>cell \<in> set cells. - 1 \<le> fst (snd cell) \<and> fst (snd cell) < int nb"
    and nb: "0 < nb"
  shows "gather_weights nb weights cells =
           Inr (map (\<lambda>(g, r, c). weights g (bin_of nb r) c) cells)"
  using assms
proof (induction cells)
  case Nil
  then show ?case by simp
next
  case (Cons cell cells)
  obtain g r c where cell: "cell = (g, r, c)" by (cases cell)
  from Cons.prems cell have r: "- 1 \<le> r" "r < int nb" by simp_all
  from Cons show ?case by (simp add: cell py_index_ok(1) [OF r nb])
qed

lemma class_weight_loop_ok:
  assumes "\<forall>p \<in> set ics. m (snd p) = Some (wt (snd p))" and "distinct (map fst ics)"
  shows "class_weight_loop m ics weights =
           Inr (\<lambda>g b c. case map_of ics c of
                           Some name \<Rightarrow> fmul (weights g b c) (Fin (wt name))
                         | None \<Rightarrow> weights g b c)"
  using assms
proof (induction ics arbitrary: weights)
  case Nil
  then show ?case by simp
next
  case (Cons p ics)
  obtain i name where p: "p = (i, name)" by (cases p)
  from Cons.prems p have mn: "m name = Some (wt name)" by simp
  have notin: "map_of ics i = None"
    using Cons.prems(2) p by (simp add: map_of_eq_None_iff)
  let ?w1 = "\<lambda>g b c. if c = i then fmul (weights g b c) (Fin (wt name)) else weights g b c"
  have "class_weight_loop m (p # ics) weights = class_weight_loop m ics ?w1"
    by (simp add: p mn)
  also have "\<dots> = Inr (\<lambda>g b c. case map_of ics c of
                           Some name \<Rightarrow> fmul (?w1 g b c) (Fin (wt name))
                         | None \<Rightarrow> ?w1 g b c)"
    using Cons.prems by (intro Cons.IH) simp_all
  also have "(\<lambda>g b c. case map_of ics c of
                           Some name \<Rightarrow> fmul (?w1 g b c) (Fin (wt name))
                         | None \<Rightarrow> ?w1 g b c) =
             (\<lambda>g b c. case map_of (p # ics) c of
                           Some name \<Rightarrow> fmul (weights g b c) (Fin (wt name))
                         | None \<Rightarrow> weights g b c)"
    using notin by (intro ext) (auto simp: p split: option.splits)
  finally show ?case .
qed

lemma class_weight_loop_err:
  assumes "\<exists>p \<in> set ics. m (snd p) = None"
  shows "class_weight_loop m ics weights = Inl KeyError"
  using assms
proof (induction ics arbitrary: weights)
  case Nil
  then show ?case by simp
next
  case (Cons p ics)
  obtain i name where p: "p = (i, name)" by (cases p)
  show ?case
  proof (cases "m name")
    case None
    then show ?thesis by (simp add: p)
  next
    case (Some w)
    with Cons.prems p have "\<exists>p \<in> set ics. m (snd p) = None" by auto
    with Some Cons.IH show ?thesis by (simp add: p)
  qed
qed

lemma nth_label_index: "x \<in> set xs \<Longrightarrow> xs ! label_index xs x = x"
  unfolding label_index_def by (induction xs) auto

lemma fl_positive_list:
  "\<forall>x \<in> set xs. fl_positive x \<Longrightarrow> \<exists>ws. xs = map Fin ws \<and> (\<forall>w \<in> set ws. 0 < w)"
proof (induction xs)
  case Nil
  then show ?case by simp
next
  case (Cons x xs)
  then obtain ws where ws: "xs = map Fin ws" "\<forall>w \<in> set ws. 0 < w" by auto
  from Cons.prems obtain r where r: "x = Fin r" "0 < r"
    by (cases x) (auto simp: fl_positive_def)
  show ?case
    using ws r by (intro exI [of _ "r # ws"]) simp
qed

lemma fdiv_Fin_pos: "0 < b \<Longrightarrow> fdiv (Fin a) (Fin b) = Fin (a / b)"
  by simp

lemma cell_le_total:
  assumes "g < G" "b < B" "c < C"
  shows "counts g b c \<le> total_counts counts G B C"
proof -
  have "counts g b c \<le> (\<Sum>c<C. counts g b c)"
    using assms(3) by (intro member_le_sum) simp_all
  also have "\<dots> \<le> (\<Sum>b<B. \<Sum>c<C. counts g b c)"
    using assms(2) by (intro member_le_sum [of b _ "\<lambda>b. \<Sum>c<C. counts g b c"]) simp_all
  also have "\<dots> \<le> (\<Sum>g<G. \<Sum>b<B. \<Sum>c<C. counts g b c)"
    using assms(1)
    by (intro member_le_sum [of g _ "\<lambda>g. \<Sum>b<B. \<Sum>c<C. counts g b c"]) simp_all
  finally show ?thesis by (simp add: total_counts_def)
qed

lemma extgal_class_counted:
  assumes "c < C" "extgal_mask counts G B c"
  shows "1 \<le> num_extgal_classes counts G B C"
proof -
  have "(if extgal_mask counts G B c then 1 else 0 :: nat) \<le>
        (\<Sum>c<C. if extgal_mask counts G B c then 1 else 0)"
    using assms(1)
    by (intro member_le_sum [of c _ "\<lambda>c. if extgal_mask counts G B c then 1 else 0"]) simp_all
  with assms(2) show ?thesis by (simp add: num_extgal_classes_def)
qed

lemma cell_weight_positive:
  assumes cnt: "1 \<le> counts g b c" and g: "g < G" and b: "b < B" and c: "c < C"
    and sc: "extgal_scale counts G B C \<noteq> Fin 0"
  shows "fl_positive
           (if extgal_mask counts G B c
            then fdiv (fdiv (Fin (real (total_counts counts G B C)))
                         (Fin (max (real (counts g b c)) min_bin_count)))
                   (extgal_scale counts G B C)
            else fdiv (Fin (real (total_counts counts G B C)))
                   (Fin (max (real (counts g b c)) min_bin_count)))"
proof -
  let ?t = "real (total_counts counts G B C)"
  let ?f = "max (real (counts g b c)) min_bin_count"
  have t: "0 < ?t"
    using cell_le_total [OF g b c, of counts] cnt by simp
  have f: "0 < ?f" using cnt by (simp add: max_def)
  have w0: "fdiv (Fin ?t) (Fin ?f) = Fin (?t / ?f)" using f by simp
  have p0: "0 < ?t / ?f" using t f by simp
  show ?thesis
  proof (cases "extgal_mask counts G B c")
    case False
    with w0 p0 show ?thesis by (simp add: fl_positive_def)
  next
    case True
    let ?nb = "real (num_extgal_bins counts G B C)"
    let ?nc = "real (num_extgal_classes counts G B C)"
    have nc: "0 < ?nc" using extgal_class_counted [OF c True] by simp
    then have s: "extgal_scale counts G B C = Fin (?nb / ?nc)"
      by (simp add: extgal_scale_def)
    with sc have "?nb / ?nc \<noteq> 0" by simp
    moreover have "0 \<le> ?nb / ?nc" by simp
    ultimately have ps: "0 < ?nb / ?nc" by linarith
    then have "fdiv (Fin (?t / ?f)) (Fin (?nb / ?nc)) = Fin (?t / ?f / (?nb / ?nc))"
      by (rule fdiv_Fin_pos)
    moreover have "0 < ?t / ?f / (?nb / ?nc)" using p0 ps by (rule divide_pos_pos)
    ultimately show ?thesis using True
      by (simp only: w0 s if_True fl_positive_def fl.case)
  qed
qed

lemma fl_positive_fmul: "fl_positive x \<Longrightarrow> 0 < w \<Longrightarrow> fl_positive (fmul x (Fin w))"
  by (cases x) (simp_all add: fl_positive_def)

lemma label_index_np_unique:
  "x \<in> set xs \<Longrightarrow> label_index (np_unique xs) x < length (np_unique xs) \<and>
     np_unique xs ! label_index (np_unique xs) x = x"
  by (simp add: label_index_less nth_label_index)

lemma redshift_cells_facts:
  assumes lr: "length redshifts = length oc"
    and lg: "case groups of Some gs \<Rightarrow> length gs = length oc | None \<Rightarrow> True"
    and z: "\<forall>z \<in> set redshifts. z \<le> lit_1e99"
  shows "length (redshift_cells redshifts oc groups lo hi n) = length oc"
    and "\<forall>cell \<in> set (redshift_cells redshifts oc groups lo hi n).
           fst cell < num_groups groups \<and>
           - 1 \<le> fst (snd cell) \<and>
           fst (snd cell) < int (length (redshift_bins lo hi n) - 1) \<and>
           snd (snd cell) < length (np_unique oc) \<and>
           np_unique oc ! snd (snd cell) \<in> set oc"
proof -
  let ?gi = "group_indices_of (length oc) groups"
  let ?ri = "map (redshift_index (redshift_bins lo hi n)) redshifts"
  let ?ci = "map (label_index (np_unique oc)) oc"
  have cells: "redshift_cells redshifts oc groups lo hi n = zip ?gi (zip ?ri ?ci)"
    by (simp add: redshift_cells_def Let_def)
  have lgi: "length ?gi = length oc"
    using lg by (cases groups) (simp_all add: group_indices_of_def)
  show "length (redshift_cells redshifts oc groups lo hi n) = length oc"
    using lgi lr by (simp add: cells)
  have gi: "g < num_groups groups" if "g \<in> set ?gi" for g
  proof (cases groups)
    case None
    with that show ?thesis by (auto simp: group_indices_of_def num_groups_def)
  next
    case (Some gs)
    with that obtain x where "x \<in> set gs" "g = label_index (np_unique gs) x"
      by (auto simp: group_indices_of_def)
    with Some show ?thesis by (simp add: num_groups_def label_index_np_unique)
  qed
  have ri: "- 1 \<le> r \<and> r < int (length (redshift_bins lo hi n) - 1)" if "r \<in> set ?ri" for r
  proof -
    from that obtain v where "v \<in> set redshifts" "r = redshift_index (redshift_bins lo hi n) v"
      by auto
    with z show ?thesis using redshift_index_range [of v lo hi n] by simp
  qed
  have ci: "c < length (np_unique oc) \<and> np_unique oc ! c \<in> set oc" if "c \<in> set ?ci" for c
  proof -
    from that obtain x where "x \<in> set oc" "c = label_index (np_unique oc) x" by auto
    then show ?thesis by (simp add: label_index_np_unique)
  qed
  show "\<forall>cell \<in> set (redshift_cells redshifts oc groups lo hi n).
           fst cell < num_groups groups \<and>
           - 1 \<le> fst (snd cell) \<and>
           fst (snd cell) < int (length (redshift_bins lo hi n) - 1) \<and>
           snd (snd cell) < length (np_unique oc) \<and>
           np_unique oc ! snd (snd cell) \<in> set oc"
  proof
    fix cell assume "cell \<in> set (redshift_cells redshifts oc groups lo hi n)"
    then have m: "cell \<in> set (zip ?gi (zip ?ri ?ci))" by (simp only: cells)
    obtain g r c where cell: "cell = (g, r, c)" by (cases cell)
    from m cell have "g \<in> set ?gi" "(r, c) \<in> set (zip ?ri ?ci)"
      by (auto dest: set_zip_leftD set_zip_rightD)
    then have "g \<in> set ?gi" "r \<in> set ?ri" "c \<in> set ?ci"
      by (auto dest: set_zip_leftD set_zip_rightD)
    with gi ri ci show "fst cell < num_groups groups \<and>
           - 1 \<le> fst (snd cell) \<and>
           fst (snd cell) < int (length (redshift_bins lo hi n) - 1) \<and>
           snd (snd cell) < length (np_unique oc) \<and>
           np_unique oc ! snd (snd cell) \<in> set oc"
      by (simp add: cell)
  qed
qed

lemma redshift_weights_key_error:
  fixes object_classes :: "'c::linorder list" and groups :: "'g::linorder list option"
  assumes lr: "length redshifts = length object_classes"
    and lg: "case groups of Some gs \<Rightarrow> length gs = length object_classes | None \<Rightarrow> True"
    and z: "\<forall>z \<in> set redshifts. z \<le> lit_1e99"
    and missing: "\<exists>c \<in> set object_classes. m c = None"
  shows "evaluate_weights_redshift redshifts object_classes groups (Some m)
           min_redshift max_redshift num_bins min_bin_count = Inl KeyError"
proof -
  let ?bins = "redshift_bins min_redshift max_redshift num_bins"
  let ?nb = "length ?bins - 1"
  let ?names = "np_unique object_classes"
  let ?C = "length ?names"
  let ?cells = "redshift_cells redshifts object_classes groups min_redshift max_redshift num_bins"
  have nb: "0 < ?nb" by (simp add: length_redshift_bins)
  note facts = redshift_cells_facts [OF lr lg z, of min_redshift max_redshift num_bins]
  have rng: "\<forall>cell \<in> set ?cells. - 1 \<le> fst (snd cell) \<and> fst (snd cell) < int ?nb"
    using facts(2) by blast
  from count_loop_ok [OF rng nb] obtain counts where
    rc: "redshift_counts redshifts object_classes groups min_redshift max_redshift num_bins =
           Inr counts"
    unfolding redshift_counts_def by blast
  from missing obtain c where c: "c \<in> set object_classes" "m c = None" by blast
  define i where "i = label_index ?names c"
  have i: "i < ?C" "?names ! i = c"
    using label_index_np_unique [OF c(1)] by (simp_all add: i_def)
  then have "(i, c) \<in> set (zip [0..<?C] ?names)"
    by (force simp: set_zip)
  with c have "\<exists>p \<in> set (zip [0..<?C] ?names). m (snd p) = None" by force
  then have "class_weight_loop m (zip [0..<?C] ?names) w = Inl KeyError" for w
    by (rule class_weight_loop_err)
  then show ?thesis
    unfolding evaluate_weights_redshift_def Let_def
    by (simp only: rc sum.case option.case)
qed

text \<open>
  Claim C7, as the code has it. For metadata columns with one entry per object, bounds
  that keep the bin edges increasing, no redshift above \<open>1e99\<close>, and either no class
  weights or a mapping that gives every class of the dataset a positive multiplier,
  \<open>evaluate_weights_redshift\<close> returns one weight per object, in the order of the
  objects, and every weight is a positive real number, provided the extragalactic
  scale the function computes is not 0. Nothing is said about a scale of 0. With a
  mapping that lacks a class of the dataset the function raises \<open>KeyError\<close>.
\<close>

theorem redshift_weights_positive:
  fixes object_classes :: "'c::linorder list" and groups :: "'g::linorder list option"
  assumes lr: "length redshifts = length object_classes"
    and lg: "case groups of Some gs \<Rightarrow> length gs = length object_classes | None \<Rightarrow> True"
    and lo: "lit_1e_99 \<le> min_redshift" and lt: "min_redshift < max_redshift"
    and hi: "max_redshift \<le> lit_1e99"
    and z: "\<forall>z \<in> set redshifts. z \<le> lit_1e99"
    and cw: "case class_weights of
               None \<Rightarrow> True
             | Some m \<Rightarrow> \<forall>c \<in> set object_classes. \<exists>w. m c = Some w \<and> 0 < w"
    and sc: "redshift_extgal_scale redshifts object_classes groups
               min_redshift max_redshift num_bins \<noteq> Inr (Fin 0)"
  shows "(\<exists>ws. evaluate_weights_redshift redshifts object_classes groups class_weights
                 min_redshift max_redshift num_bins min_bin_count = Inr (map Fin ws) \<and>
              length ws = length object_classes \<and> (\<forall>w \<in> set ws. 0 < w)) \<and>
         (\<forall>m'. (\<exists>c \<in> set object_classes. m' c = None) \<longrightarrow>
            evaluate_weights_redshift redshifts object_classes groups (Some m')
              min_redshift max_redshift num_bins min_bin_count = Inl KeyError)"
proof -
  let ?bins = "redshift_bins min_redshift max_redshift num_bins"
  let ?nb = "length ?bins - 1"
  let ?names = "np_unique object_classes"
  let ?G = "num_groups groups"
  let ?C = "length ?names"
  let ?cells = "redshift_cells redshifts object_classes groups min_redshift max_redshift num_bins"
  let ?cm = "\<lambda>(g, r, c). (g, bin_of ?nb r, c)"
  define counts where
    "counts = (\<lambda>g b c. (0::nat) + count_list (map ?cm ?cells) (g, b, c))"
  have nb: "0 < ?nb" by (simp add: length_redshift_bins)
  note facts = redshift_cells_facts [OF lr lg z, of min_redshift max_redshift num_bins]
  have rng: "\<forall>cell \<in> set ?cells. - 1 \<le> fst (snd cell) \<and> fst (snd cell) < int ?nb"
    using facts(2) by blast
  have rc: "redshift_counts redshifts object_classes groups min_redshift max_redshift num_bins =
              Inr counts"
    unfolding redshift_counts_def counts_def using rng nb by (rule count_loop_ok)
  have sc': "extgal_scale counts ?G ?nb ?C \<noteq> Fin 0"
    using sc by (simp add: redshift_extgal_scale_def rc)
  let ?w0 = "\<lambda>g b c. fdiv (Fin (real (total_counts counts ?G ?nb ?C)))
                          (Fin (max (real (counts g b c)) min_bin_count))"
  let ?w1 = "\<lambda>g b c. if extgal_mask counts ?G ?nb c
                      then fdiv (?w0 g b c) (extgal_scale counts ?G ?nb ?C) else ?w0 g b c"
  have pos1: "fl_positive (?w1 (fst cell) (bin_of ?nb (fst (snd cell))) (snd (snd cell)))"
    if cell: "cell \<in> set ?cells" for cell
  proof -
    obtain g r c where c3: "cell = (g, r, c)" by (cases cell)
    from facts(2) cell c3 have g: "g < ?G" and r: "- 1 \<le> r" "r < int ?nb" and c: "c < ?C"
      by auto
    have b: "bin_of ?nb r < ?nb" using r nb by (rule py_index_ok(2))
    have "(g, bin_of ?nb r, c) \<in> set (map ?cm ?cells)"
      using cell c3 by force
    then have "count_list (map ?cm ?cells) (g, bin_of ?nb r, c) \<noteq> 0"
      by (simp add: count_list_0_iff)
    then have cnt: "1 \<le> counts g (bin_of ?nb r) c" by (simp add: counts_def)
    from cell_weight_positive [OF cnt g b c sc', of min_bin_count]
    show ?thesis by (simp only: c3 fst_conv snd_conv)
  qed
  have "\<exists>w2. (case class_weights of
                 None \<Rightarrow> Inr ?w1
               | Some m \<Rightarrow> class_weight_loop m (zip [0..<?C] ?names) ?w1) = Inr w2 \<and>
             (\<forall>cell \<in> set ?cells.
                fl_positive (w2 (fst cell) (bin_of ?nb (fst (snd cell))) (snd (snd cell))))"
  proof (cases class_weights)
    case None
    have "(case class_weights of
                 None \<Rightarrow> Inr ?w1
               | Some m \<Rightarrow> class_weight_loop m (zip [0..<?C] ?names) ?w1) = Inr ?w1"
      by (simp only: None option.case)
    with pos1 show ?thesis by blast
  next
    case (Some m)
    with cw have m: "\<forall>c \<in> set object_classes. \<exists>w. m c = Some w \<and> 0 < w" by simp
    let ?wt = "\<lambda>name. the (m name)"
    let ?ics = "zip [0..<?C] ?names"
    have a: "\<forall>p \<in> set ?ics. m (snd p) = Some (?wt (snd p))"
    proof
      fix p assume pin: "p \<in> set ?ics"
      obtain i nm where p: "p = (i, nm)" by (cases p)
      from pin p have "nm \<in> set ?names" by (auto dest: set_zip_rightD)
      with p have "snd p \<in> set ?names" by simp
      then have "snd p \<in> set object_classes" by simp
      with m obtain w where "m (snd p) = Some w" by blast
      then show "m (snd p) = Some (?wt (snd p))" by simp
    qed
    have d: "distinct (map fst ?ics)" by simp
    let ?w2 = "\<lambda>g b c. case map_of ?ics c of
                           Some name \<Rightarrow> fmul (?w1 g b c) (Fin (?wt name))
                         | None \<Rightarrow> ?w1 g b c"
    have loop: "class_weight_loop m ?ics ?w1 = Inr ?w2"
      using a d by (rule class_weight_loop_ok)
    have "fl_positive (?w2 (fst cell) (bin_of ?nb (fst (snd cell))) (snd (snd cell)))"
      if cell: "cell \<in> set ?cells" for cell
    proof -
      let ?c = "snd (snd cell)"
      from facts(2) cell have c: "?c < ?C" and inoc: "?names ! ?c \<in> set object_classes"
        by auto
      have "map_of ?ics ([0..<?C] ! ?c) = Some (?names ! ?c)"
        using c by (intro map_of_zip_nth) simp_all
      then have mo: "map_of ?ics ?c = Some (?names ! ?c)" using c by simp
      from m inoc obtain w where w: "m (?names ! ?c) = Some w" "0 < w" by blast
      then have "0 < ?wt (?names ! ?c)" by simp
      with pos1 [OF cell] have "fl_positive
          (fmul (?w1 (fst cell) (bin_of ?nb (fst (snd cell))) ?c) (Fin (?wt (?names ! ?c))))"
        by (rule fl_positive_fmul)
      then show ?thesis by (simp only: mo option.case)
    qed
    then have p: "\<forall>cell \<in> set ?cells.
        fl_positive (?w2 (fst cell) (bin_of ?nb (fst (snd cell))) (snd (snd cell)))"
      by blast
    have "(case class_weights of
                 None \<Rightarrow> Inr ?w1
               | Some m \<Rightarrow> class_weight_loop m (zip [0..<?C] ?names) ?w1) = Inr ?w2"
      by (simp only: Some option.case loop)
    with p show ?thesis by blast
  qed
  then obtain w2 where w2: "(case class_weights of
                 None \<Rightarrow> Inr ?w1
               | Some m \<Rightarrow> class_weight_loop m (zip [0..<?C] ?names) ?w1) = Inr w2"
    and pos2: "\<forall>cell \<in> set ?cells.
                fl_positive (w2 (fst cell) (bin_of ?nb (fst (snd cell))) (snd (snd cell)))"
    by blast
  have gather: "gather_weights ?nb w2 ?cells =
                  Inr (map (\<lambda>(g, r, c). w2 g (bin_of ?nb r) c) ?cells)"
    using rng nb by (rule gather_weights_ok)
  have res: "evaluate_weights_redshift redshifts object_classes groups class_weights
                 min_redshift max_redshift num_bins min_bin_count =
             Inr (map (\<lambda>(g, r, c). w2 g (bin_of ?nb r) c) ?cells)"
    unfolding evaluate_weights_redshift_def Let_def
    by (simp only: rc sum.case w2 gather)
  have "\<forall>x \<in> set (map (\<lambda>(g, r, c). w2 g (bin_of ?nb r) c) ?cells). fl_positive x"
    using pos2 by (auto simp: case_prod_unfold)
  from fl_positive_list [OF this] obtain ws where
    ws: "map (\<lambda>(g, r, c). w2 g (bin_of ?nb r) c) ?cells = map Fin ws" "\<forall>w \<in> set ws. 0 < w"
    by blast
  have "length ws = length ?cells"
    using ws(1) by (metis length_map)
  with facts(1) have "length ws = length object_classes" by simp
  with res ws have first:
    "\<exists>ws. evaluate_weights_redshift redshifts object_classes groups class_weights
                 min_redshift max_redshift num_bins min_bin_count = Inr (map Fin ws) \<and>
              length ws = length object_classes \<and> (\<forall>w \<in> set ws. 0 < w)"
    by auto
  have second: "\<forall>m'. (\<exists>c \<in> set object_classes. m' c = None) \<longrightarrow>
            evaluate_weights_redshift redshifts object_classes groups (Some m')
              min_redshift max_redshift num_bins min_bin_count = Inl KeyError"
    using redshift_weights_key_error [OF lr lg z] by blast
  from first second show ?thesis by (rule conjI)
qed

lemma example_cells:
  "redshift_cells [1 / 2, 0] [0 :: int, 1] (None :: int list option) (1 / 100) 3 (Suc 0) =
     [(0, 1, 0), (0, 0, 1)]"
  by (simp add: redshift_cells_def redshift_bins_1 redshift_index_def np_unique_def
      label_index_def group_indices_of_def Let_def lit_1e99_def lit_1e_99_def)

lemma example_scale:
  "redshift_extgal_scale [1 / 2, 0] [0 :: int, 1] (None :: int list option) (1 / 100) 3 (Suc 0) =
     Inr (Fin 1)"
proof -
  have s: "{1..<2::nat} = {1}" by auto
  have t: "{..<2::nat} = {0, 1}" by auto
  show ?thesis
    by (simp add: redshift_extgal_scale_def redshift_counts_def example_cells redshift_bins_1
        py_index_def extgal_scale_def num_extgal_bins_def num_extgal_classes_def
        extgal_mask_def class_extgal_counts_def class_gal_counts_def total_counts_def
        num_groups_def np_unique_def lit_1e_4_def s t)
qed

theorem redshift_weights_positive_witness:
  "(\<exists>ws. evaluate_weights_redshift [1 / 2, 0] [0 :: int, 1] (None :: int list option)
           (Some [0 \<mapsto> 2, 1 \<mapsto> 3]) (1 / 100) 3 (Suc 0) 5 = Inr (map Fin ws) \<and>
        length ws = length [0 :: int, 1] \<and> (\<forall>w \<in> set ws. 0 < w)) \<and>
   evaluate_weights_redshift [1 / 2, 0] [0 :: int, 1] (None :: int list option)
     (Some [0 \<mapsto> 2]) (1 / 100) 3 (Suc 0) 5 = Inl KeyError"
proof -
  have a: "length [1 / 2, 0 :: real] = length [0 :: int, 1]" by simp
  have b: "case (None :: int list option) of
             Some gs \<Rightarrow> length gs = length [0 :: int, 1] | None \<Rightarrow> True"
    by simp
  have c: "lit_1e_99 \<le> 1 / 100" "(1 / 100 :: real) < 3" "3 \<le> lit_1e99"
    by (simp_all add: lit_1e_99_def lit_1e99_def)
  have d: "\<forall>z \<in> set [1 / 2, 0 :: real]. z \<le> lit_1e99"
    by (simp add: lit_1e99_def)
  have e: "case Some [0 :: int \<mapsto> 2 :: real, 1 \<mapsto> 3] of
             None \<Rightarrow> True
           | Some m \<Rightarrow> \<forall>c \<in> set [0 :: int, 1]. \<exists>w. m c = Some w \<and> 0 < w"
    by simp
  have f: "redshift_extgal_scale [1 / 2, 0] [0 :: int, 1] (None :: int list option)
             (1 / 100) 3 (Suc 0) \<noteq> Inr (Fin 0)"
    by (simp add: example_scale)
  note t = redshift_weights_positive [OF a b c d e f, of 5]
  have g: "\<exists>c \<in> set [0 :: int, 1]. [0 :: int \<mapsto> 2 :: real] c = None"
    by simp
  from t have "(\<exists>c \<in> set [0 :: int, 1]. [0 :: int \<mapsto> 2 :: real] c = None) \<longrightarrow>
      evaluate_weights_redshift [1 / 2, 0] [0 :: int, 1] (None :: int list option)
        (Some [0 \<mapsto> 2]) (1 / 100) 3 (Suc 0) 5 = Inl KeyError"
    by blast
  with g have "evaluate_weights_redshift [1 / 2, 0] [0 :: int, 1] (None :: int list option)
        (Some [0 \<mapsto> 2]) (1 / 100) 3 (Suc 0) 5 = Inl KeyError"
    by (rule rev_mp)
  with t show ?thesis by blast
qed

text \<open>
  The claim as written fails: a mapping of positive multipliers that does not list a
  class of the dataset makes the function raise \<open>KeyError\<close>, so that no series is
  returned.
\<close>

theorem redshift_weights_positive_counterexample:
  "evaluate_weights_redshift [1 / 2] [0 :: int] (None :: int list option) (Some [1 \<mapsto> 2])
     (1 / 100) 3 1 5 = Inl KeyError"
  by (simp add: evaluate_weights_redshift_def redshift_counts_def redshift_cells_def
      redshift_bins_1 redshift_index_def np_unique_def label_index_def group_indices_of_def
      py_index_def Let_def lit_1e99_def lit_1e_99_def)

end
